(* ===== verification/Prelude.thy ===== *)
theory Prelude
  imports Main "HOL-Library.Word"
begin

text \<open>
  Shared vocabulary of the development: the machine integers and byte strings of the Rust
  sources, the build configuration (profile and pointer width) that decides what integer
  overflow does, Rust's three outcomes of a call (\<open>Ok\<close>, \<open>Err\<close>, panic), state-passing
  commands over them, and the big- and little-endian byte codecs with their round-trip
  lemmas.  The collection \<open>cmd_simps\<close> unfolds commands and \<open>usize_simps\<close> the checked
  \<open>usize\<close> arithmetic.
\<close>

named_theorems cmd_simps \<open>unfolding state-passing commands\<close>
named_theorems usize_simps \<open>in-range machine arithmetic\<close>

section \<open>Machine integers, byte strings and the build\<close>

type_synonym u8 = "8 word"
type_synonym u16 = "16 word"
type_synonym u32 = "32 word"
type_synonym u64 = "64 word"
type_synonym u128 = "128 word"
type_synonym u256 = "256 word"
type_synonym bytes = "u8 list"

text \<open>
  A Debug build checks integer overflow and evaluates \<open>debug_assert!\<close>; a Release build wraps
  and skips them.  \<open>usize\<close> has 32 bits on the Cortex-M targets and 64 on the hosts.
\<close>

datatype profile = Debug | Release
datatype ptr_width = W32 | W64

record build =
  profile :: profile
  ptr_width :: ptr_width

definition usize_bits :: "build \<Rightarrow> nat" where
  "usize_bits b = (case ptr_width b of W32 \<Rightarrow> 32 | W64 \<Rightarrow> 64)"

abbreviation usize_limit :: "build \<Rightarrow> nat" where
  "usize_limit b \<equiv> 2 ^ usize_bits b"

definition usize_max :: "build \<Rightarrow> nat" where
  "usize_max b = usize_limit b - 1"

lemma usize_bits_cases: "usize_bits b = 32 \<or> usize_bits b = 64"
  by (simp add: usize_bits_def split: ptr_width.split)

lemma usize_limit_ge: "4294967296 \<le> usize_limit b"
  using usize_bits_cases [of b] by auto

lemma usize_limit_le: "usize_limit b \<le> 2 ^ 64"
  using usize_bits_cases [of b] by auto

section \<open>Outcomes of a call and state-passing commands\<close>

text \<open>A call returns a value, returns an error value, or panics.\<close>

datatype ('e, 'a) res = Ok 'a | Err 'e | Panic

primrec bind_res :: "('e, 'a) res \<Rightarrow> ('a \<Rightarrow> ('e, 'b) res) \<Rightarrow> ('e, 'b) res" where
  "bind_res (Ok x) f = f x"
| "bind_res (Err e) f = Err e"
| "bind_res Panic f = Panic"

primrec map_err :: "('e \<Rightarrow> 'f) \<Rightarrow> ('e, 'a) res \<Rightarrow> ('f, 'a) res" where
  "map_err g (Ok x) = Ok x"
| "map_err g (Err e) = Err (g e)"
| "map_err g Panic = Panic"

text \<open>\<open>Option::ok_or\<close>, \<open>Option::unwrap\<close> and \<open>Result::unwrap\<close>.\<close>

primrec ok_or :: "'e \<Rightarrow> 'a option \<Rightarrow> ('e, 'a) res" where
  "ok_or e None = Err e"
| "ok_or e (Some x) = Ok x"

primrec unwrap :: "'a option \<Rightarrow> ('e, 'a) res" where
  "unwrap None = Panic"
| "unwrap (Some x) = Ok x"

primrec unwrap_res :: "('e, 'a) res \<Rightarrow> ('f, 'a) res" where
  "unwrap_res (Ok x) = Ok x"
| "unwrap_res (Err e) = Panic"
| "unwrap_res Panic = Panic"

text \<open>Indexing \<open>xs[i]\<close> panics out of range, as does assigning to \<open>xs[i]\<close>.\<close>

definition index :: "'a list \<Rightarrow> nat \<Rightarrow> ('e, 'a) res" where
  "index xs i = (if i < length xs then Ok (xs ! i) else Panic)"

definition set_index :: "'a list \<Rightarrow> nat \<Rightarrow> 'a \<Rightarrow> ('e, 'a list) res" where
  "set_index xs i x = (if i < length xs then Ok (xs[i := x]) else Panic)"

lemma bind_res_Ok_iff: "bind_res m f = Ok y \<longleftrightarrow> (\<exists>x. m = Ok x \<and> f x = Ok y)"
  by (cases m) auto

lemma bind_res_assoc: "bind_res (bind_res m f) g = bind_res m (\<lambda>x. bind_res (f x) g)"
  by (cases m) auto

lemma bind_res_Panic_iff:
  "bind_res m f = Panic \<longleftrightarrow> m = Panic \<or> (\<exists>x. m = Ok x \<and> f x = Panic)"
  by (cases m) auto

lemma map_err_Ok_iff [simp]: "map_err g m = Ok y \<longleftrightarrow> m = Ok y"
  by (cases m) auto

lemma map_err_Panic_iff [simp]: "map_err g m = Panic \<longleftrightarrow> m = Panic"
  by (cases m) auto

lemma map_err_Err_iff: "map_err g m = Err y \<longleftrightarrow> (\<exists>e. m = Err e \<and> y = g e)"
  by (cases m) auto

lemma ok_or_Ok_iff [simp]: "ok_or e m = Ok y \<longleftrightarrow> m = Some y"
  by (cases m) auto

lemma unwrap_Ok_iff [simp]: "unwrap m = Ok y \<longleftrightarrow> m = Some y"
  by (cases m) auto

lemma index_Ok_iff [simp]: "index xs i = Ok y \<longleftrightarrow> i < length xs \<and> y = xs ! i"
  by (auto simp: index_def)

lemma set_index_Ok_iff [simp]: "set_index xs i x = Ok ys \<longleftrightarrow> i < length xs \<and> ys = xs[i := x]"
  by (auto simp: set_index_def)

text \<open>
  A loop that collects results, and the loop \<open>for (a, b) in arr.iter_mut().zip(v)\<close> over an
  array of \<open>n\<close> defaults: it stops at the shorter of the two and leaves the rest at its default.
\<close>

primrec mapM_res :: "('a \<Rightarrow> ('e, 'b) res) \<Rightarrow> 'a list \<Rightarrow> ('e, 'b list) res" where
  "mapM_res f [] = Ok []"
| "mapM_res f (x # xs) = bind_res (f x) (\<lambda>y. bind_res (mapM_res f xs) (\<lambda>ys. Ok (y # ys)))"

fun zip_fill :: "nat \<Rightarrow> 'b \<Rightarrow> ('a \<Rightarrow> ('e, 'b) res) \<Rightarrow> 'a list \<Rightarrow> ('e, 'b list) res" where
  "zip_fill 0 d f ws = Ok []"
| "zip_fill (Suc n) d f [] = Ok (replicate (Suc n) d)"
| "zip_fill (Suc n) d f (w # ws) =
     bind_res (f w) (\<lambda>y. bind_res (zip_fill n d f ws) (\<lambda>ys. Ok (y # ys)))"

lemma mapM_res_Ok: "(\<And>x. x \<in> set xs \<Longrightarrow> f x = Ok (g x)) \<Longrightarrow> mapM_res f xs = Ok (map g xs)"
  by (induction xs) auto

lemma mapM_res_length: "mapM_res f xs = Ok ys \<Longrightarrow> length ys = length xs"
  by (induction xs arbitrary: ys) (auto simp: bind_res_Ok_iff)

lemma zip_fill_length: "zip_fill n d f ws = Ok ys \<Longrightarrow> length ys = n"
  by (induction n d f ws arbitrary: ys rule: zip_fill.induct) (auto simp: bind_res_Ok_iff)

lemma zip_fill_round_trip:
  "length xs = n \<Longrightarrow> (\<And>x. x \<in> set xs \<Longrightarrow> f (g x) = Ok x) \<Longrightarrow> zip_fill n d f (map g xs) = Ok xs"
  by (induction xs arbitrary: n) auto

text \<open>
  A method with \<open>&mut self\<close> maps a state to an outcome and the state it leaves behind, on
  every outcome: what was written or sent before an error or a panic stays written.
\<close>

type_synonym ('s, 'e, 'a) cmd = "'s \<Rightarrow> ('e, 'a) res \<times> 's"

definition ret :: "'a \<Rightarrow> ('s, 'e, 'a) cmd" where
  "ret x = (\<lambda>s. (Ok x, s))"

definition fail :: "'e \<Rightarrow> ('s, 'e, 'a) cmd" where
  "fail e = (\<lambda>s. (Err e, s))"

definition crash :: "('s, 'e, 'a) cmd" where
  "crash = (\<lambda>s. (Panic, s))"

definition lift_res :: "('e, 'a) res \<Rightarrow> ('s, 'e, 'a) cmd" where
  "lift_res r = (\<lambda>s. (r, s))"

definition bindS :: "('s, 'e, 'a) cmd \<Rightarrow> ('a \<Rightarrow> ('s, 'e, 'b) cmd) \<Rightarrow> ('s, 'e, 'b) cmd" where
  "bindS m f = (\<lambda>s. case m s of
     (Ok x, s') \<Rightarrow> f x s' | (Err e, s') \<Rightarrow> (Err e, s') | (Panic, s') \<Rightarrow> (Panic, s'))"

lemma ret_apply [simp, cmd_simps]: "ret x s = (Ok x, s)"
  by (simp add: ret_def)

lemma fail_apply [simp, cmd_simps]: "fail e s = (Err e, s)"
  by (simp add: fail_def)

lemma crash_apply [simp, cmd_simps]: "crash s = (Panic, s)"
  by (simp add: crash_def)

lemma lift_res_apply [simp, cmd_simps]: "lift_res r s = (r, s)"
  by (simp add: lift_res_def)

lemma bindS_Ok: "m s = (Ok x, s') \<Longrightarrow> bindS m f s = f x s'"
  by (simp add: bindS_def)

lemma bindS_Err: "m s = (Err e, s') \<Longrightarrow> bindS m f s = (Err e, s')"
  by (simp add: bindS_def)

lemma bindS_Panic: "m s = (Panic, s') \<Longrightarrow> bindS m f s = (Panic, s')"
  by (simp add: bindS_def)

lemma bindS_lift [simp]: "bindS (lift_res r) f s =
    (case r of Ok x \<Rightarrow> f x s | Err e \<Rightarrow> (Err e, s) | Panic \<Rightarrow> (Panic, s))"
  by (simp add: bindS_def lift_res_def split: res.split)

lemma bindS_ret [simp]: "bindS (ret x) f = f x"
  by (rule ext) (simp add: bindS_def)

lemma bindS_ret_right [simp]: "bindS m ret = m"
  by (rule ext) (auto simp: bindS_def split: prod.split res.split)

lemma bindS_assoc: "bindS (bindS m f) g = bindS m (\<lambda>x. bindS (f x) g)"
  by (rule ext) (auto simp: bindS_def split: prod.split res.split)

lemma bindS_Ok_iff:
  "bindS m f s = (Ok y, t) \<longleftrightarrow> (\<exists>x s'. m s = (Ok x, s') \<and> f x s' = (Ok y, t))"
  by (auto simp: bindS_def split: prod.split res.split)

lemma bindS_lift_Ok_iff:
  "bindS (lift_res r) f s = (Ok y, t) \<longleftrightarrow> (\<exists>x. r = Ok x \<and> f x s = (Ok y, t))"
  by (cases r) simp_all

section \<open>Machine arithmetic\<close>

lemma unat_bound: "unat (x :: 'a::len word) < 2 ^ LENGTH('a)"
  by (rule unsigned_less)

text \<open>An overflow panics in a Debug build and wraps in a Release build.\<close>

definition usize_add :: "build \<Rightarrow> nat \<Rightarrow> nat \<Rightarrow> ('e, nat) res" where
  "usize_add b x y =
     (if x + y < usize_limit b then Ok (x + y)
      else case profile b of Debug \<Rightarrow> Panic | Release \<Rightarrow> Ok ((x + y) mod usize_limit b))"

definition usize_sub :: "build \<Rightarrow> nat \<Rightarrow> nat \<Rightarrow> ('e, nat) res" where
  "usize_sub b x y =
     (if y \<le> x then Ok (x - y)
      else case profile b of Debug \<Rightarrow> Panic
           | Release \<Rightarrow> Ok ((x + usize_limit b - y) mod usize_limit b))"

definition u64_add :: "build \<Rightarrow> u64 \<Rightarrow> u64 \<Rightarrow> ('e, u64) res" where
  "u64_add b x y =
     (if unat x + unat y < 2 ^ 64 then Ok (x + y)
      else case profile b of Debug \<Rightarrow> Panic | Release \<Rightarrow> Ok (x + y))"

definition u8_add :: "build \<Rightarrow> u8 \<Rightarrow> u8 \<Rightarrow> ('e, u8) res" where
  "u8_add b x y =
     (if unat x + unat y < 2 ^ 8 then Ok (x + y)
      else case profile b of Debug \<Rightarrow> Panic | Release \<Rightarrow> Ok (x + y))"

definition u8_sub :: "build \<Rightarrow> u8 \<Rightarrow> u8 \<Rightarrow> ('e, u8) res" where
  "u8_sub b x y =
     (if y \<le> x then Ok (x - y)
      else case profile b of Debug \<Rightarrow> Panic | Release \<Rightarrow> Ok (x - y))"

text \<open>\<open>debug_assert!\<close>\<close>

definition debug_assert :: "build \<Rightarrow> bool \<Rightarrow> ('e, unit) res" where
  "debug_assert b c = (if profile b = Debug \<and> \<not> c then Panic else Ok ())"

lemma usize_add_in_range [usize_simps]: "x + y < usize_limit b \<Longrightarrow> usize_add b x y = Ok (x + y)"
  by (simp add: usize_add_def)

lemma usize_sub_in_range [usize_simps]: "y \<le> x \<Longrightarrow> usize_sub b x y = Ok (x - y)"
  by (simp add: usize_sub_def)

lemma debug_assert_True [simp]: "debug_assert b True = Ok ()"
  by (simp add: debug_assert_def)

lemma debug_assert_not_Err [simp]: "debug_assert b c \<noteq> Err e"
  by (simp add: debug_assert_def)

lemma u64_add_one_Ok:
  "u64_add b x 1 = Ok y \<longleftrightarrow> y = x + 1 \<and> (profile b = Release \<or> x \<noteq> - 1)"
proof -
  have top: "unat (- 1 :: u64) = 2 ^ 64 - 1"
    by (simp add: unsigned_minus_1_eq_mask mask_eq_exp_minus_1)
  have "unat x + 1 < 2 ^ 64 \<longleftrightarrow> unat x \<noteq> unat (- 1 :: u64)"
    unfolding top using unat_bound [of x] by auto
  then have "unat x + 1 < 2 ^ 64 \<longleftrightarrow> x \<noteq> - 1"
    by (simp only: word_unat_eq_iff)
  then show ?thesis
    by (auto simp: u64_add_def split: profile.split)
qed

section \<open>Byte codecs\<close>

text \<open>\<open>to_be_bytes\<close> of an \<open>n\<close>-byte unsigned value, and the value of a big-endian string.\<close>

fun be_bytes :: "nat \<Rightarrow> nat \<Rightarrow> bytes" where
  "be_bytes 0 x = []"
| "be_bytes (Suc n) x = be_bytes n (x div 256) @ [word_of_nat (x mod 256)]"

definition be_val :: "bytes \<Rightarrow> nat" where
  "be_val bs = foldl (\<lambda>a c. a * 256 + unat c) 0 bs"

definition le_val :: "bytes \<Rightarrow> nat" where
  "le_val bs = be_val (rev bs)"

lemma length_be_bytes [simp]: "length (be_bytes n x) = n"
  by (induction n arbitrary: x) auto

lemma be_val_Nil [simp]: "be_val [] = 0"
  by (simp add: be_val_def)

lemma be_val_snoc [simp]: "be_val (bs @ [c]) = be_val bs * 256 + unat c"
  by (simp add: be_val_def)

lemma be_val_append: "be_val (xs @ ys) = be_val xs * 256 ^ length ys + be_val ys"
proof (induction ys rule: rev_induct)
  case (snoc y ys)
  have "be_val (xs @ ys @ [y]) = be_val ((xs @ ys) @ [y])" by simp
  also have "\<dots> = be_val (xs @ ys) * 256 + unat y" by (rule be_val_snoc)
  finally show ?case using snoc by (simp add: algebra_simps)
qed simp

lemma be_val_Cons: "be_val (c # bs) = unat c * 256 ^ length bs + be_val bs"
  using be_val_append [of "[c]" bs] by (simp add: be_val_def)

lemma be_val_less: "be_val bs < 256 ^ length bs"
proof (induction bs rule: rev_induct)
  case (snoc c bs)
  have "unat c < 256" using unat_bound [of c] by simp
  moreover have "be_val bs + 1 \<le> 256 ^ length bs" using snoc by simp
  ultimately have "be_val bs * 256 + unat c < (be_val bs + 1) * 256" by simp
  also have "\<dots> \<le> 256 ^ length bs * 256" using \<open>be_val bs + 1 \<le> 256 ^ length bs\<close> by (intro mult_le_mono) auto
  finally show ?case by (simp add: mult.commute)
qed simp

lemma be_val_be_bytes: "be_val (be_bytes n x) = x mod 256 ^ n"
proof (induction n arbitrary: x)
  case (Suc n)
  have "be_val (be_bytes (Suc n) x) = (x div 256) mod 256 ^ n * 256 + x mod 256"
    using Suc by (simp add: unat_of_nat)
  also have "\<dots> = x mod (256 * 256 ^ n)"
    by (simp add: mod_mult2_eq)
  finally show ?case by simp
qed simp

lemma be_bytes_be_val: "be_bytes (length bs) (be_val bs) = bs"
proof (induction bs rule: rev_induct)
  case (snoc c bs)
  have c: "unat c < 256" using unat_bound [of c] by simp
  have "(be_val bs * 256 + unat c) div 256 = be_val bs"
    using c by simp
  moreover have "(be_val bs * 256 + unat c) mod 256 = unat c"
    using c by simp
  ultimately show ?case using snoc by simp
qed simp

lemma be_bytes_inj: "x < 256 ^ n \<Longrightarrow> y < 256 ^ n \<Longrightarrow> be_bytes n x = be_bytes n y \<longleftrightarrow> x = y"
  by (metis be_val_be_bytes mod_less)

lemma be_val_inj: "length xs = length ys \<Longrightarrow> be_val xs = be_val ys \<longleftrightarrow> xs = ys"
  by (metis be_bytes_be_val)

lemma be_val_replicate_0 [simp]: "be_val (replicate n 0 @ bs) = be_val bs"
proof -
  have "be_val (replicate n 0) = 0"
    by (induction n) (simp_all add: be_val_Cons)
  then show ?thesis by (simp add: be_val_append)
qed

text \<open>Zero-extending a shorter big-endian value gives the longer encoding of it.\<close>

lemma be_bytes_zero_extend:
  assumes "x < 256 ^ n"
  shows "replicate k 0 @ be_bytes n x = be_bytes (k + n) x"
proof -
  have "x < 256 ^ (k + n)"
    using assms by (rule less_le_trans) (simp add: power_add)
  then have "be_val (replicate k 0 @ be_bytes n x) = be_val (be_bytes (k + n) x)"
    using assms by (simp add: be_val_be_bytes)
  then show ?thesis by (subst (asm) be_val_inj) simp_all
qed

lemma sint_uint_cases:
  fixes v :: "'a::len word"
  shows "sint v = (if sint v < 0 then uint v - 2 ^ LENGTH('a) else uint v)"
proof -
  have u: "uint v = sint v mod 2 ^ LENGTH('a)"
    by (simp add: uint_sint take_bit_eq_mod)
  have half: "(2::int) ^ (LENGTH('a) - 1) \<le> 2 ^ LENGTH('a)" by (rule power_increasing) auto
  have lo: "- (2 ^ (LENGTH('a) - 1)) \<le> sint v" and hi: "sint v < 2 ^ (LENGTH('a) - 1)"
    by (rule sint_ge, rule sint_lt)
  show ?thesis
  proof (cases "sint v < 0")
    case True
    have "sint v mod 2 ^ LENGTH('a) = (sint v + 2 ^ LENGTH('a)) mod 2 ^ LENGTH('a)" by simp
    also have "\<dots> = sint v + 2 ^ LENGTH('a)"
      using True lo half by (intro mod_pos_pos_trivial) linarith+
    finally show ?thesis using True u by simp
  next
    case False
    with hi half have "sint v mod 2 ^ LENGTH('a) = sint v"
      by (intro mod_pos_pos_trivial) linarith+
    with False u show ?thesis by simp
  qed
qed
lemma be_val_replicate_ff: "be_val (replicate n 0xff) = 256 ^ n - 1"
proof (induction n)
  case (Suc n)
  have "(255::nat) * 256 ^ n + (256 ^ n - 1) = 256 ^ Suc n - 1" by simp
  with Suc show ?case by (simp add: be_val_Cons)
qed simp

lemma unat_less_256 [simp]: "unat (c :: u8) < 256"
  using unat_bound [of c] by simp

section \<open>Lists\<close>

lemma take_append_exact [simp]: "length xs = n \<Longrightarrow> take n (xs @ ys) = xs"
  by simp

lemma concat_singletons: "concat (map (\<lambda>x. [x]) xs) = xs"
  by (induction xs) auto

lemma append_eq_length_conv:
  "length xs = length us \<Longrightarrow> xs @ ys = us @ vs \<longleftrightarrow> xs = us \<and> ys = vs"
  by simp

end
