(* ===== verification/Serde.thy ===== *)
theory Serde
  imports Prelude
begin

text \<open>
  The values the Rust types hand to a \<open>serde\<close> serializer.  A \<open>Serialize\<close> implementation is a
  fixed sequence of calls of the \<open>serde::Serializer\<close> trait, so a value is the tree of those
  calls: one constructor per trait method, with the values that the calls after it pass on.
\<close>

datatype sval =
    SBool bool
  | SI8 u8 | SI16 u16 | SI32 u32 | SI64 u64 | SI128 u128
  | SU8 u8 | SU16 u16 | SU32 u32 | SU64 u64 | SU128 u128
  | SF32 u32 | SF64 u64
  | SChar nat
  | SStr bytes
  | SBytes bytes
  | SNone
  | SSome sval
  | SUnit
  | SUnitStruct string
  | SUnitVariant string nat string
  | SNewtypeStruct string sval
  | SNewtypeVariant string nat string sval
  | SSeq "nat option" "sval list"
  | STuple "sval list"
  | STupleStruct string "sval list"
  | STupleVariant string nat string "sval list"
  | SMap "nat option" "(sval \<times> sval) list"
  | SStruct string "(string \<times> sval) list"
  | SStructVariant string nat string "(string \<times> sval) list"

text \<open>
  \<open>derive(Serialize)\<close> on a struct calls \<open>serialize_struct\<close>, one \<open>serialize_field\<close> per field in
  declaration order, and \<open>end\<close>; the standard implementations send \<open>usize\<close> as \<open>u64\<close>.
\<close>

abbreviation usize_sval :: "nat \<Rightarrow> sval" where
  "usize_sval n \<equiv> SU64 (word_of_nat n)"

end
