(* ===== verification/Abi_Ser.thy ===== *)
theory Abi_Ser
  imports Serde
begin

text \<open>
  The streaming ABI serializer of \<open>src/abiencode/ser.rs\<close> and its error type of
  \<open>src/abiencode/error.rs\<close>: the four passes, the writers, every method of the
  \<open>serde::Serializer\<close> implementation and the entry points \<open>to_writer\<close>,
  \<open>to_fnargs_writer\<close>.  A generic parameter \<open>T: Serialize\<close> is its \<open>serialize\<close> method, a
  command on the serializer.  The \<open>explain!\<close> and \<open>trace\<close> helpers only print and are left out,
  and with them the field names that only they read.
\<close>

section \<open>Errors, writers and passes\<close>

datatype error =
    TypeNotRepresentable string
  | TypeNotYetSupported string

text \<open>
  A \<open>Writer\<close> receives one \<open>write\<close> call per slot; the model keeps the calls in order.
  \<open>NoWriter\<close> panics on every write.
\<close>

datatype writer = Slots "bytes list" | NoWriter

datatype pass =
    HeadSize nat bool bool
  | Head nat
  | TailSize nat
  | Tail

record serializer =
  writer :: writer
  pass :: pass

type_synonym ser = "(serializer, error, unit) cmd"

definition SLOT_SIZE :: nat where
  "SLOT_SIZE = 32"

definition MARK_DYNAMIC_NAME :: string where
  "MARK_DYNAMIC_NAME = '':$&_DYNAMIC''"

definition DynamicMarker :: sval where
  "DynamicMarker = SUnitStruct MARK_DYNAMIC_NAME"

definition write_slot :: "bytes \<Rightarrow> ser" where
  "write_slot bs s = (case writer s of
     Slots ws \<Rightarrow> (Ok (), s\<lparr>writer := Slots (ws @ [bs])\<rparr>)
   | NoWriter \<Rightarrow> (Panic, s))"

section \<open>Helpers of the serializer\<close>

definition write_left_aligned_slice :: "bytes \<Rightarrow> ser" where
  "write_left_aligned_slice v =
     (if length v \<le> SLOT_SIZE then write_slot (v @ replicate (SLOT_SIZE - length v) 0) else crash)"

definition write_right_aligned :: "bytes \<Rightarrow> ser" where
  "write_right_aligned v =
     (if length v \<le> SLOT_SIZE then write_slot (replicate (SLOT_SIZE - length v) 0 @ v) else crash)"

definition write_signed :: "bool \<Rightarrow> bytes \<Rightarrow> ser" where
  "write_signed negative v =
     (if length v \<le> SLOT_SIZE
      then write_slot (replicate (SLOT_SIZE - length v) (if negative then 0xff else 0x00) @ v)
      else crash)"

text \<open>\<open>usize::to_be_bytes\<close> has as many bytes as the target's \<open>usize\<close>.\<close>

definition usize_be_bytes :: "build \<Rightarrow> nat \<Rightarrow> bytes" where
  "usize_be_bytes b n = be_bytes (usize_bits b div 8) n"

definition compute_size :: "ser \<Rightarrow> (error, nat \<times> bool \<times> bool) res" where
  "compute_size value =
     (case value \<lparr>writer = NoWriter, pass = HeadSize 0 False False\<rparr> of
        (Ok _, s) \<Rightarrow> (case pass s of HeadSize sz dyn fake \<Rightarrow> Ok (sz, dyn, fake) | _ \<Rightarrow> Panic)
      | (Err e, _) \<Rightarrow> Err e
      | (Panic, _) \<Rightarrow> Panic)"

definition get_tail_size :: "ser \<Rightarrow> (error, nat) res" where
  "get_tail_size value =
     (case value \<lparr>writer = NoWriter, pass = TailSize 0\<rparr> of
        (Ok _, s) \<Rightarrow> (case pass s of TailSize n \<Rightarrow> Ok n | _ \<Rightarrow> Panic)
      | (Err e, _) \<Rightarrow> Err e
      | (Panic, _) \<Rightarrow> Panic)"

text \<open>The private method \<open>serialize\<close>: run the value with another pass on the same writer.\<close>

definition serialize_with :: "ser \<Rightarrow> pass \<Rightarrow> ser" where
  "serialize_with value p s =
     (case value \<lparr>writer = writer s, pass = p\<rparr> of (r, s') \<Rightarrow> (r, s\<lparr>writer := writer s'\<rparr>))"

definition set_pass :: "pass \<Rightarrow> ser" where
  "set_pass p s = (Ok (), s\<lparr>pass := p\<rparr>)"

definition serialize_tuple_element :: "build \<Rightarrow> ser \<Rightarrow> nat \<Rightarrow> ser" where
  "serialize_tuple_element b value offset_reduction s = (case pass s of
     HeadSize sz is_dynamic fk \<Rightarrow>
       bindS (lift_res (compute_size value)) (\<lambda>(element_size, is_dyn, is_fake_dynamic).
       bindS (lift_res (usize_add b sz
                (if is_dyn \<and> \<not> is_fake_dynamic then SLOT_SIZE else element_size))) (\<lambda>sz'.
       set_pass (HeadSize sz' (is_dynamic \<or> is_dyn \<or> is_fake_dynamic) fk))) s
   | Head offset \<Rightarrow>
       bindS (lift_res (compute_size value)) (\<lambda>(field_head_size, is_dyn, is_fake_dynamic).
       if is_dyn \<and> \<not> is_fake_dynamic then
         bindS (lift_res (usize_sub b offset offset_reduction)) (\<lambda>o1.
         bindS (write_right_aligned (usize_be_bytes b o1)) (\<lambda>_.
         bindS (lift_res (usize_add b offset field_head_size)) (\<lambda>o2.
         bindS (lift_res (get_tail_size value)) (\<lambda>tail_size.
         bindS (lift_res (usize_add b o2 tail_size)) (\<lambda>o3.
         set_pass (Head o3))))))
       else serialize_with value (Head (usize_max b))) s
   | TailSize sz \<Rightarrow>
       bindS (lift_res (compute_size value)) (\<lambda>(field_head_size, is_dyn, is_fake_dynamic).
       bindS (lift_res (get_tail_size value)) (\<lambda>field_tail_size.
       bindS (lift_res (usize_add b sz
                (if is_dyn \<and> \<not> is_fake_dynamic then field_head_size else 0))) (\<lambda>n.
       bindS (lift_res (usize_add b n field_tail_size)) (\<lambda>n'.
       set_pass (TailSize n'))))) s
   | Tail \<Rightarrow>
       bindS (lift_res (compute_size value)) (\<lambda>(field_head_size, is_dyn, is_fake_dynamic).
       if is_dyn \<and> \<not> is_fake_dynamic then
         bindS (serialize_with value (Head field_head_size)) (\<lambda>_.
         serialize_with value Tail)
       else ret ()) s)"

section \<open>The \<open>serde::Serializer\<close> methods\<close>

text \<open>
  The body every fixed-width integer method shares: one slot in the head, nothing in the tail.
\<close>

definition serialize_slot :: "build \<Rightarrow> ser \<Rightarrow> ser" where
  "serialize_slot b wr s = (case pass s of
     HeadSize sz d f \<Rightarrow>
       bindS (lift_res (usize_add b sz SLOT_SIZE)) (\<lambda>n. set_pass (HeadSize n d f)) s
   | Head _ \<Rightarrow> wr s
   | TailSize _ \<Rightarrow> ret () s
   | Tail \<Rightarrow> ret () s)"

definition serialize_i8 :: "build \<Rightarrow> u8 \<Rightarrow> ser" where
  "serialize_i8 b v = serialize_slot b (write_signed (sint v < 0) (be_bytes 1 (unat v)))"

definition serialize_i16 :: "build \<Rightarrow> u16 \<Rightarrow> ser" where
  "serialize_i16 b v = serialize_slot b (write_signed (sint v < 0) (be_bytes 2 (unat v)))"

definition serialize_i32 :: "build \<Rightarrow> u32 \<Rightarrow> ser" where
  "serialize_i32 b v = serialize_slot b (write_signed (sint v < 0) (be_bytes 4 (unat v)))"

definition serialize_i64 :: "build \<Rightarrow> u64 \<Rightarrow> ser" where
  "serialize_i64 b v = serialize_slot b (write_signed (sint v < 0) (be_bytes 8 (unat v)))"

definition serialize_i128 :: "build \<Rightarrow> u128 \<Rightarrow> ser" where
  "serialize_i128 b v = serialize_slot b (write_right_aligned (be_bytes 16 (unat v)))"

definition serialize_u8 :: "build \<Rightarrow> u8 \<Rightarrow> ser" where
  "serialize_u8 b v = serialize_slot b (write_right_aligned (be_bytes 1 (unat v)))"

definition serialize_u16 :: "build \<Rightarrow> u16 \<Rightarrow> ser" where
  "serialize_u16 b v = serialize_slot b (write_right_aligned (be_bytes 2 (unat v)))"

definition serialize_u32 :: "build \<Rightarrow> u32 \<Rightarrow> ser" where
  "serialize_u32 b v = serialize_slot b (write_right_aligned (be_bytes 4 (unat v)))"

definition serialize_u64 :: "build \<Rightarrow> u64 \<Rightarrow> ser" where
  "serialize_u64 b v = serialize_slot b (write_right_aligned (be_bytes 8 (unat v)))"

definition serialize_u128 :: "build \<Rightarrow> u128 \<Rightarrow> ser" where
  "serialize_u128 b v = serialize_slot b (write_right_aligned (be_bytes 16 (unat v)))"

definition serialize_bool :: "build \<Rightarrow> bool \<Rightarrow> ser" where
  "serialize_bool b v = serialize_u8 b (if v then 1 else 0)"

text \<open>Values that have no counterpart in Solidity, or are not supported yet.\<close>

definition serialize_f32 :: "u32 \<Rightarrow> ser" where
  [simp]: "serialize_f32 v = fail (TypeNotRepresentable ''f32'')"

definition serialize_f64 :: "u64 \<Rightarrow> ser" where
  [simp]: "serialize_f64 v = fail (TypeNotRepresentable ''f64'')"

definition serialize_char :: "nat \<Rightarrow> ser" where
  [simp]: "serialize_char v = fail (TypeNotYetSupported ''char'')"

text \<open>
  Writing a byte slice: full 32-byte chunks as they are (\<open>chunks_exact\<close>), the remainder
  padded on the right.
\<close>

function write_chunks :: "bytes \<Rightarrow> ser" where
  "write_chunks v =
     (if SLOT_SIZE \<le> length v
      then bindS (write_slot (take SLOT_SIZE v)) (\<lambda>_. write_chunks (drop SLOT_SIZE v))
      else if v \<noteq> [] then write_left_aligned_slice v
      else ret ())"
  by pat_completeness auto
termination
  by (relation "measure length") (auto simp: SLOT_SIZE_def)

declare write_chunks.simps [simp del]

definition rem_size :: "bytes \<Rightarrow> nat" where
  "rem_size v = (if length v mod SLOT_SIZE = 0 then 0 else SLOT_SIZE)"

definition serialize_str :: "build \<Rightarrow> bytes \<Rightarrow> ser" where
  "serialize_str b v s = (case pass s of
     HeadSize sz d f \<Rightarrow> set_pass (HeadSize sz True f) s
   | Head _ \<Rightarrow> ret () s
   | TailSize sz \<Rightarrow>
       bindS (lift_res (usize_add b SLOT_SIZE (length v - length v mod SLOT_SIZE))) (\<lambda>n.
       bindS (lift_res (usize_add b n (rem_size v))) (\<lambda>tail_size.
       bindS (lift_res (usize_add b sz tail_size)) (\<lambda>sz'. set_pass (TailSize sz')))) s
   | Tail \<Rightarrow>
       bindS (write_right_aligned (usize_be_bytes b (length v))) (\<lambda>_. write_chunks v) s)"

definition serialize_bytes :: "build \<Rightarrow> bytes \<Rightarrow> ser" where
  "serialize_bytes b v s = (case pass s of
     HeadSize sz d f \<Rightarrow>
       bindS (lift_res (usize_add b (length v - length v mod SLOT_SIZE) (rem_size v))) (\<lambda>n.
       bindS (lift_res (usize_add b sz n)) (\<lambda>sz'. set_pass (HeadSize sz' d f))) s
   | Head _ \<Rightarrow> write_chunks v s
   | TailSize _ \<Rightarrow> ret () s
   | Tail \<Rightarrow> ret () s)"

definition serialize_unit_struct :: "string \<Rightarrow> ser" where
  "serialize_unit_struct name s =
     (if name = MARK_DYNAMIC_NAME then
        (case pass s of
           HeadSize sz d f \<Rightarrow> set_pass (HeadSize sz d True) s
         | Head _ \<Rightarrow> ret () s
         | TailSize _ \<Rightarrow> ret () s
         | Tail \<Rightarrow> ret () s)
      else fail (TypeNotRepresentable ''unit struct'') s)"

definition serialize_seq :: "build \<Rightarrow> nat option \<Rightarrow> ser" where
  "serialize_seq b len s = (case pass s of
     HeadSize sz d f \<Rightarrow>
       bindS (lift_res (usize_add b sz SLOT_SIZE)) (\<lambda>n. set_pass (HeadSize n True f)) s
   | Head _ \<Rightarrow>
       bindS (lift_res (unwrap len)) (\<lambda>n. write_right_aligned (usize_be_bytes b n)) s
   | TailSize _ \<Rightarrow> ret () s
   | Tail \<Rightarrow> ret () s)"

text \<open>
  One \<open>serialize_element\<close>/\<open>serialize_field\<close> call per component; \<open>end\<close> does nothing.  The
  offset reduction is \<open>SLOT_SIZE\<close> for sequences and 0 for tuples and structs.
\<close>

primrec serialize_elements :: "build \<Rightarrow> nat \<Rightarrow> ser list \<Rightarrow> ser" where
  "serialize_elements b offset_reduction [] = ret ()"
| "serialize_elements b offset_reduction (v # vs) =
     bindS (serialize_tuple_element b v offset_reduction)
       (\<lambda>_. serialize_elements b offset_reduction vs)"

text \<open>The fields of a struct, each given with its name, which is not written.\<close>

definition serialize_fields :: "build \<Rightarrow> (string \<times> ser) list \<Rightarrow> ser" where
  [simp]: "serialize_fields b fs = serialize_elements b 0 (map snd fs)"

lemma bindS_fail [simp]: "bindS (fail e) f = fail e"
  by (rule ext) (simp add: bindS_def)

text \<open>
  Enum variants with fields, and maps: the opening call reports the error, and the \<open>?\<close> of the value's
  \<open>Serialize\<close> implementation returns it before a field is passed on.  The methods that would take the
  fields are \<open>unreachable!\<close>.
\<close>

definition serialize_tuple_variant :: "string \<Rightarrow> nat \<Rightarrow> string \<Rightarrow> nat \<Rightarrow> ser" where
  [simp]: "serialize_tuple_variant name i variant len = fail (TypeNotRepresentable ''struct variant'')"

definition TupleVariant_serialize_field :: "ser \<Rightarrow> ser" where
  "TupleVariant_serialize_field v = crash"

definition TupleVariant_end :: ser where
  "TupleVariant_end = crash"

primrec TupleVariant_fields :: "ser list \<Rightarrow> ser" where
  "TupleVariant_fields [] = TupleVariant_end"
| "TupleVariant_fields (v # vs) = bindS (TupleVariant_serialize_field v) (\<lambda>_. TupleVariant_fields vs)"

definition serialize_map :: "nat option \<Rightarrow> ser" where
  [simp]: "serialize_map len = fail (TypeNotRepresentable ''map'')"

definition Map_serialize_key :: "ser \<Rightarrow> ser" where
  "Map_serialize_key k = crash"

definition Map_serialize_value :: "ser \<Rightarrow> ser" where
  "Map_serialize_value v = crash"

definition Map_end :: ser where
  "Map_end = crash"

primrec Map_entries :: "(ser \<times> ser) list \<Rightarrow> ser" where
  "Map_entries [] = Map_end"
| "Map_entries (kv # kvs) =
     bindS (Map_serialize_key (fst kv)) (\<lambda>_. bindS (Map_serialize_value (snd kv)) (\<lambda>_. Map_entries kvs))"

definition serialize_struct_variant :: "string \<Rightarrow> nat \<Rightarrow> string \<Rightarrow> nat \<Rightarrow> ser" where
  [simp]: "serialize_struct_variant name i variant len = fail (TypeNotRepresentable ''struct variant'')"

definition StructVariant_serialize_field :: "string \<Rightarrow> ser \<Rightarrow> ser" where
  "StructVariant_serialize_field key v = crash"

definition StructVariant_end :: ser where
  "StructVariant_end = crash"

primrec StructVariant_fields :: "(string \<times> ser) list \<Rightarrow> ser" where
  "StructVariant_fields [] = StructVariant_end"
| "StructVariant_fields (f # fs) =
     bindS (StructVariant_serialize_field (fst f) (snd f)) (\<lambda>_. StructVariant_fields fs)"

primrec serialize :: "build \<Rightarrow> sval \<Rightarrow> ser" where
  "serialize b (SBool v) = serialize_bool b v"
| "serialize b (SI8 v) = serialize_i8 b v"
| "serialize b (SI16 v) = serialize_i16 b v"
| "serialize b (SI32 v) = serialize_i32 b v"
| "serialize b (SI64 v) = serialize_i64 b v"
| "serialize b (SI128 v) = serialize_i128 b v"
| "serialize b (SU8 v) = serialize_u8 b v"
| "serialize b (SU16 v) = serialize_u16 b v"
| "serialize b (SU32 v) = serialize_u32 b v"
| "serialize b (SU64 v) = serialize_u64 b v"
| "serialize b (SU128 v) = serialize_u128 b v"
| "serialize b (SF32 v) = serialize_f32 v"
| "serialize b (SF64 v) = serialize_f64 v"
| "serialize b (SChar v) = serialize_char v"
| "serialize b (SStr v) = serialize_str b v"
| "serialize b (SBytes v) = serialize_bytes b v"
| "serialize b SNone = fail (TypeNotRepresentable ''none'')"
| "serialize b (SSome v) = fail (TypeNotRepresentable ''some'')"
| "serialize b SUnit = fail (TypeNotRepresentable ''unit'')"
| "serialize b (SUnitStruct name) = serialize_unit_struct name"
| "serialize b (SUnitVariant name i variant) =
     fail (TypeNotRepresentable ''unit variant (enum)'')"
| "serialize b (SNewtypeStruct name v) = serialize_tuple_element b (serialize b v) 0"
| "serialize b (SNewtypeVariant name i variant v) =
     fail (TypeNotRepresentable ''newtype variant (enum)'')"
| "serialize b (SSeq len vs) =
     bindS (serialize_seq b len) (\<lambda>_. serialize_elements b SLOT_SIZE (map (serialize b) vs))"
| "serialize b (STuple vs) = serialize_elements b 0 (map (serialize b) vs)"
| "serialize b (STupleStruct name vs) = serialize_elements b 0 (map (serialize b) vs)"
| "serialize b (STupleVariant name i variant vs) =
     bindS (serialize_tuple_variant name i variant (length vs)) (\<lambda>_. TupleVariant_fields (map (serialize b) vs))"
| "serialize b (SMap len kvs) =
     bindS (serialize_map len) (\<lambda>_. Map_entries (map (map_prod (serialize b) (serialize b)) kvs))"
| "serialize b (SStruct name fs) =
     serialize_fields b (map (map_prod id (serialize b)) fs)"
| "serialize b (SStructVariant name i variant fs) =
     bindS (serialize_struct_variant name i variant (length fs))
       (\<lambda>_. StructVariant_fields (map (map_prod id (serialize b)) fs))"

section \<open>Entry points\<close>

text \<open>
  After the size pass: the offset of the outer struct, the head pass and, for a dynamic
  value, the tail pass, on one serializer.
\<close>

definition write_passes :: "build \<Rightarrow> sval \<Rightarrow> bool \<Rightarrow> bool \<Rightarrow> ser" where
  "write_passes b v include_outer_struct is_dynamic =
     bindS (if is_dynamic \<and> include_outer_struct
            then write_right_aligned (usize_be_bytes b SLOT_SIZE) else ret ()) (\<lambda>_.
     bindS (serialize b v) (\<lambda>_.
     if is_dynamic then bindS (set_pass Tail) (\<lambda>_. serialize b v) else ret ()))"

definition to_writer_internal :: "build \<Rightarrow> sval \<Rightarrow> bool \<Rightarrow> (writer, error, unit) cmd" where
  "to_writer_internal b v include_outer_struct w =
     (case compute_size (serialize b v) of
        Err e \<Rightarrow> (Err e, w)
      | Panic \<Rightarrow> (Panic, w)
      | Ok (head_size, is_dynamic, _) \<Rightarrow>
          (case write_passes b v include_outer_struct is_dynamic
                  \<lparr>writer = w, pass = Head head_size\<rparr> of
             (r, s) \<Rightarrow> (r, writer s)))"

definition to_writer :: "build \<Rightarrow> sval \<Rightarrow> (writer, error, unit) cmd" where
  "to_writer b v = to_writer_internal b v True"

definition to_fnargs_writer :: "build \<Rightarrow> sval \<Rightarrow> (writer, error, unit) cmd" where
  "to_fnargs_writer b v = to_writer_internal b v False"

end
