(* ===== verification/Abi_Spec.thy ===== *)
theory Abi_Spec
  imports Abi_Ser
begin

text \<open>
  The contract of the serializer: the head/tail encoding of the Solidity ABI specification,
  written the way the specification states it, and the proof that the four-pass streaming
  serializer of \<open>Abi_Ser\<close> writes exactly that encoding.  The interface between a value and
  the serializer that drives it is the locale \<open>abi_value\<close>: what one \<open>Serialize\<close> implementation
  promises in each pass.  It is interpreted by every elementary method and closed under
  tuples, sequences and dynamic bytes.
\<close>

section \<open>The ABI specification\<close>

text \<open>
  \<open>AUint\<close>/\<open>AInt\<close> are the integer types, \<open>AStatic\<close> left-aligned fixed bytes, \<open>ABytes\<close> the
  dynamic \<open>bytes\<close>/\<open>string\<close>, \<open>ATuple\<close> structs and tuples, \<open>AArray\<close> dynamic arrays.
\<close>

datatype abi =
    AUint nat
  | AInt int
  | AStatic bytes
  | ABytes bytes
  | ATuple "abi list"
  | AArray "abi list"

definition uint256 :: "nat \<Rightarrow> bytes" where
  "uint256 n = be_bytes 32 n"

definition pad32 :: "bytes \<Rightarrow> bytes" where
  "pad32 bs = bs @ replicate ((32 - length bs mod 32) mod 32) 0"

primrec abi_dynamic :: "abi \<Rightarrow> bool" where
  "abi_dynamic (AUint n) = False"
| "abi_dynamic (AInt i) = False"
| "abi_dynamic (AStatic bs) = False"
| "abi_dynamic (ABytes bs) = True"
| "abi_dynamic (ATuple xs) = list_ex id (map abi_dynamic xs)"
| "abi_dynamic (AArray xs) = True"

text \<open>
  The components of a tuple come as (is it dynamic, its encoding).  The head of a static
  component is its encoding; the head of a dynamic one is the distance from the start of the
  tuple to its tail.  All heads come first, then the tails.
\<close>

definition tail_of :: "bool \<times> bytes \<Rightarrow> bytes" where
  "tail_of = (\<lambda>(d, e). if d then e else [])"

definition head_len :: "bool \<times> bytes \<Rightarrow> nat" where
  "head_len = (\<lambda>(d, e). if d then 32 else length e)"

definition enc_heads :: "(bool \<times> bytes) list \<Rightarrow> bytes" where
  "enc_heads es = concat (map (\<lambda>i.
     if fst (es ! i)
     then uint256 (sum_list (map head_len es) + length (concat (map tail_of (take i es))))
     else snd (es ! i)) [0..<length es])"

definition enc_tuple :: "(bool \<times> bytes) list \<Rightarrow> bytes" where
  "enc_tuple es = enc_heads es @ concat (map tail_of es)"

primrec abi_enc :: "abi \<Rightarrow> bytes" where
  "abi_enc (AUint n) = uint256 n"
| "abi_enc (AInt i) = uint256 (nat (i mod 2 ^ 256))"
| "abi_enc (AStatic bs) = pad32 bs"
| "abi_enc (ABytes bs) = uint256 (length bs) @ pad32 bs"
| "abi_enc (ATuple xs) = enc_tuple (map (\<lambda>x. (abi_dynamic x, abi_enc x)) xs)"
| "abi_enc (AArray xs) =
     uint256 (length xs) @ enc_tuple (map (\<lambda>x. (abi_dynamic x, abi_enc x)) xs)"

text \<open>\<open>abi.encode(x)\<close> encodes its argument list as a tuple.\<close>

definition abi_encode :: "abi \<Rightarrow> bytes" where
  "abi_encode a = abi_enc (ATuple [a])"

text \<open>
  The ABI value a \<open>serde\<close> value stands for.  The tuple \<open>as_bytes\<close> builds is a dynamic
  \<open>bytes\<close>; the unsupported kinds, a sequence of unknown or wrong length and a
  \<open>DynamicMarker\<close> anywhere else have none, and neither has a negative \<open>i128\<close>, which the
  serializer does not sign-extend.
\<close>

definition as_bytes_of :: "sval list \<Rightarrow> bytes option" where
  "as_bytes_of vs = (case vs of
     [SUnitStruct name, SU64 n, SBytes bs] \<Rightarrow>
       if name = MARK_DYNAMIC_NAME \<and> unat n = length bs then Some bs else None
   | _ \<Rightarrow> None)"

primrec abi_of :: "sval \<Rightarrow> abi option" where
  "abi_of (SBool v) = Some (AUint (if v then 1 else 0))"
| "abi_of (SI8 v) = Some (AInt (sint v))"
| "abi_of (SI16 v) = Some (AInt (sint v))"
| "abi_of (SI32 v) = Some (AInt (sint v))"
| "abi_of (SI64 v) = Some (AInt (sint v))"
| "abi_of (SI128 v) = (if 0 \<le> sint v then Some (AInt (sint v)) else None)"
| "abi_of (SU8 v) = Some (AUint (unat v))"
| "abi_of (SU16 v) = Some (AUint (unat v))"
| "abi_of (SU32 v) = Some (AUint (unat v))"
| "abi_of (SU64 v) = Some (AUint (unat v))"
| "abi_of (SU128 v) = Some (AUint (unat v))"
| "abi_of (SF32 v) = None"
| "abi_of (SF64 v) = None"
| "abi_of (SChar v) = None"
| "abi_of (SStr v) = Some (ABytes v)"
| "abi_of (SBytes v) = Some (AStatic v)"
| "abi_of SNone = None"
| "abi_of (SSome v) = None"
| "abi_of SUnit = None"
| "abi_of (SUnitStruct name) = None"
| "abi_of (SUnitVariant name i variant) = None"
| "abi_of (SNewtypeStruct name v) = map_option (\<lambda>a. ATuple [a]) (abi_of v)"
| "abi_of (SNewtypeVariant name i variant v) = None"
| "abi_of (SSeq len vs) =
     (if len = Some (length vs) then map_option AArray (those (map abi_of vs)) else None)"
| "abi_of (STuple vs) = (case as_bytes_of vs of
     Some bs \<Rightarrow> Some (ABytes bs)
   | None \<Rightarrow> map_option ATuple (those (map abi_of vs)))"
| "abi_of (STupleStruct name vs) = map_option ATuple (those (map abi_of vs))"
| "abi_of (STupleVariant name i variant vs) = None"
| "abi_of (SMap len kvs) = None"
| "abi_of (SStruct name fs) =
     map_option ATuple (those (map snd (map (map_prod id abi_of) fs)))"
| "abi_of (SStructVariant name i variant fs) = None"

section \<open>Slots\<close>

function slots_of :: "bytes \<Rightarrow> bytes list" where
  "slots_of bs = (if bs = [] then [] else take 32 bs # slots_of (drop 32 bs))"
  by pat_completeness auto
termination
  by (relation "measure length") auto

declare slots_of.simps [simp del]

lemma dvd32_nonempty: "32 dvd length xs \<Longrightarrow> xs \<noteq> [] \<Longrightarrow> 32 \<le> length xs"
  by (rule dvd_imp_le) auto

lemma slots_of_Nil [simp]: "slots_of [] = []"
  by (subst slots_of.simps) simp

lemma slots_of_one: "length bs = 32 \<Longrightarrow> slots_of bs = [bs]"
  by (subst slots_of.simps) auto

lemma concat_slots_of [simp]: "concat (slots_of bs) = bs"
  by (induction bs rule: slots_of.induct) (subst slots_of.simps, simp)

lemma slots_of_append:
  "32 dvd length xs \<Longrightarrow> slots_of (xs @ ys) = slots_of xs @ slots_of ys"
proof (induction xs rule: slots_of.induct)
  case (1 xs)
  show ?case
  proof (cases "xs = []")
    case False
    with "1.prems" have "32 \<le> length xs" by (intro dvd32_nonempty)
    moreover from "1.prems" this have "32 dvd length (drop 32 xs)" by simp
    ultimately show ?thesis
      using "1.IH" False by (simp add: slots_of.simps [of xs] slots_of.simps [of "xs @ ys"])
  qed simp
qed

lemma slots_of_32: "32 dvd length bs \<Longrightarrow> s \<in> set (slots_of bs) \<Longrightarrow> length s = 32"
proof (induction bs rule: slots_of.induct)
  case (1 bs)
  then have ne: "bs \<noteq> []" by (auto simp: slots_of.simps)
  with "1.prems"(1) have "32 \<le> length bs" by (intro dvd32_nonempty)
  moreover from "1.prems"(1) this have "32 dvd length (drop 32 bs)" by simp
  ultimately show ?case
    using 1 ne by (auto simp: slots_of.simps [of bs])
qed

lemma length_slots_of: "32 dvd length bs \<Longrightarrow> length (slots_of bs) = length bs div 32"
proof (induction bs rule: slots_of.induct)
  case (1 bs)
  show ?case
  proof (cases "bs = []")
    case False
    with "1.prems" have "32 \<le> length bs" by (intro dvd32_nonempty)
    moreover from "1.prems" this have "32 dvd length (drop 32 bs)" by simp
    ultimately show ?thesis using "1.IH" False by (simp add: slots_of.simps [of bs] div_if)
  qed simp
qed

lemma length_uint256 [simp]: "length (uint256 n) = 32"
  by (simp add: uint256_def)

lemma slots_of_uint256 [simp]: "slots_of (uint256 n) = [uint256 n]"
  by (simp add: slots_of_one)

lemma length_pad32:
  "length (pad32 v) = length v - length v mod SLOT_SIZE + rem_size v"
proof (cases "length v mod 32 = 0")
  case True
  then show ?thesis by (simp add: pad32_def rem_size_def SLOT_SIZE_def)
next
  case False
  moreover have "length v mod 32 < 32" "length v mod 32 \<le> length v" by simp_all
  ultimately show ?thesis by (simp add: pad32_def rem_size_def SLOT_SIZE_def)
qed

lemma dvd_length_pad32 [simp]: "32 dvd length (pad32 bs)"
proof -
  have "32 dvd (length bs - length bs mod 32) + rem_size bs"
    by (rule dvd_add [OF dvd_minus_mod]) (simp add: rem_size_def SLOT_SIZE_def)
  then show ?thesis by (simp only: length_pad32 SLOT_SIZE_def)
qed

lemma pad32_full: "length bs = 32 \<Longrightarrow> pad32 bs = bs"
  by (simp add: pad32_def)

lemma pad32_take_drop:
  assumes "32 \<le> length v"
  shows "pad32 v = take 32 v @ pad32 (drop 32 v)"
proof -
  have "(length v - 32) mod 32 = length v mod 32"
    using assms by (simp add: le_mod_geq)
  then show ?thesis by (simp add: pad32_def flip: append_assoc)
qed

section \<open>What the writing helpers do to a recording writer\<close>

lemma write_slot_Slots [simp]:
  "write_slot bs \<lparr>writer = Slots ws, pass = p\<rparr> = (Ok (), \<lparr>writer = Slots (ws @ [bs]), pass = p\<rparr>)"
  by (simp add: write_slot_def)

lemma set_pass_apply [simp]: "set_pass p \<lparr>writer = w, pass = q\<rparr> = (Ok (), \<lparr>writer = w, pass = p\<rparr>)"
  by (simp add: set_pass_def)

lemma write_right_aligned_be:
  assumes "k \<le> 32" "x < 256 ^ k"
  shows "write_right_aligned (be_bytes k x) = write_slot (uint256 x)"
proof -
  have "replicate (32 - k) 0 @ be_bytes k x = be_bytes 32 x"
    using assms be_bytes_zero_extend [of x k "32 - k"] by simp
  then show ?thesis
    using assms by (simp add: write_right_aligned_def SLOT_SIZE_def uint256_def)
qed

lemma write_usize:
  assumes "x < usize_limit b"
  shows "write_right_aligned (usize_be_bytes b x) = write_slot (uint256 x)"
  using assms usize_bits_cases [of b]
  by (auto simp: usize_be_bytes_def intro!: write_right_aligned_be)

lemma write_chunks_Slots:
  "write_chunks v \<lparr>writer = Slots ws, pass = p\<rparr>
     = (Ok (), \<lparr>writer = Slots (ws @ slots_of (pad32 v)), pass = p\<rparr>)"
proof (induction v arbitrary: ws rule: write_chunks.induct)
  case (1 v)
  consider (big) "32 \<le> length v" | (rem) "length v < 32" "v \<noteq> []" | (nil) "v = []"
    by fastforce
  then show ?case
  proof cases
    case big
    have "slots_of (pad32 v) = take 32 v # slots_of (pad32 (drop 32 v))"
      using big by (simp add: pad32_take_drop slots_of_append slots_of_one)
    then show ?thesis
      using big "1.IH" by (subst write_chunks.simps) (simp add: SLOT_SIZE_def bindS_def)
  next
    case rem
    then have "pad32 v = v @ replicate (32 - length v) 0" by (simp add: pad32_def)
    with rem show ?thesis
      by (subst write_chunks.simps)
        (simp add: SLOT_SIZE_def write_left_aligned_slice_def slots_of_one)
  next
    case nil
    then show ?thesis by (subst write_chunks.simps) (simp add: SLOT_SIZE_def pad32_def)
  qed
qed

section \<open>The contract of a \<open>Serialize\<close> implementation\<close>

text \<open>
  \<open>f\<close> is the \<open>serialize\<close> method of a value, \<open>d\<close> says whether the value is dynamic, \<open>hp\<close> are
  the bytes it writes in the head pass and \<open>tp\<close> those of the tail pass.  A static value has
  no tail and ignores the offset; a dynamic one is run with the offset of its own tail.
\<close>

locale abi_value =
  fixes b :: build and f :: ser and d :: bool and hp :: bytes and tp :: bytes
  assumes fits: "length hp + length tp < usize_limit b"
    and aligned_head: "32 dvd length hp"
    and aligned_tail: "32 dvd length tp"
    and static_tail: "\<not> d \<Longrightarrow> tp = []"
    and head_size: "sz + length hp < usize_limit b \<Longrightarrow>
      f \<lparr>writer = w, pass = HeadSize sz dd ff\<rparr>
        = (Ok (), \<lparr>writer = w, pass = HeadSize (sz + length hp) (dd \<or> d) ff\<rparr>)"
    and tail_size: "n + length tp < usize_limit b \<Longrightarrow>
      f \<lparr>writer = w, pass = TailSize n\<rparr> = (Ok (), \<lparr>writer = w, pass = TailSize (n + length tp)\<rparr>)"
    and head: "off < usize_limit b \<Longrightarrow> (d \<Longrightarrow> off = length hp) \<Longrightarrow>
      \<exists>p. f \<lparr>writer = Slots ws, pass = Head off\<rparr>
        = (Ok (), \<lparr>writer = Slots (ws @ slots_of hp), pass = p\<rparr>)"
    and tail: "f \<lparr>writer = Slots ws, pass = Tail\<rparr>
        = (Ok (), \<lparr>writer = Slots (ws @ slots_of tp), pass = Tail\<rparr>)"
begin

lemma compute_size_eq: "compute_size f = Ok (length hp, d, False)"
  using head_size [of 0 NoWriter False False] fits by (simp add: compute_size_def)

lemma get_tail_size_eq: "get_tail_size f = Ok (length tp)"
  using tail_size [of 0 NoWriter] fits by (simp add: get_tail_size_def)

lemma element_head_size:
  assumes "sz + (if d then 32 else length hp) < usize_limit b"
  shows "serialize_tuple_element b f red \<lparr>writer = w, pass = HeadSize sz dd ff\<rparr>
    = (Ok (), \<lparr>writer = w, pass = HeadSize (sz + (if d then 32 else length hp)) (dd \<or> d) ff\<rparr>)"
  using assms
  by (cases d) (simp_all add: serialize_tuple_element_def compute_size_eq SLOT_SIZE_def usize_simps)

lemma element_tail_size:
  assumes "n + (if d then length hp + length tp else 0) < usize_limit b"
  shows "serialize_tuple_element b f red \<lparr>writer = w, pass = TailSize n\<rparr>
    = (Ok (), \<lparr>writer = w, pass = TailSize (n + (if d then length hp + length tp else 0))\<rparr>)"
  using assms static_tail
  by (auto simp: serialize_tuple_element_def compute_size_eq get_tail_size_eq usize_simps add.assoc)

lemma element_head:
  assumes "red \<le> off" "off + (if d then length hp + length tp else 0) < usize_limit b"
  shows "serialize_tuple_element b f red \<lparr>writer = Slots ws, pass = Head off\<rparr>
    = (Ok (), \<lparr>writer = Slots (ws @ slots_of (if d then uint256 (off - red) else hp)),
                pass = Head (off + (if d then length hp + length tp else 0))\<rparr>)"
proof (cases d)
  case True
  with assms show ?thesis
    by (simp add: serialize_tuple_element_def compute_size_eq get_tail_size_eq usize_simps
        write_usize bindS_def add.assoc)
next
  case False
  have "usize_max b < usize_limit b" by (simp add: usize_max_def)
  with False head [of "usize_max b" ws] show ?thesis
    by (auto simp: serialize_tuple_element_def compute_size_eq serialize_with_def)
qed

lemma element_tail:
  "serialize_tuple_element b f red \<lparr>writer = Slots ws, pass = Tail\<rparr>
    = (Ok (), \<lparr>writer = Slots (ws @ slots_of (if d then hp @ tp else [])), pass = Tail\<rparr>)"
proof (cases d)
  case True
  have "length hp < usize_limit b" using fits by simp
  with True head [of "length hp" ws] tail show ?thesis
    by (auto simp: serialize_tuple_element_def compute_size_eq serialize_with_def bindS_def
        slots_of_append aligned_head)
next
  case False
  then show ?thesis by (simp add: serialize_tuple_element_def compute_size_eq)
qed

end

section \<open>Elementary values\<close>

lemma abi_value_slot:
  assumes wr: "\<And>ws p. wr \<lparr>writer = Slots ws, pass = p\<rparr>
      = (Ok (), \<lparr>writer = Slots (ws @ [bs]), pass = p\<rparr>)"
    and len: "length bs = 32"
  shows "abi_value b (serialize_slot b wr) False bs []"
  using usize_limit_ge [of b]
  by unfold_locales
    (simp_all add: serialize_slot_def len wr slots_of_one SLOT_SIZE_def usize_simps)

text \<open>
  A signed integer of \<open>k\<close> bytes, filled with copies of its sign, is the 32-byte two's
  complement encoding of the same number.
\<close>

lemma sign_extend_be:
  fixes v :: "'a::len word"
  assumes len: "LENGTH('a) = 8 * k" and k: "k \<le> 32"
  shows "replicate (32 - k) (if sint v < 0 then 0xff else 0x00) @ be_bytes k (unat v)
    = uint256 (nat (sint v mod 2 ^ 256))"
proof -
  have v: "unat v < 256 ^ k"
    using unat_bound [of v] by (simp add: len power_mult)
  have le: "(256::nat) ^ k \<le> 256 ^ 32" using k by (intro power_increasing) auto
  have p: "(2::int) ^ LENGTH('a) = 256 ^ k" by (simp add: len power_mult)
  have u: "sint v = (if sint v < 0 then int (unat v) - 256 ^ k else int (unat v))"
    using sint_uint_cases [of v, unfolded p] by (auto split: if_splits)
  have w: "(2::int) ^ 256 = 256 ^ 32" by simp
  show ?thesis
  proof (cases "sint v < 0")
    case True
    have split: "(256::nat) ^ (32 - k) * 256 ^ k = 256 ^ 32" using k by (simp flip: power_add)
    have i: "int (unat v + 256 ^ 32 - 256 ^ k) = int (unat v) + 256 ^ 32 - 256 ^ k"
      using le by (subst of_nat_diff) simp_all
    also have "\<dots> = sint v + 256 ^ 32" using True u by presburger
    finally have s: "sint v + 256 ^ 32 = int (unat v + 256 ^ 32 - 256 ^ k)" ..
    have "sint v mod 256 ^ 32 = (sint v + 256 ^ 32) mod 256 ^ 32" by simp
    also have "\<dots> = sint v + 256 ^ 32"
      using True s by (intro mod_pos_pos_trivial) linarith+
    finally have "nat (sint v mod 256 ^ 32) = unat v + 256 ^ 32 - 256 ^ k"
      using s by (simp only: nat_int)
    moreover have "be_val (replicate (32 - k) 0xff @ be_bytes k (unat v)) = unat v + 256 ^ 32 - 256 ^ k"
      using v split le by (simp add: be_val_append be_val_replicate_ff be_val_be_bytes diff_mult_distrib)
    moreover have "unat v + 256 ^ 32 - 256 ^ k < 256 ^ 32" using v le by simp
    ultimately show ?thesis
      using True k w by (intro be_val_inj [THEN iffD1]) (simp_all add: uint256_def be_val_be_bytes)
  next
    case False
    have "int (unat v) < 256 ^ 32"
      using v le by (metis of_nat_less_iff of_nat_numeral of_nat_power order_less_le_trans)
    then have "nat (sint v mod 2 ^ 256) = unat v"
      using False u w by simp
    then show ?thesis
      using False be_bytes_zero_extend [OF v, of "32 - k"] k by (simp add: uint256_def)
  qed
qed

lemma write_signed_be:
  fixes v :: "'a::len word"
  assumes "LENGTH('a) = 8 * k" "k \<le> 32"
  shows "write_signed (sint v < 0) (be_bytes k (unat v)) = write_slot (abi_enc (AInt (sint v)))"
  using sign_extend_be [OF assms] assms(2) by (simp add: write_signed_def SLOT_SIZE_def)

lemma write_unsigned_be:
  fixes v :: "'a::len word"
  assumes "LENGTH('a) = 8 * k" "k \<le> 32"
  shows "write_right_aligned (be_bytes k (unat v)) = write_slot (abi_enc (AUint (unat v)))"
  using assms unat_bound [of v] by (simp add: write_right_aligned_be power_mult)

lemma abi_value_write: "length bs = 32 \<Longrightarrow> abi_value b (serialize_slot b (write_slot bs)) False bs []"
  by (rule abi_value_slot) simp_all

interpretation i8: abi_value b "serialize_i8 b v" False "abi_enc (AInt (sint v))" "[]"
  unfolding serialize_i8_def by (subst write_signed_be) (simp_all add: abi_value_write)

interpretation i16: abi_value b "serialize_i16 b v" False "abi_enc (AInt (sint v))" "[]"
  by (simp add: serialize_i16_def write_signed_be abi_value_write)

interpretation i32: abi_value b "serialize_i32 b v" False "abi_enc (AInt (sint v))" "[]"
  by (simp add: serialize_i32_def write_signed_be abi_value_write)

interpretation i64: abi_value b "serialize_i64 b v" False "abi_enc (AInt (sint v))" "[]"
  by (simp add: serialize_i64_def write_signed_be abi_value_write)

interpretation u8: abi_value b "serialize_u8 b v" False "abi_enc (AUint (unat v))" "[]"
  unfolding serialize_u8_def by (subst write_unsigned_be) (simp_all add: abi_value_write)

interpretation u16: abi_value b "serialize_u16 b v" False "abi_enc (AUint (unat v))" "[]"
  by (simp add: serialize_u16_def write_unsigned_be abi_value_write)

interpretation u32: abi_value b "serialize_u32 b v" False "abi_enc (AUint (unat v))" "[]"
  by (simp add: serialize_u32_def write_unsigned_be abi_value_write)

interpretation u64: abi_value b "serialize_u64 b v" False "abi_enc (AUint (unat v))" "[]"
  by (simp add: serialize_u64_def write_unsigned_be abi_value_write)

interpretation u128: abi_value b "serialize_u128 b v" False "abi_enc (AUint (unat v))" "[]"
  by (simp add: serialize_u128_def write_unsigned_be abi_value_write)

interpretation i128: abi_value b "serialize_i128 b v" False "abi_enc (AUint (unat v))" "[]"
  by (simp add: serialize_i128_def write_unsigned_be abi_value_write)

text \<open>Byte strings: fixed bytes go to the head, \<open>str\<close> lives in the tail.\<close>

lemma abi_value_bytes:
  assumes "length (pad32 v) < usize_limit b"
  shows "abi_value b (serialize_bytes b v) False (abi_enc (AStatic v)) []"
  using assms
  by unfold_locales (simp_all add: serialize_bytes_def write_chunks_Slots usize_simps
      length_pad32 [symmetric])

lemma abi_value_str:
  assumes "32 + length (pad32 v) < usize_limit b"
  shows "abi_value b (serialize_str b v) True [] (abi_enc (ABytes v))"
proof -
  have "length v \<le> length (pad32 v)" by (simp add: pad32_def)
  then have v: "length v < usize_limit b" using assms by simp
  have n: "SLOT_SIZE + (length v - length v mod SLOT_SIZE) + rem_size v = 32 + length (pad32 v)"
    by (simp add: length_pad32 SLOT_SIZE_def)
  show ?thesis
    using assms v n
    by unfold_locales
      (simp_all add: serialize_str_def write_chunks_Slots write_usize usize_simps bindS_def
        slots_of_append)
qed

section \<open>Sequences of elements\<close>

text \<open>
  The components of a composite value, each with its contract: (dynamic, head part, tail part).
  \<open>heads_from\<close> follows the serializer's running offset; \<open>enc_heads\<close> of the specification
  names each offset directly.
\<close>

type_synonym piece = "bool \<times> bytes \<times> bytes"

definition piece_ok :: "build \<Rightarrow> ser \<Rightarrow> piece \<Rightarrow> bool" where
  "piece_ok b f p = (case p of (d, hp, tp) \<Rightarrow> abi_value b f d hp tp)"

definition whole :: "piece \<Rightarrow> bool \<times> bytes" where
  "whole p = (case p of (d, hp, tp) \<Rightarrow> (d, hp @ tp))"

abbreviation heads_len :: "piece list \<Rightarrow> nat" where
  "heads_len ps \<equiv> sum_list (map (head_len \<circ> whole) ps)"

abbreviation tails :: "piece list \<Rightarrow> bytes" where
  "tails ps \<equiv> concat (map (tail_of \<circ> whole) ps)"

primrec heads_from :: "nat \<Rightarrow> (bool \<times> bytes) list \<Rightarrow> bytes" where
  "heads_from off [] = []"
| "heads_from off (e # es) =
     (if fst e then uint256 off else snd e) @ heads_from (off + length (tail_of e)) es"

lemma piece_ok_Pair [simp]: "piece_ok b f (d, hp, tp) = abi_value b f d hp tp"
  by (simp add: piece_ok_def)

lemma whole_Pair [simp]: "whole (d, hp, tp) = (d, hp @ tp)"
  by (simp add: whole_def)

lemma piece_okE:
  assumes "piece_ok b f p"
  obtains d hp tp where "p = (d, hp, tp)" "abi_value b f d hp tp"
    "head_len (whole p) = (if d then 32 else length hp)"
    "tail_of (whole p) = (if d then hp @ tp else [])"
    "fst (whole p) = d" "d \<or> snd (whole p) = hp"
proof (cases p)
  case (fields d hp tp)
  with assms have c: "abi_value b f d hp tp" by (simp add: piece_ok_def)
  show ?thesis
    using fields c abi_value.static_tail [OF c]
    by (intro that [of d hp tp]) (auto simp: whole_def head_len_def tail_of_def)
qed

lemma elements_head_size:
  assumes "list_all2 (piece_ok b) fs ps" "sz + heads_len ps < usize_limit b"
  shows "serialize_elements b red fs \<lparr>writer = w, pass = HeadSize sz dd ff\<rparr>
    = (Ok (), \<lparr>writer = w,
        pass = HeadSize (sz + heads_len ps) (dd \<or> list_ex (fst \<circ> whole) ps) ff\<rparr>)"
  using assms
proof (induction arbitrary: sz dd rule: list_all2_induct)
  case (Cons f fs p ps)
  from Cons.hyps(1) show ?case
  proof (rule piece_okE)
    fix d hp tp
    assume c: "abi_value b f d hp tp" and t: "head_len (whole p) = (if d then 32 else length hp)"
      and f: "fst (whole p) = d"
    show ?thesis
      using Cons.prems Cons.IH
      by (simp add: bindS_def abi_value.element_head_size [OF c] t f add.assoc)
  qed
qed simp

lemma elements_tail_size:
  assumes "list_all2 (piece_ok b) fs ps" "n + length (tails ps) < usize_limit b"
  shows "serialize_elements b red fs \<lparr>writer = w, pass = TailSize n\<rparr>
    = (Ok (), \<lparr>writer = w, pass = TailSize (n + length (tails ps))\<rparr>)"
  using assms
proof (induction arbitrary: n rule: list_all2_induct)
  case (Cons f fs p ps)
  from Cons.hyps(1) show ?case
  proof (rule piece_okE)
    fix d hp tp
    assume c: "abi_value b f d hp tp" and t: "tail_of (whole p) = (if d then hp @ tp else [])"
      and f: "fst (whole p) = d"
    show ?thesis
      using Cons.prems Cons.IH
      by (cases d) (simp_all add: bindS_def abi_value.element_tail_size [OF c] t f add.assoc)
  qed
qed simp

lemma elements_tail:
  assumes "list_all2 (piece_ok b) fs ps"
  shows "serialize_elements b red fs \<lparr>writer = Slots ws, pass = Tail\<rparr>
    = (Ok (), \<lparr>writer = Slots (ws @ slots_of (tails ps)), pass = Tail\<rparr>)"
  using assms
proof (induction arbitrary: ws rule: list_all2_induct)
  case (Cons f fs p ps)
  from Cons.hyps(1) show ?case
  proof (rule piece_okE)
    fix d hp tp
    assume c: "abi_value b f d hp tp" and t: "tail_of (whole p) = (if d then hp @ tp else [])"
    have "32 dvd length (if d then hp @ tp else [])"
      using abi_value.aligned_head [OF c] abi_value.aligned_tail [OF c] by simp
    then show ?thesis
      using Cons.IH by (simp add: bindS_def abi_value.element_tail [OF c] t slots_of_append)
  qed
qed simp

lemma elements_head:
  assumes "list_all2 (piece_ok b) fs ps" "red \<le> off" "off + length (tails ps) < usize_limit b"
  shows "serialize_elements b red fs \<lparr>writer = Slots ws, pass = Head off\<rparr>
    = (Ok (), \<lparr>writer = Slots (ws @ slots_of (heads_from (off - red) (map whole ps))),
                pass = Head (off + length (tails ps))\<rparr>)"
  using assms
proof (induction arbitrary: ws off rule: list_all2_induct)
  case (Cons f fs p ps)
  from Cons.hyps(1) show ?case
  proof (rule piece_okE)
    fix d hp tp
    assume c: "abi_value b f d hp tp" and t: "tail_of (whole p) = (if d then hp @ tp else [])"
      and f: "fst (whole p) = d" "d \<or> snd (whole p) = hp"
    have "32 dvd length hp" by (rule abi_value.aligned_head [OF c])
    then show ?thesis
      using Cons.prems Cons.IH f(2)
      by (cases d) (simp_all add: bindS_def abi_value.element_head [OF c] t f slots_of_append add.assoc)
  qed
qed simp

section \<open>The running offset computes the specified offsets\<close>

lemma heads_from_nth:
  "heads_from off es = concat (map (\<lambda>i.
     if fst (es ! i) then uint256 (off + length (concat (map tail_of (take i es))))
     else snd (es ! i)) [0..<length es])"
proof (induction es arbitrary: off)
  case (Cons e es)
  have "[0..<length (e # es)] = 0 # map Suc [0..<length es]"
    by (simp add: map_Suc_upt upt_conv_Cons del: upt_Suc)
  then show ?case
    using Cons [of "off + length (tail_of e)"]
    by (simp add: comp_def add.assoc del: upt_Suc cong: if_cong)
qed simp

lemma enc_heads_eq: "enc_heads es = heads_from (sum_list (map head_len es)) es"
  by (simp add: enc_heads_def heads_from_nth)

lemma length_heads_from: "length (heads_from off es) = sum_list (map head_len es)"
  by (induction es arbitrary: off) (auto simp: head_len_def split: prod.split)

lemma heads_from_static:
  "\<not> list_ex fst es \<Longrightarrow> heads_from off es = heads_from off' es"
  by (induction es arbitrary: off off') (auto simp: tail_of_def split: prod.split)

lemma tails_static: "\<not> list_ex fst es \<Longrightarrow> concat (map tail_of es) = []"
  by (induction es) (auto simp: tail_of_def split: prod.split)

lemma dvd_heads_tails:
  assumes "list_all2 (piece_ok b) fs ps"
  shows "32 dvd length (heads_from off (map whole ps))" "32 dvd length (tails ps)"
  using assms
proof (induction arbitrary: off rule: list_all2_induct)
  case (Cons f fs p ps)
  {
    case 1
    from Cons.hyps(1) show ?case
      by (rule piece_okE)
        (use Cons.IH(1) in \<open>auto simp: abi_value.aligned_head intro!: dvd_add\<close>)
  next
    case 2
    from Cons.hyps(1) show ?case
      by (rule piece_okE)
        (use Cons.IH(2) in \<open>auto simp: abi_value.aligned_head abi_value.aligned_tail intro!: dvd_add\<close>)
  }
qed simp_all

section \<open>Composite values\<close>

lemma abi_value_tuple:
  assumes ps: "list_all2 (piece_ok b) fs ps"
    and fits: "length (enc_tuple (map whole ps)) < usize_limit b"
  shows "abi_value b (serialize_elements b 0 fs) (list_ex (fst \<circ> whole) ps)
    (enc_heads (map whole ps)) (tails ps)"
proof -
  let ?es = "map whole ps"
  have hl: "heads_len ps = sum_list (map head_len ?es)" by simp
  have heads: "enc_heads ?es = heads_from (heads_len ps) ?es" by (simp add: enc_heads_eq)
  have len: "length (enc_heads ?es) = heads_len ps" by (simp add: heads length_heads_from)
  have "heads_len ps + length (tails ps) < usize_limit b"
    using fits len by (simp add: enc_tuple_def)
  moreover have "serialize_elements b 0 fs \<lparr>writer = Slots ws, pass = Head off\<rparr>
      = (Ok (), \<lparr>writer = Slots (ws @ slots_of (enc_heads ?es)), pass = Head (off + length (tails ps))\<rparr>)"
    if "off < usize_limit b" "list_ex (fst \<circ> whole) ps \<Longrightarrow> off = length (enc_heads ?es)" for ws off
  proof (cases "list_ex (fst \<circ> whole) ps")
    case True
    with that len have "off = heads_len ps" by simp
    with elements_head [OF ps, of 0 off ws] show ?thesis
      using fits len heads by (simp add: enc_tuple_def)
  next
    case False
    then have static: "\<not> list_ex fst ?es" by (simp add: list_ex_iff)
    then have "tails ps = []" using tails_static [OF static] by (simp only: map_map)
    with elements_head [OF ps, of 0 off ws] that(1) show ?thesis
      using heads_from_static [OF static, of off "heads_len ps"] heads by simp
  qed
  ultimately show ?thesis
    using dvd_heads_tails [OF ps] tails_static [of ?es]
    by unfold_locales
      (auto simp: elements_head_size [OF ps] elements_tail_size [OF ps] elements_tail [OF ps]
        heads length_heads_from list_ex_iff comp_def)
qed

lemma abi_value_array:
  assumes ps: "list_all2 (piece_ok b) fs ps"
    and fits: "32 + length (enc_tuple (map whole ps)) < usize_limit b"
    and n: "n < usize_limit b"
  shows "abi_value b (bindS (serialize_seq b (Some n)) (\<lambda>_. serialize_elements b SLOT_SIZE fs)) True
    (uint256 n @ enc_heads (map whole ps)) (tails ps)"
proof -
  let ?es = "map whole ps"
  have heads: "enc_heads ?es = heads_from (heads_len ps) ?es" by (simp add: enc_heads_eq)
  have len: "length (enc_heads ?es) = heads_len ps" by (simp add: heads length_heads_from)
  have "32 + heads_len ps + length (tails ps) < usize_limit b"
    using fits len by (simp add: enc_tuple_def)
  then show ?thesis
    using dvd_heads_tails [OF ps] n
    by unfold_locales
      (auto simp: serialize_seq_def bindS_def SLOT_SIZE_def usize_simps write_usize heads length_heads_from
        elements_head_size [OF ps] elements_tail_size [OF ps] elements_tail [OF ps]
        elements_head [OF ps] slots_of_append add.assoc)
qed

text \<open>The \<open>DynamicMarker\<close> makes the enclosing tuple dynamic and writes nothing.\<close>

lemma compute_size_marker [simp]:
  "compute_size (serialize_unit_struct MARK_DYNAMIC_NAME) = Ok (0, False, True)"
  by (simp add: compute_size_def serialize_unit_struct_def)

lemma marker_element:
  "sz < usize_limit b \<Longrightarrow>
    serialize_tuple_element b (serialize_unit_struct MARK_DYNAMIC_NAME) 0
      \<lparr>writer = w, pass = HeadSize sz dd ff\<rparr> = (Ok (), \<lparr>writer = w, pass = HeadSize sz True ff\<rparr>)"
  "n < usize_limit b \<Longrightarrow>
    serialize_tuple_element b (serialize_unit_struct MARK_DYNAMIC_NAME) 0
      \<lparr>writer = w, pass = TailSize n\<rparr> = (Ok (), \<lparr>writer = w, pass = TailSize n\<rparr>)"
  "serialize_tuple_element b (serialize_unit_struct MARK_DYNAMIC_NAME) 0
      \<lparr>writer = w, pass = Head off\<rparr> = (Ok (), \<lparr>writer = w, pass = Head off\<rparr>)"
  "serialize_tuple_element b (serialize_unit_struct MARK_DYNAMIC_NAME) 0
      \<lparr>writer = w, pass = Tail\<rparr> = (Ok (), \<lparr>writer = w, pass = Tail\<rparr>)"
  by (simp_all add: serialize_tuple_element_def get_tail_size_def serialize_unit_struct_def
      serialize_with_def usize_simps)

lemma abi_value_as_bytes:
  assumes fits: "32 + length (pad32 bs) < usize_limit b" and n: "unat n = length bs"
  shows "abi_value b (serialize_elements b 0
      [serialize_unit_struct MARK_DYNAMIC_NAME, serialize_u64 b n, serialize_bytes b bs])
    True (abi_enc (ABytes bs)) []"
proof -
  have bytes: "abi_value b (serialize_bytes b bs) False (abi_enc (AStatic bs)) []"
    using fits by (intro abi_value_bytes) simp
  have "uint256 (unat n) = uint256 (length bs)" by (simp add: n)
  then show ?thesis
    using fits
    by unfold_locales
      (simp_all add: bindS_def marker_element u64.element_head_size u64.element_tail_size
        u64.element_head u64.element_tail abi_value.element_head_size [OF bytes]
        abi_value.element_tail_size [OF bytes] abi_value.element_head [OF bytes]
        abi_value.element_tail [OF bytes] slots_of_append add.assoc)
qed

section \<open>Every representable value satisfies the contract\<close>

definition represents :: "build \<Rightarrow> ser \<Rightarrow> abi \<Rightarrow> bool" where
  "represents b f a \<longleftrightarrow> (length (abi_enc a) < usize_limit b \<longrightarrow>
     (\<exists>hp tp. abi_value b f (abi_dynamic a) hp tp \<and> abi_enc a = hp @ tp))"

lemma representsI:
  "(length (abi_enc a) < usize_limit b \<Longrightarrow> abi_value b f (abi_dynamic a) hp tp) \<Longrightarrow>
   abi_enc a = hp @ tp \<Longrightarrow> represents b f a"
  by (auto simp: represents_def)

lemma length_tuple_components:
  "e \<in> set es \<Longrightarrow> length (snd e) \<le> length (enc_tuple es)"
proof (induction es)
  case (Cons e' es)
  have "length (enc_tuple (e' # es)) =
      (if fst e' then 32 + length (snd e') else length (snd e')) + length (enc_tuple es)"
    by (cases e') (simp add: enc_tuple_def enc_heads_eq length_heads_from head_len_def tail_of_def)
  with Cons show ?case by auto
qed simp

lemma represents_pieces:
  assumes "list_all2 (represents b) fs as"
    and "length (enc_tuple (map (\<lambda>a. (abi_dynamic a, abi_enc a)) as)) < usize_limit b"
  shows "\<exists>ps. list_all2 (piece_ok b) fs ps \<and>
    map whole ps = map (\<lambda>a. (abi_dynamic a, abi_enc a)) as"
proof -
  let ?es = "map (\<lambda>a. (abi_dynamic a, abi_enc a)) as"
  have small: "length (abi_enc a) < usize_limit b" if "a \<in> set as" for a
    using length_tuple_components [of "(abi_dynamic a, abi_enc a)" ?es] assms(2) that
    by fastforce
  from assms(1) small show ?thesis
  proof (induction rule: list_all2_induct)
    case (Cons f fs a as)
    then obtain hp tp where p: "abi_value b f (abi_dynamic a) hp tp" "abi_enc a = hp @ tp"
      by (auto simp: represents_def)
    moreover from Cons obtain ps where "list_all2 (piece_ok b) fs ps"
      "map whole ps = map (\<lambda>a. (abi_dynamic a, abi_enc a)) as" by auto
    ultimately show ?case
      by (intro exI [of _ "(abi_dynamic a, hp, tp) # ps"]) simp
  qed simp
qed

lemma represents_tuple:
  assumes "list_all2 (represents b) fs as"
  shows "represents b (serialize_elements b 0 fs) (ATuple as)"
  unfolding represents_def
proof
  assume "length (abi_enc (ATuple as)) < usize_limit b"
  with represents_pieces [OF assms] obtain ps where ps: "list_all2 (piece_ok b) fs ps"
    and es: "map whole ps = map (\<lambda>a. (abi_dynamic a, abi_enc a)) as" by auto
  have "list_ex (fst \<circ> whole) ps = list_ex fst (map whole ps)" by (simp add: list_ex_iff)
  also have "\<dots> = abi_dynamic (ATuple as)" by (simp add: es list_ex_iff)
  finally show "\<exists>hp tp. abi_value b (serialize_elements b 0 fs) (abi_dynamic (ATuple as)) hp tp \<and>
      abi_enc (ATuple as) = hp @ tp"
    using abi_value_tuple [OF ps] \<open>length (abi_enc (ATuple as)) < usize_limit b\<close> es
    by (intro exI [of _ "enc_heads (map whole ps)"] exI [of _ "tails ps"])
      (simp add: enc_tuple_def flip: map_map)
qed

lemma represents_array:
  assumes "list_all2 (represents b) fs as" and n: "length as < usize_limit b"
  shows "represents b (bindS (serialize_seq b (Some (length as)))
    (\<lambda>_. serialize_elements b SLOT_SIZE fs)) (AArray as)"
  unfolding represents_def
proof
  assume fits: "length (abi_enc (AArray as)) < usize_limit b"
  with represents_pieces [OF assms(1)] obtain ps where ps: "list_all2 (piece_ok b) fs ps"
    and es: "map whole ps = map (\<lambda>a. (abi_dynamic a, abi_enc a)) as" by auto
  show "\<exists>hp tp. abi_value b (bindS (serialize_seq b (Some (length as)))
      (\<lambda>_. serialize_elements b SLOT_SIZE fs)) (abi_dynamic (AArray as)) hp tp \<and>
      abi_enc (AArray as) = hp @ tp"
    using abi_value_array [OF ps _ n] fits es
    by (intro exI [of _ "uint256 (length as) @ enc_heads (map whole ps)"] exI [of _ "tails ps"])
      (simp add: enc_tuple_def flip: map_map)
qed

text \<open>A sequence length is a \<open>usize\<close>: it fits the target's pointer width.\<close>

primrec lens_fit :: "build \<Rightarrow> sval \<Rightarrow> bool" where
  "lens_fit b (SBool v) = True"
| "lens_fit b (SI8 v) = True"
| "lens_fit b (SI16 v) = True"
| "lens_fit b (SI32 v) = True"
| "lens_fit b (SI64 v) = True"
| "lens_fit b (SI128 v) = True"
| "lens_fit b (SU8 v) = True"
| "lens_fit b (SU16 v) = True"
| "lens_fit b (SU32 v) = True"
| "lens_fit b (SU64 v) = True"
| "lens_fit b (SU128 v) = True"
| "lens_fit b (SF32 v) = True"
| "lens_fit b (SF64 v) = True"
| "lens_fit b (SChar v) = True"
| "lens_fit b (SStr v) = True"
| "lens_fit b (SBytes v) = True"
| "lens_fit b SNone = True"
| "lens_fit b (SSome v) = lens_fit b v"
| "lens_fit b SUnit = True"
| "lens_fit b (SUnitStruct name) = True"
| "lens_fit b (SUnitVariant name i variant) = True"
| "lens_fit b (SNewtypeStruct name v) = lens_fit b v"
| "lens_fit b (SNewtypeVariant name i variant v) = lens_fit b v"
| "lens_fit b (SSeq len vs) =
     (pred_option (\<lambda>n. n < usize_limit b) len \<and> list_all id (map (lens_fit b) vs))"
| "lens_fit b (STuple vs) = list_all id (map (lens_fit b) vs)"
| "lens_fit b (STupleStruct name vs) = list_all id (map (lens_fit b) vs)"
| "lens_fit b (STupleVariant name i variant vs) = True"
| "lens_fit b (SMap len kvs) = True"
| "lens_fit b (SStruct name fs) = list_all id (map snd (map (map_prod id (lens_fit b)) fs))"
| "lens_fit b (SStructVariant name i variant fs) = True"

lemma those_Some_iff: "those xs = Some ys \<longleftrightarrow> xs = map Some ys"
  by (induction xs arbitrary: ys) (auto split: option.splits simp: Cons_eq_map_conv map_eq_Cons_conv)

lemma represents_elements:
  assumes "\<And>v a. v \<in> set vs \<Longrightarrow> abi_of v = Some a \<Longrightarrow> lens_fit b v \<Longrightarrow> represents b (serialize b v) a"
    and "those (map abi_of vs) = Some as" "list_all (lens_fit b) vs"
  shows "list_all2 (represents b) (map (serialize b) vs) as"
proof -
  from assms(2) have "list_all2 (\<lambda>v a. abi_of v = Some a) vs as"
    by (simp add: those_Some_iff list_all2_conv_all_nth list_eq_iff_nth_eq)
  then show ?thesis
    using assms(1,3) by (auto simp: list_all2_map1 list_all_iff elim!: list.rel_mono_strong)
qed

lemma as_bytes_of_Some:
  "as_bytes_of vs = Some bs \<longleftrightarrow>
    (\<exists>n. vs = [SUnitStruct MARK_DYNAMIC_NAME, SU64 n, SBytes bs] \<and> unat n = length bs)"
  by (auto simp: as_bytes_of_def split: list.splits sval.splits if_splits)

lemma map_snd_map_prod: "map snd (map (map_prod id f) fs) = map f (map snd fs)"
  by simp

lemma represents_i128:
  assumes "0 \<le> sint v"
  shows "represents b (serialize_i128 b v) (AInt (sint v))"
proof -
  have "uint v < 2 ^ LENGTH(128)" by (rule unsigned_less)
  then have "uint v < 2 ^ 128" by simp
  then have "uint v mod 2 ^ 256 = uint v" by simp
  then have "abi_enc (AInt (sint v)) = abi_enc (AUint (unat v))"
    using sint_uint_cases [of v] assms by simp
  then show ?thesis
    by (intro representsI [of _ _ _ "abi_enc (AInt (sint v))" "[]"]) (use i128.abi_value_axioms [of b v] in auto)
qed

lemma represents_newtype:
  assumes "represents b (serialize b v) a"
  shows "represents b (serialize b (SNewtypeStruct name v)) (ATuple [a])"
proof -
  have "represents b (serialize_elements b 0 [serialize b v]) (ATuple [a])"
    using represents_tuple [of b "[serialize b v]" "[a]"] assms by simp
  moreover have "serialize_elements b 0 [serialize b v] = serialize b (SNewtypeStruct name v)"
    by (rule ext) (auto simp: bindS_def split: prod.split res.split)
  ultimately show ?thesis by simp
qed

lemma serialize_represents:
  "abi_of v = Some a \<Longrightarrow> lens_fit b v \<Longrightarrow> represents b (serialize b v) a"
proof (induction v arbitrary: a)
  case (SBool v)
  then show ?case
    by (intro representsI [of _ _ _ "abi_enc a" "[]"])
      (use u8.abi_value_axioms [of b "if v then 1 else 0"] in \<open>auto simp: serialize_bool_def\<close>)
next
  case (SI128 v)
  then show ?case by (auto intro: represents_i128 split: if_splits)
next
  case (SStr v)
  then show ?case
    by (intro representsI [of _ _ _ "[]" "abi_enc a"]) (auto intro: abi_value_str [simplified])
next
  case (SBytes v)
  then show ?case
    by (intro representsI [of _ _ _ "abi_enc a" "[]"]) (auto intro: abi_value_bytes [simplified])
next
  case (SNewtypeStruct name v)
  then show ?case by (auto simp del: serialize.simps intro: represents_newtype)
next
  case (SSeq len vs)
  then obtain as where as: "a = AArray as" "those (map abi_of vs) = Some as" "len = Some (length vs)"
    "length vs < usize_limit b" "list_all (lens_fit b) vs"
    by (auto split: if_splits simp: list_all_iff)
  moreover have "length as = length vs"
    using as(2) by (auto simp: those_Some_iff dest: map_eq_imp_length_eq)
  moreover have "list_all2 (represents b) (map (serialize b) vs) as"
    using SSeq.IH as by (intro represents_elements) auto
  ultimately show ?case
    using represents_array [of b "map (serialize b) vs" as] by simp
next
  case (STuple vs)
  show ?case
  proof (cases "as_bytes_of vs")
    case None
    with STuple obtain as where as: "a = ATuple as" "those (map abi_of vs) = Some as"
      "list_all (lens_fit b) vs" by (auto simp: list_all_iff)
    with STuple.IH show ?thesis
      using represents_tuple [OF represents_elements [of vs b as]] by auto
  next
    case (Some bs)
    with STuple show ?thesis
      by (intro representsI [of _ _ _ "abi_enc a" "[]"])
        (auto simp: as_bytes_of_Some intro!: abi_value_as_bytes [simplified])
  qed
next
  case (STupleStruct name vs)
  then obtain as where as: "a = ATuple as" "those (map abi_of vs) = Some as"
    "list_all (lens_fit b) vs" by (auto simp: list_all_iff)
  with STupleStruct.IH show ?case
    using represents_tuple [OF represents_elements [of vs b as]] by auto
next
  case (SStruct name fs)
  let ?vs = "map snd fs"
  from SStruct.prems obtain as where as: "a = ATuple as" "those (map abi_of ?vs) = Some as"
    "list_all (lens_fit b) ?vs"
    by (auto simp: list_all_iff comp_def)
  have "represents b (serialize b v) a" if "v \<in> set ?vs" "abi_of v = Some a" "lens_fit b v" for v a
    using SStruct.IH that by (fastforce simp: snds.simps)
  with as show ?case
    using represents_tuple [OF represents_elements [of ?vs b as]] by (simp add: comp_def)
qed (auto intro!: representsI [of _ _ _ "abi_enc _" "[]"]
    i8.abi_value_axioms i16.abi_value_axioms i32.abi_value_axioms i64.abi_value_axioms
    u8.abi_value_axioms u16.abi_value_axioms u32.abi_value_axioms u64.abi_value_axioms
    u128.abi_value_axioms)

section \<open>The entry points\<close>

lemma to_writer_internal_contract:
  assumes c: "abi_value b (serialize b v) d hp tp"
  shows "to_writer_internal b v outer (Slots ws) =
    (Ok (), Slots (ws @ (if d \<and> outer then [uint256 32] else []) @ slots_of (hp @ tp)))"
proof -
  let ?ws = "ws @ (if d \<and> outer then [uint256 32] else [])"
  have "32 < usize_limit b" using usize_limit_ge [of b] by simp
  then have pre: "(if d \<and> outer then write_right_aligned (usize_be_bytes b SLOT_SIZE) else ret ())
      \<lparr>writer = Slots ws, pass = Head n\<rparr> = (Ok (), \<lparr>writer = Slots ?ws, pass = Head n\<rparr>)" for n
    by (simp add: write_usize SLOT_SIZE_def)
  obtain p where head: "serialize b v \<lparr>writer = Slots ?ws, pass = Head (length hp)\<rparr>
      = (Ok (), \<lparr>writer = Slots (?ws @ slots_of hp), pass = p\<rparr>)"
    using abi_value.head [OF c, of "length hp" ?ws] abi_value.fits [OF c] by auto
  show ?thesis
    using abi_value.aligned_head [OF c] abi_value.static_tail [OF c]
    by (auto simp: to_writer_internal_def write_passes_def abi_value.compute_size_eq [OF c] bindS_def pre [simplified]
        head [simplified] abi_value.tail [OF c] slots_of_append)
qed

lemma abi_encode_eq:
  "abi_encode a = (if abi_dynamic a then uint256 32 else []) @ abi_enc a"
  by (simp add: abi_encode_def enc_tuple_def enc_heads_def head_len_def tail_of_def)

lemma to_writer_internal_abi:
  assumes "abi_of v = Some a" "lens_fit b v" "length (abi_enc a) < usize_limit b"
  shows "to_writer_internal b v outer (Slots ws) =
    (Ok (), Slots (ws @ slots_of (if outer then abi_encode a else abi_enc a)))"
proof -
  obtain hp tp where c: "abi_value b (serialize b v) (abi_dynamic a) hp tp"
    and a: "abi_enc a = hp @ tp"
    using serialize_represents [OF assms(1,2)] assms(3) by (auto simp: represents_def)
  show ?thesis
    using to_writer_internal_contract [OF c] a by (simp add: abi_encode_eq slots_of_append)
qed

text \<open>
  C5: the streaming serializer implements the Solidity ABI.  For every supported value whose
  encoding fits the target's address space, \<open>to_writer\<close> succeeds and writes exactly the
  32-byte slots of \<open>abi.encode(value)\<close> after what the writer already holds, and
  \<open>to_fnargs_writer\<close> those of the encoding without the outer offset.
\<close>

theorem to_writer_refines_abi:
  assumes "abi_of v = Some a" "lens_fit b v" "length (abi_enc a) < usize_limit b"
  shows "to_writer b v (Slots ws) = (Ok (), Slots (ws @ slots_of (abi_encode a))) \<and>
    to_fnargs_writer b v (Slots ws) = (Ok (), Slots (ws @ slots_of (abi_enc a)))"
  using to_writer_internal_abi [OF assms] by (simp add: to_writer_def to_fnargs_writer_def)

theorem to_writer_refines_abi_witness:
  "to_writer \<lparr>profile = Debug, ptr_width = W32\<rparr>
     (SStruct ''S'' [(''a'', SU8 7), (''b'', SStr [1, 2, 3]), (''c'', SSeq (Some 1) [SI16 (-2)])]) (Slots [])
   = (Ok (), Slots (slots_of (abi_encode
       (ATuple [AUint 7, ABytes [1, 2, 3], AArray [AInt (-2)]]))))"
  using to_writer_refines_abi
    [of "SStruct ''S'' [(''a'', SU8 7), (''b'', SStr [1, 2, 3]), (''c'', SSeq (Some 1) [SI16 (-2)])]"
        "ATuple [AUint 7, ABytes [1, 2, 3], AArray [AInt (-2)]]"
        "\<lparr>profile = Debug, ptr_width = W32\<rparr>" "[]"]
  by (simp add: usize_bits_def enc_tuple_def enc_heads_def head_len_def tail_of_def pad32_def)

text \<open>
  The elementary signed integers: a negative \<open>i128\<close> is written as the unsigned number with
  the same 128 bits, which is not its ABI encoding; \<open>serialize_i8\<close> to \<open>serialize_i64\<close> sign-extend.
\<close>

theorem i128_not_sign_extended:
  assumes "sint v < 0"
  shows "to_writer b (SI128 v) (Slots ws) = (Ok (), Slots (ws @ [uint256 (unat v)])) \<and>
    uint256 (unat v) \<noteq> abi_encode (AInt (sint v)) \<and>
    to_writer b (SI64 (-1)) (Slots ws) = (Ok (), Slots (ws @ [abi_encode (AInt (-1))]))"
proof -
  have "unat v < 2 ^ 128" using unat_bound [of v] by simp
  moreover have "2 ^ 128 \<le> nat (sint v mod 2 ^ 256)"
  proof -
    have "- (2 ^ 127) \<le> sint v" using sint_ge [of v] by simp
    moreover have "sint v mod 2 ^ 256 = sint v + 2 ^ 256"
      using assms calculation mod_pos_pos_trivial [of "sint v + 2 ^ 256" "2 ^ 256"] by simp
    ultimately show ?thesis by (simp add: le_nat_iff)
  qed
  moreover have "nat (sint v mod 2 ^ 256) < 256 ^ 32" by (simp add: nat_less_iff)
  ultimately have "uint256 (unat v) \<noteq> uint256 (nat (sint v mod 2 ^ 256))"
    by (auto simp: uint256_def be_bytes_inj)
  then show ?thesis
    using to_writer_internal_contract [of b "SI128 v" False "uint256 (unat v)" "[]" True ws]
      to_writer_internal_contract [of b "SI64 (-1)" False "abi_enc (AInt (-1))" "[]" True ws]
      i128.abi_value_axioms [of b v] i64.abi_value_axioms [of b "-1"]
    by (simp add: to_writer_def abi_encode_eq)
qed

theorem i128_not_sign_extended_witness:
  "to_writer \<lparr>profile = Release, ptr_width = W64\<rparr> (SI128 (-1)) (Slots []) = (Ok (), Slots [uint256 (2 ^ 128 - 1)]) \<and>
   uint256 (2 ^ 128 - 1) \<noteq> abi_encode (AInt (-1))"
  using i128_not_sign_extended [of "-1" "\<lparr>profile = Release, ptr_width = W64\<rparr>" "[]"]
  by (simp add: unsigned_minus_1_eq_mask mask_eq_exp_minus_1)

end
