(* ===== verification/Abi_Errors.thy ===== *)
theory Abi_Errors
  imports Abi_Spec
begin

text \<open>
  The error behaviour of the serializer: which values it rejects, with which error, and that
  a rejected value leaves the writer untouched although the output is streamed.  The size
  pass visits every component before the first slot is written.
\<close>

section \<open>Unsupported values\<close>

text \<open>
  The error a value leads to: that of its first unsupported component in serialization order.
\<close>

primrec first_some :: "'a option list \<Rightarrow> 'a option" where
  "first_some [] = None"
| "first_some (x # xs) = (case x of None \<Rightarrow> first_some xs | Some e \<Rightarrow> Some e)"

primrec first_error :: "sval \<Rightarrow> error option" where
  "first_error (SBool v) = None"
| "first_error (SI8 v) = None"
| "first_error (SI16 v) = None"
| "first_error (SI32 v) = None"
| "first_error (SI64 v) = None"
| "first_error (SI128 v) = None"
| "first_error (SU8 v) = None"
| "first_error (SU16 v) = None"
| "first_error (SU32 v) = None"
| "first_error (SU64 v) = None"
| "first_error (SU128 v) = None"
| "first_error (SF32 v) = Some (TypeNotRepresentable ''f32'')"
| "first_error (SF64 v) = Some (TypeNotRepresentable ''f64'')"
| "first_error (SChar v) = Some (TypeNotYetSupported ''char'')"
| "first_error (SStr v) = None"
| "first_error (SBytes v) = None"
| "first_error SNone = Some (TypeNotRepresentable ''none'')"
| "first_error (SSome v) = Some (TypeNotRepresentable ''some'')"
| "first_error SUnit = Some (TypeNotRepresentable ''unit'')"
| "first_error (SUnitStruct name) =
     (if name = MARK_DYNAMIC_NAME then None else Some (TypeNotRepresentable ''unit struct''))"
| "first_error (SUnitVariant name i variant) =
     Some (TypeNotRepresentable ''unit variant (enum)'')"
| "first_error (SNewtypeStruct name v) = first_error v"
| "first_error (SNewtypeVariant name i variant v) =
     Some (TypeNotRepresentable ''newtype variant (enum)'')"
| "first_error (SSeq len vs) = first_some (map first_error vs)"
| "first_error (STuple vs) = first_some (map first_error vs)"
| "first_error (STupleStruct name vs) = first_some (map first_error vs)"
| "first_error (STupleVariant name i variant vs) = Some (TypeNotRepresentable ''struct variant'')"
| "first_error (SMap len kvs) = Some (TypeNotRepresentable ''map'')"
| "first_error (SStruct name fs) = first_some (map snd (map (map_prod id first_error) fs))"
| "first_error (SStructVariant name i variant fs) = Some (TypeNotRepresentable ''struct variant'')"

text \<open>
  What the size pass of a value can do: report its error, finish in the size pass, or (in a
  Debug build only) panic on an overflowing size.
\<close>

definition in_head_size :: "serializer \<Rightarrow> bool" where
  "in_head_size s = (case pass s of HeadSize _ _ _ \<Rightarrow> True | _ \<Rightarrow> False)"

definition size_outcome :: "build \<Rightarrow> error option \<Rightarrow> (error, unit) res \<times> serializer \<Rightarrow> bool" where
  "size_outcome b e x = (case x of
     (Ok _, s) \<Rightarrow> e = None \<and> in_head_size s
   | (Err err, _) \<Rightarrow> e = Some err
   | (Panic, _) \<Rightarrow> profile b = Debug)"

definition sizes :: "build \<Rightarrow> ser \<Rightarrow> error option \<Rightarrow> bool" where
  "sizes b f e \<longleftrightarrow> (\<forall>s. in_head_size s \<longrightarrow> size_outcome b e (f s))"

text \<open>A value that reports no error in any pass.\<close>

definition errorless :: "ser \<Rightarrow> bool" where
  "errorless f \<longleftrightarrow> (\<forall>s e s'. f s \<noteq> (Err e, s'))"

lemma usize_arith_not_Err [simp]: "usize_add b x y \<noteq> Err e" "usize_sub b x y \<noteq> Err e"
  by (simp_all add: usize_add_def usize_sub_def split: profile.split)

lemma usize_add_Panic: "usize_add b x y = Panic \<Longrightarrow> profile b = Debug"
  by (auto simp: usize_add_def split: if_splits profile.splits)

lemma in_head_sizeE:
  assumes "in_head_size s"
  obtains w sz d fk where "s = \<lparr>writer = w, pass = HeadSize sz d fk\<rparr>"
  using assms by (cases s) (auto simp: in_head_size_def split: pass.splits)

lemma in_head_size_HeadSize [simp]: "in_head_size (s\<lparr>pass := HeadSize sz d fk\<rparr>)"
  "in_head_size \<lparr>writer = w, pass = HeadSize sz d fk\<rparr>"
  by (simp_all add: in_head_size_def)

lemma size_outcome_simps [simp]:
  "size_outcome b e (Ok x, s) \<longleftrightarrow> e = None \<and> in_head_size s"
  "size_outcome b e (Err err, s) \<longleftrightarrow> e = Some err"
  "size_outcome b e (Panic, s) \<longleftrightarrow> profile b = Debug"
  by (auto simp: size_outcome_def)

lemma sizesI:
  "(\<And>w sz d fk. size_outcome b e (f \<lparr>writer = w, pass = HeadSize sz d fk\<rparr>)) \<Longrightarrow> sizes b f e"
  by (auto simp: sizes_def elim!: in_head_sizeE)

lemma sizesD: "sizes b f e \<Longrightarrow> size_outcome b e (f \<lparr>writer = w, pass = HeadSize sz d fk\<rparr>)"
  by (simp add: sizes_def)

lemma sizes_compute_size:
  assumes "sizes b f e"
  shows "(\<exists>x. compute_size f = Ok x) \<and> e = None \<or> (\<exists>err. compute_size f = Err err \<and> e = Some err) \<or>
    compute_size f = Panic \<and> profile b = Debug"
  using sizesD [OF assms, of NoWriter 0 False False]
  by (auto simp: compute_size_def size_outcome_def split: prod.splits res.splits elim!: in_head_sizeE)

lemma sizes_fail: "sizes b (fail e) (Some e)"
  by (rule sizesI) simp

lemma sizes_ret: "sizes b (ret ()) None"
  by (rule sizesI) simp

lemma sizes_bind:
  assumes "sizes b f e" "sizes b g e'"
  shows "sizes b (bindS f (\<lambda>_. g)) (case e of None \<Rightarrow> e' | Some err \<Rightarrow> Some err)"
  unfolding sizes_def
proof (intro allI impI)
  fix s assume "in_head_size s"
  with assms have "size_outcome b e (f s)" "\<And>s'. in_head_size s' \<Longrightarrow> size_outcome b e' (g s')"
    by (simp_all add: sizes_def)
  then show "size_outcome b (case e of None \<Rightarrow> e' | Some err \<Rightarrow> Some err) (bindS f (\<lambda>_. g) s)"
    by (auto simp: bindS_def split: prod.split res.split option.split)
qed

lemma sizes_slot: "sizes b (serialize_slot b wr) None"
  by (rule sizesI) (auto simp: serialize_slot_def dest: usize_add_Panic split: res.split)

lemma sizes_str: "sizes b (serialize_str b v) None"
  by (rule sizesI) (simp add: serialize_str_def)

lemma sizes_bytes: "sizes b (serialize_bytes b v) None"
  by (rule sizesI) (auto simp: serialize_bytes_def dest: usize_add_Panic split: res.split)

lemma sizes_seq: "sizes b (serialize_seq b len) None"
  by (rule sizesI) (auto simp: serialize_seq_def dest: usize_add_Panic split: res.split)

lemma sizes_tuple_element:
  assumes "sizes b f e"
  shows "sizes b (serialize_tuple_element b f red) e"
proof (rule sizesI)
  fix w sz d fk
  show "size_outcome b e (serialize_tuple_element b f red \<lparr>writer = w, pass = HeadSize sz d fk\<rparr>)"
    using sizes_compute_size [OF assms]
    by (auto simp: serialize_tuple_element_def dest: usize_add_Panic split: res.split)
qed

lemma sizes_elements:
  assumes "\<And>v. v \<in> set vs \<Longrightarrow> sizes b (serialize b v) (first_error v)"
  shows "sizes b (serialize_elements b red (map (serialize b) vs)) (first_some (map first_error vs))"
  using assms
proof (induction vs)
  case (Cons v vs)
  then show ?case
    using sizes_bind [OF sizes_tuple_element] by simp
qed (simp add: sizes_ret)

lemmas serialize_slot_defs = serialize_bool_def serialize_i8_def serialize_i16_def
  serialize_i32_def serialize_i64_def serialize_i128_def serialize_u8_def serialize_u16_def
  serialize_u32_def serialize_u64_def serialize_u128_def

lemma serialize_sizes: "sizes b (serialize b v) (first_error v)"
proof (induction v)
  case (SUnitStruct name)
  show ?case by (rule sizesI) (simp add: serialize_unit_struct_def)
next
  case (SSeq len vs)
  then show ?case
    using sizes_bind [OF sizes_seq sizes_elements [of vs b SLOT_SIZE]] by simp
next
  case (SStruct name fs)
  then have "sizes b (serialize b v) (first_error v)" if "v \<in> set (map snd fs)" for v
    using that by (fastforce simp: snds.simps)
  then show ?case using sizes_elements [of "map snd fs" b 0] by (simp add: comp_def)
qed (simp_all add: sizes_slot sizes_fail sizes_str sizes_bytes sizes_tuple_element sizes_elements
    serialize_slot_defs del: fail_apply)

section \<open>Supported values report no error\<close>

lemma errorless_bind: "errorless f \<Longrightarrow> (\<And>x. errorless (g x)) \<Longrightarrow> errorless (bindS f g)"
  by (auto simp: errorless_def bindS_def split: prod.split res.split)

lemma errorless_lift: "(\<And>e. r \<noteq> Err e) \<Longrightarrow> (\<And>x. r = Ok x \<Longrightarrow> errorless (g x)) \<Longrightarrow>
    errorless (bindS (lift_res r) g)"
  by (auto simp: errorless_def split: res.split)

lemma errorless_simple [simp, intro]:
  "errorless (ret ())" "errorless crash" "errorless (set_pass p)" "errorless (write_slot bs)"
  by (auto simp: errorless_def set_pass_def write_slot_def ret_def crash_def split: writer.split)

lemma errorless_write [simp, intro]:
  "errorless (write_right_aligned v)" "errorless (write_left_aligned_slice v)"
  "errorless (write_signed neg v)"
  by (auto simp: write_right_aligned_def write_left_aligned_slice_def write_signed_def simp del: crash_apply)

lemma errorless_chunks [simp, intro]: "errorless (write_chunks v)"
proof (induction v rule: write_chunks.induct)
  case (1 v)
  then show ?case by (subst write_chunks.simps) (auto intro!: errorless_bind simp del: ret_apply)
qed

lemma errorless_compute_size:
  assumes "errorless f"
  shows "compute_size f \<noteq> Err e" "get_tail_size f \<noteq> Err e"
  using assms by (auto simp: errorless_def compute_size_def get_tail_size_def
      split: prod.split res.split pass.split)

lemma errorless_serialize_with: "errorless f \<Longrightarrow> errorless (serialize_with f p)"
  by (auto simp: errorless_def serialize_with_def split: prod.split)

text \<open>The serializer methods dispatch on the pass.\<close>

lemma errorless_pass:
  assumes "\<And>sz d f. errorless (h1 sz d f)" "\<And>n. errorless (h2 n)" "\<And>n. errorless (h3 n)" "errorless h4"
  shows "errorless (\<lambda>s. case pass s of HeadSize sz d f \<Rightarrow> h1 sz d f s | Head n \<Rightarrow> h2 n s
    | TailSize n \<Rightarrow> h3 n s | Tail \<Rightarrow> h4 s)"
  using assms by (auto simp: errorless_def split: pass.split)

declare bindS_lift [simp del] ret_apply [simp del]

lemmas errorless_rules = errorless_bind errorless_lift errorless_serialize_with

lemma errorless_slot: "errorless wr \<Longrightarrow> errorless (serialize_slot b wr)"
  unfolding serialize_slot_def [abs_def]
  by (rule errorless_pass) (auto intro!: errorless_lift)

lemma errorless_str: "errorless (serialize_str b v)"
  unfolding serialize_str_def [abs_def]
  by (rule errorless_pass) (auto intro!: errorless_rules)

lemma errorless_bytes: "errorless (serialize_bytes b v)"
  unfolding serialize_bytes_def [abs_def]
  by (rule errorless_pass) (auto intro!: errorless_rules)

lemma errorless_seq: "errorless (serialize_seq b len)"
  unfolding serialize_seq_def [abs_def]
  by (rule errorless_pass) (cases len; auto intro!: errorless_rules)+

lemma errorless_marker: "errorless (serialize_unit_struct MARK_DYNAMIC_NAME)"
  unfolding serialize_unit_struct_def [abs_def]
  by simp (rule errorless_pass; auto)

lemma errorless_tuple_element:
  assumes "errorless f"
  shows "errorless (serialize_tuple_element b f red)"
  unfolding serialize_tuple_element_def [abs_def]
  by (rule errorless_pass)
    (auto intro!: errorless_rules assms simp: errorless_compute_size [OF assms] split: prod.split)

lemma errorless_elements: "(\<And>f. f \<in> set fs \<Longrightarrow> errorless f) \<Longrightarrow> errorless (serialize_elements b red fs)"
  by (induction fs) (auto intro!: errorless_bind errorless_tuple_element)

declare bindS_lift [simp] ret_apply [simp]

lemma first_some_None: "first_some xs = None \<longleftrightarrow> (\<forall>x\<in>set xs. x = None)"
  by (induction xs) (auto split: option.split)

lemma serialize_errorless: "first_error v = None \<Longrightarrow> errorless (serialize b v)"
proof (induction v)
  case (SUnitStruct name)
  then show ?case by (auto split: if_splits intro: errorless_marker)
next
  case (SSeq len vs)
  then show ?case
    by (auto intro!: errorless_bind errorless_seq errorless_elements simp: first_some_None)
next
  case (SStruct name fs)
  then show ?case
    by (auto intro!: errorless_elements simp: first_some_None snds.simps)
qed (auto intro!: errorless_slot errorless_str errorless_bytes errorless_elements
    errorless_tuple_element simp: first_some_None serialize_slot_defs)

lemma to_writer_internal_error:
  "to_writer_internal b v outer w = (Err e, w') \<longleftrightarrow>
    compute_size (serialize b v) = Err e \<and> w' = w"
proof (cases "first_error v")
  case None
  have "errorless (write_passes b v outer d)" for d
    using serialize_errorless [OF None, of b]
    by (auto simp: write_passes_def intro!: errorless_bind simp del: ret_apply)
  then show ?thesis
    using errorless_compute_size [OF serialize_errorless [OF None, of b]]
    by (auto simp: to_writer_internal_def errorless_def split: res.split prod.split)
next
  case (Some err)
  then show ?thesis
    using sizes_compute_size [OF serialize_sizes [of b v]]
    by (auto simp: to_writer_internal_def)
qed

lemma compute_size_Err_iff:
  "compute_size (serialize b v) = Err e \<Longrightarrow> first_error v = Some e"
  using sizes_compute_size [OF serialize_sizes [of b v]] by auto

text \<open>
  C26: what an unsupported value does.  \<open>to_writer\<close> reports an error only for the first
  unsupported component of the value, and then no slot has been written; in a Release build
  such a value always gives that error (a Debug build may instead panic when the size
  overflows \<open>usize\<close>, but writes nothing either).
\<close>

theorem to_writer_error:
  "(fst (to_writer b v w) = Err e \<longleftrightarrow> to_writer b v w = (Err e, w) \<and> first_error v = Some e) \<and>
   (first_error v = Some e \<longrightarrow> to_writer b v w = (Err e, w) \<or>
      profile b = Debug \<and> to_writer b v w = (Panic, w))"
proof
  have "fst (to_writer b v w) = Err e \<longleftrightarrow> (\<exists>w'. to_writer b v w = (Err e, w'))"
    by (cases "to_writer b v w") auto
  then show "fst (to_writer b v w) = Err e \<longleftrightarrow> to_writer b v w = (Err e, w) \<and> first_error v = Some e"
    using compute_size_Err_iff [of b v e] by (auto simp: to_writer_def to_writer_internal_error)
  show "first_error v = Some e \<longrightarrow> to_writer b v w = (Err e, w) \<or>
      profile b = Debug \<and> to_writer b v w = (Panic, w)"
    using sizes_compute_size [OF serialize_sizes [of b v]]
    by (auto simp: to_writer_def to_writer_internal_def)
qed

theorem to_writer_error_witness:
  "to_writer \<lparr>profile = Release, ptr_width = W64\<rparr>
     (STuple [SU8 1, SSeq None [SChar 65, SNone], SF32 0]) (Slots [])
   = (Err (TypeNotYetSupported ''char''), Slots [])"
  using to_writer_error [of "\<lparr>profile = Release, ptr_width = W64\<rparr>"
      "STuple [SU8 1, SSeq None [SChar 65, SNone], SF32 0]" "Slots []"
      "TypeNotYetSupported ''char''"]
  by simp

section \<open>Slot discipline\<close>

text \<open>
  Whatever the value, the pass and the outcome, a serializer only appends whole slots to its
  writer.
\<close>

definition extends :: "writer \<Rightarrow> writer \<Rightarrow> bool" where
  "extends w w' \<longleftrightarrow> w = NoWriter \<and> w' = NoWriter \<or>
     (\<exists>ws us. w = Slots ws \<and> w' = Slots (ws @ us) \<and> list_all (\<lambda>x. length x = 32) us)"

definition slotted :: "ser \<Rightarrow> bool" where
  "slotted f \<longleftrightarrow> (\<forall>s. extends (writer s) (writer (snd (f s))))"

lemma extends_refl [simp, intro]: "extends w w"
  by (cases w) (auto simp: extends_def)

lemma extends_trans: "extends u v \<Longrightarrow> extends v w \<Longrightarrow> extends u w"
  by (force simp: extends_def)

lemma slotted_bind:
  assumes "slotted f" "\<And>x. slotted (g x)"
  shows "slotted (bindS f g)"
  unfolding slotted_def
proof
  fix s
  have "extends (writer s) (writer (snd (f s)))" using assms(1) by (simp add: slotted_def)
  moreover have "extends (writer (snd (f s))) (writer (snd (g x (snd (f s)))))" for x
    using assms(2) by (simp add: slotted_def)
  ultimately show "extends (writer s) (writer (snd (bindS f g s)))"
    by (auto simp: bindS_def split_beta split: res.split intro: extends_trans)
qed

lemma slotted_lift: "(\<And>x. r = Ok x \<Longrightarrow> slotted (g x)) \<Longrightarrow> slotted (bindS (lift_res r) g)"
  by (auto simp: slotted_def split: res.split)

lemma slotted_write_slot: "length bs = 32 \<Longrightarrow> slotted (write_slot bs)"
  by (auto simp: slotted_def write_slot_def extends_def split: writer.split)

lemma slotted_simple [simp, intro]:
  "slotted (ret ())" "slotted crash" "slotted (set_pass p)" "slotted (fail e)"
  by (auto simp: slotted_def set_pass_def ret_def crash_def fail_def)

lemma slotted_write [simp, intro]:
  "slotted (write_right_aligned v)" "slotted (write_left_aligned_slice v)"
  "slotted (write_signed neg v)"
  by (auto simp: write_right_aligned_def write_left_aligned_slice_def write_signed_def SLOT_SIZE_def
      intro!: slotted_write_slot simp del: crash_apply)

lemma slotted_chunks [simp, intro]: "slotted (write_chunks v)"
proof (induction v rule: write_chunks.induct)
  case (1 v)
  then show ?case
    by (subst write_chunks.simps)
      (auto intro!: slotted_bind slotted_write_slot simp: SLOT_SIZE_def simp del: ret_apply)
qed

lemma slotted_serialize_with: "slotted f \<Longrightarrow> slotted (serialize_with f p)"
  by (simp add: slotted_def serialize_with_def split_beta) (metis select_convs(1))

lemma slotted_pass:
  assumes "\<And>sz d f. slotted (h1 sz d f)" "\<And>n. slotted (h2 n)" "\<And>n. slotted (h3 n)" "slotted h4"
  shows "slotted (\<lambda>s. case pass s of HeadSize sz d f \<Rightarrow> h1 sz d f s | Head n \<Rightarrow> h2 n s
    | TailSize n \<Rightarrow> h3 n s | Tail \<Rightarrow> h4 s)"
  using assms by (auto simp: slotted_def split: pass.split)

declare bindS_lift [simp del] ret_apply [simp del] fail_apply [simp del]

lemmas slotted_rules = slotted_bind slotted_lift slotted_serialize_with

lemma slotted_slot: "slotted wr \<Longrightarrow> slotted (serialize_slot b wr)"
  unfolding serialize_slot_def [abs_def]
  by (rule slotted_pass) (auto intro!: slotted_lift)

lemma slotted_str: "slotted (serialize_str b v)"
  unfolding serialize_str_def [abs_def]
  by (rule slotted_pass) (auto intro!: slotted_rules)

lemma slotted_bytes: "slotted (serialize_bytes b v)"
  unfolding serialize_bytes_def [abs_def]
  by (rule slotted_pass) (auto intro!: slotted_rules)

lemma slotted_seq: "slotted (serialize_seq b len)"
  unfolding serialize_seq_def [abs_def]
  by (rule slotted_pass) (auto intro!: slotted_rules)

lemma slotted_unit_struct: "slotted (serialize_unit_struct name)"
proof (cases "name = MARK_DYNAMIC_NAME")
  case True
  then show ?thesis
    unfolding serialize_unit_struct_def [abs_def] by simp (rule slotted_pass; auto)
qed (simp add: serialize_unit_struct_def [abs_def])

lemma slotted_tuple_element: "slotted f \<Longrightarrow> slotted (serialize_tuple_element b f red)"
  unfolding serialize_tuple_element_def [abs_def]
  by (rule slotted_pass) (auto intro!: slotted_rules split: prod.split)

lemma slotted_elements: "(\<And>f. f \<in> set fs \<Longrightarrow> slotted f) \<Longrightarrow> slotted (serialize_elements b red fs)"
  by (induction fs) (auto intro!: slotted_bind slotted_tuple_element)

lemma serialize_slotted: "slotted (serialize b v)"
proof (induction v)
  case (SStruct name fs)
  then show ?case by (auto intro!: slotted_elements simp: snds.simps)
qed (auto intro!: slotted_slot slotted_str slotted_bytes slotted_seq slotted_unit_struct
    slotted_elements slotted_bind slotted_tuple_element simp: serialize_slot_defs)

lemma slotted_to_writer:
  "slotted (write_passes b v outer d)"
  using serialize_slotted [of b v] by (auto simp: write_passes_def intro!: slotted_bind)

declare bindS_lift [simp] ret_apply [simp] fail_apply [simp]

text \<open>
  C27: slot discipline.  For every value, supported or not, and on every outcome, \<open>to_writer\<close>
  leaves what the writer already holds in place and appends only slots of exactly 32 bytes,
  also when it stops with an error or a panic half-way.
\<close>

theorem to_writer_slots: "extends w (snd (to_writer b v w))"
proof -
  have "extends w (writer (snd (write_passes b v True d \<lparr>writer = w, pass = p\<rparr>)))" for d p
    using slotted_to_writer [of b v True d] unfolding slotted_def by (metis select_convs(1))
  then show ?thesis
    by (auto simp: to_writer_def to_writer_internal_def split_beta split: res.split)
qed

end
