(* ===== verification/Abi_Types.thy ===== *)
theory Abi_Types
  imports Abi_Errors
begin

text \<open>
  The Solidity value types of \<open>src/abiencode/types.rs\<close>, the serde helpers \<open>as_bytes.rs\<close> and
  \<open>as_dyn_array.rs\<close>, and the hash of an encoded value (\<open>src/abiencode/hashing.rs\<close>).  The code
  that comes from other crates (the hash functions of \<open>sha3\<close>, the \<open>U256\<close> arithmetic of
  \<open>uint\<close>, the curve operations of \<open>k256\<close>) is the record \<open>ext\<close>, an argument of every
  definition that uses it; the predicates \<open>u256_spec\<close> and \<open>hash_spec\<close> state the documented
  behaviour the proofs rely on.
\<close>

section \<open>External code\<close>

text \<open>
  A panicking or failing operation is \<open>None\<close>.  \<open>U256::from_big_endian\<close> panics on more than 32
  bytes, \<open>+\<close> and \<open>-\<close> on overflow.  Keys and recoverable signatures are kept as bytes.
\<close>

record ext =
  keccak256 :: "bytes \<Rightarrow> bytes"
  sha3_256 :: "bytes \<Rightarrow> bytes"
  u256_from_big_endian :: "bytes \<Rightarrow> u256 option"
  u256_to_big_endian :: "u256 \<Rightarrow> bytes"
  u256_add :: "u256 \<Rightarrow> u256 \<Rightarrow> u256 option"
  u256_sub :: "u256 \<Rightarrow> u256 \<Rightarrow> u256 option"
  sk_from_bytes :: "bytes \<Rightarrow> bytes option"
  sk_verifying_key :: "bytes \<Rightarrow> bytes"
  vk_encoded_point :: "bytes \<Rightarrow> bytes"
  sk_sign_prehash :: "bytes \<Rightarrow> bytes \<Rightarrow> bytes option"
  sig_from_bytes :: "bytes \<Rightarrow> bytes option"
  sig_recover :: "bytes \<Rightarrow> bytes \<Rightarrow> bytes option"

definition u256_spec :: "ext \<Rightarrow> bool" where
  "u256_spec X \<longleftrightarrow>
     (\<forall>bs. u256_from_big_endian X bs =
        (if length bs \<le> 32 then Some (word_of_nat (be_val bs)) else None)) \<and>
     (\<forall>x. u256_to_big_endian X x = be_bytes 32 (unat x)) \<and>
     (\<forall>x y. u256_add X x y = (if unat x + unat y < 2 ^ 256 then Some (x + y) else None)) \<and>
     (\<forall>x y. u256_sub X x y = (if y \<le> x then Some (x - y) else None))"

definition hash_spec :: "ext \<Rightarrow> bool" where
  "hash_spec X \<longleftrightarrow> (\<forall>m. length (keccak256 X m) = 32) \<and> (\<forall>m. length (sha3_256 X m) = 32)"

lemma u256_from_be_spec:
  "u256_spec X \<Longrightarrow> length bs \<le> 32 \<Longrightarrow> u256_from_big_endian X bs = Some (word_of_nat (be_val bs))"
  by (simp add: u256_spec_def)

lemma u256_to_be_spec: "u256_spec X \<Longrightarrow> u256_to_big_endian X x = be_bytes 32 (unat x)"
  by (simp add: u256_spec_def)

lemma length_u256_to_be: "u256_spec X \<Longrightarrow> length (u256_to_big_endian X x) = 32"
  by (simp add: u256_to_be_spec)

lemma u256_round_trip:
  assumes "u256_spec X"
  shows "u256_from_big_endian X (u256_to_big_endian X x) = Some x"
proof -
  have "unat x < 256 ^ 32" using unat_bound [of x] by simp
  then show ?thesis
    using assms by (simp add: u256_to_be_spec u256_from_be_spec be_val_be_bytes)
qed

lemma u256_to_be_inj:
  assumes "u256_spec X"
  shows "u256_to_big_endian X x = u256_to_big_endian X y \<longleftrightarrow> x = y"
  using u256_round_trip [OF assms] by (metis option.inject)

section \<open>Value types\<close>

text \<open>
  \<open>[u8; N]\<close> newtypes are byte strings of that length: \<open>Hash\<close> and \<open>Bytes32\<close> 32, \<open>Address\<close> 20,
  \<open>Signature\<close> 65.
\<close>

type_synonym hash = bytes
type_synonym address = bytes
type_synonym signature = bytes

definition bytesN_sval :: "bytes \<Rightarrow> sval" where
  "bytesN_sval v = SBytes v"

definition bytesN_default :: "nat \<Rightarrow> bytes" where
  "bytesN_default n = replicate n 0"

definition Signature_new :: "bytes \<Rightarrow> u8 \<Rightarrow> signature" where
  "Signature_new rs v = (rs @ drop 64 (bytesN_default 65))[64 := v]"

definition U256_sval :: "ext \<Rightarrow> u256 \<Rightarrow> sval" where
  "U256_sval X v = SBytes (u256_to_big_endian X v)"

definition Address_sval :: "address \<Rightarrow> sval" where
  "Address_sval a = SBytes (replicate (32 - 20) 0 @ a)"

definition as_bytes_sval :: "bytes \<Rightarrow> sval" where
  "as_bytes_sval v = STuple [DynamicMarker, usize_sval (length v), SBytes v]"

definition as_dyn_array_sval :: "sval list \<Rightarrow> sval" where
  "as_dyn_array_sval vs = SSeq (Some (length vs)) vs"

text \<open>\<open>b.try_into()\<close> from a byte vector to an array of \<open>n\<close> bytes.\<close>

definition try_into_array :: "nat \<Rightarrow> 'e \<Rightarrow> bytes \<Rightarrow> ('e, bytes) res" where
  "try_into_array n e v = (if length v = n then Ok v else Err e)"

lemma try_into_array_Ok [simp]: "try_into_array n e v = Ok w \<longleftrightarrow> length v = n \<and> w = v"
  by (auto simp: try_into_array_def)

lemma try_into_array_not_Panic [simp]: "try_into_array n e v \<noteq> Panic"
  by (simp add: try_into_array_def)

lemma try_into_array_exact [simp]: "length v = n \<Longrightarrow> try_into_array n e v = Ok v"
  by simp

subsection \<open>What they encode to\<close>

lemma abi_of_bytesN [simp]: "abi_of (bytesN_sval v) = Some (AStatic v)"
  by (simp add: bytesN_sval_def)

lemma abi_of_Address [simp]:
  "abi_of (Address_sval a) = Some (AStatic (replicate 12 0 @ a))"
  by (simp add: Address_sval_def)

lemma abi_of_as_bytes [simp]:
  "length v < 2 ^ 64 \<Longrightarrow> abi_of (as_bytes_sval v) = Some (ABytes v)"
  by (simp add: as_bytes_sval_def as_bytes_of_def DynamicMarker_def unat_of_nat)

lemma abi_of_as_dyn_array:
  "list_all2 (\<lambda>v a. abi_of v = Some a) vs as \<Longrightarrow> abi_of (as_dyn_array_sval vs) = Some (AArray as)"
  by (auto simp: as_dyn_array_sval_def those_Some_iff list_all2_conv_all_nth list_eq_iff_nth_eq)

lemma lens_fit_value_types [simp]:
  "lens_fit b (bytesN_sval v)" "lens_fit b (Address_sval a)" "lens_fit b (U256_sval X x)"
  "lens_fit b (as_bytes_sval v)"
  "lens_fit b (as_dyn_array_sval vs) \<longleftrightarrow> length vs < usize_limit b \<and> list_all (lens_fit b) vs"
  by (simp_all add: bytesN_sval_def Address_sval_def U256_sval_def as_bytes_sval_def
      DynamicMarker_def as_dyn_array_sval_def list_all_iff)

text \<open>An address is a right-aligned number, as Solidity has it; a \<open>U256\<close> is a \<open>uint256\<close>.\<close>

lemma abi_enc_Address: "length a = 20 \<Longrightarrow> abi_enc (AStatic (replicate 12 0 @ a)) = uint256 (be_val a)"
proof -
  assume a: "length a = 20"
  have "be_bytes 20 (be_val a) = a" using be_bytes_be_val [of a] a by simp
  moreover have "be_val a < 256 ^ 20" using be_val_less [of a] a by simp
  ultimately show ?thesis
    using a be_bytes_zero_extend [of "be_val a" 20 12] by (simp add: pad32_full uint256_def)
qed

lemma abi_of_U256 [simp]: "u256_spec X \<Longrightarrow> abi_of (U256_sval X x) = Some (AStatic (uint256 (unat x)))"
  by (simp add: U256_sval_def u256_to_be_spec uint256_def)

lemma abi_enc_uint256 [simp]: "pad32 (uint256 n) = uint256 n"
  by (simp add: pad32_full)

section \<open>Hashing an encoded value\<close>

text \<open>
  \<open>Keccak256Writer\<close> feeds every slot to the hasher; \<open>finalize\<close> is the digest of the
  concatenation of the updates.
\<close>

definition Keccak256Writer_default :: writer where
  "Keccak256Writer_default = Slots []"

definition Keccak256Writer_finalize :: "ext \<Rightarrow> writer \<Rightarrow> ('e, hash) res" where
  "Keccak256Writer_finalize X w = (case w of Slots ws \<Rightarrow> Ok (keccak256 X (concat ws)) | NoWriter \<Rightarrow> Panic)"

definition to_hash :: "build \<Rightarrow> ext \<Rightarrow> sval \<Rightarrow> (error, hash) res" where
  "to_hash b X value = (case to_writer b value Keccak256Writer_default of
     (Ok _, w) \<Rightarrow> Keccak256Writer_finalize X w
   | (Err e, _) \<Rightarrow> Err e
   | (Panic, _) \<Rightarrow> Panic)"

lemma to_hash_abi:
  assumes "abi_of v = Some a" "lens_fit b v" "length (abi_enc a) < usize_limit b"
  shows "to_hash b X v = Ok (keccak256 X (abi_encode a))"
  using to_writer_internal_abi [OF assms, of True "[]"]
  by (simp add: to_hash_def Keccak256Writer_default_def Keccak256Writer_finalize_def to_writer_def)

lemma to_hash_length: "hash_spec X \<Longrightarrow> to_hash b X v = Ok h \<Longrightarrow> length h = 32"
  by (auto simp: to_hash_def Keccak256Writer_finalize_def hash_spec_def
      split: prod.splits res.splits writer.splits)

end
