(* ===== verification/Sig.thy ===== *)
theory Sig
  imports Abi_Types
begin

text \<open>
  Ethereum signatures: the signed-message prefix of \<open>src/sig.rs\<close> and the \<open>Signer\<close> of
  \<open>src/sig/k256.rs\<close> (the implementation the crate selects by default).  \<open>crypto_spec\<close> states
  what the \<open>k256\<close> crate documents of the curve operations used here.
\<close>

unbundle bit_operations_syntax

section \<open>The signed-message hash\<close>

text \<open>The 28 bytes \<open>\x19Ethereum Signed Message:\n32\<close>.\<close>

definition eth_prefix :: bytes where
  "eth_prefix = [0x19, 0x45, 0x74, 0x68, 0x65, 0x72, 0x65, 0x75, 0x6d, 0x20, 0x53, 0x69, 0x67,
     0x6e, 0x65, 0x64, 0x20, 0x4d, 0x65, 0x73, 0x73, 0x61, 0x67, 0x65, 0x3a, 0x0a, 0x33, 0x32]"

definition hash_to_eth_signed_msg_hash :: "ext \<Rightarrow> hash \<Rightarrow> hash" where
  "hash_to_eth_signed_msg_hash X h = keccak256 X (eth_prefix @ h)"

section \<open>The signer\<close>

record signer =
  sg_key :: bytes
  sg_addr :: address

text \<open>\<open>Address::from(VerifyingKey)\<close> panics unless the encoded point has 65 bytes.\<close>

definition Address_from_vk :: "ext \<Rightarrow> bytes \<Rightarrow> ('e, address) res" where
  "Address_from_vk X vk =
     (let pk_bytes = vk_encoded_point X vk in
      if length pk_bytes = 65 then Ok (drop (32 - 20) (keccak256 X (drop 1 pk_bytes))) else Panic)"

definition private_key_bytes :: bytes where
  "private_key_bytes =
     [0x24, 0x4F, 0xFC, 0x73, 0xC4, 0x48, 0xB5, 0x6D,
      0xDB, 0xA6, 0xA7, 0xBF, 0xA8, 0xD5, 0x8E, 0xD3,
      0x60, 0x12, 0x61, 0x1D, 0xA8, 0x3D, 0x4C, 0xB8,
      0x30, 0x25, 0xEA, 0x12, 0xAC, 0xCF, 0x49, 0xFE]"

definition Signer_new :: "ext \<Rightarrow> 'rng \<Rightarrow> ('e, signer) res" where
  "Signer_new X rng =
     bind_res (unwrap (sk_from_bytes X private_key_bytes)) (\<lambda>key.
     bind_res (Address_from_vk X (sk_verifying_key X key)) (\<lambda>addr.
     Ok \<lparr>sg_key = key, sg_addr = addr\<rparr>))"

definition Signer_address :: "signer \<Rightarrow> address" where
  "Signer_address s = sg_addr s"

definition sign_eth :: "build \<Rightarrow> ext \<Rightarrow> signer \<Rightarrow> hash \<Rightarrow> ('e, signature) res" where
  "sign_eth b X s msg =
     bind_res (unwrap (sk_sign_prehash X (sg_key s) (hash_to_eth_signed_msg_hash X msg))) (\<lambda>sig_bytes.
     if length sig_bytes = 65 then
       bind_res (debug_assert b ((sig_bytes ! 32) AND 0x80 = 0)) (\<lambda>_.
       bind_res (u8_add b (sig_bytes ! 64) 27) (\<lambda>v.
       Ok (sig_bytes[64 := v])))
     else Panic)"

text \<open>The only error of \<open>recover_signer\<close> is the \<open>k256\<close> error of the recovery.\<close>

datatype sig_error = SigError

definition recover_signer :: "build \<Rightarrow> ext \<Rightarrow> hash \<Rightarrow> signature \<Rightarrow> (sig_error, address) res" where
  "recover_signer b X msg eth_sig =
     bind_res (u8_sub b (eth_sig ! 64) 27) (\<lambda>v.
     bind_res (unwrap (sig_from_bytes X (eth_sig[64 := v]))) (\<lambda>sig.
     bind_res (ok_or SigError (sig_recover X sig (hash_to_eth_signed_msg_hash X msg))) (\<lambda>vk.
     Address_from_vk X vk)))"

section \<open>What the curve library promises\<close>

text \<open>
  A signing key made by \<open>SigningKey::from_bytes\<close> signs every 32-byte digest; the recoverable
  signature has 65 bytes, a recovery id of 0 or 1 in the last one and a low \<open>s\<close>, is accepted by
  \<open>from_bytes\<close>, and recovers to the verifying key of the signing key.  An uncompressed point
  has 65 bytes.
\<close>

definition good_signature :: "ext \<Rightarrow> bytes \<Rightarrow> bytes \<Rightarrow> bytes \<Rightarrow> bool" where
  "good_signature X sk h sig \<longleftrightarrow> length sig = 65 \<and> sig ! 64 \<le> 1 \<and> (sig ! 32) AND 0x80 = 0 \<and>
     (\<exists>sig'. sig_from_bytes X sig = Some sig' \<and> sig_recover X sig' h = Some (sk_verifying_key X sk))"

definition crypto_spec :: "ext \<Rightarrow> bool" where
  "crypto_spec X \<longleftrightarrow> hash_spec X \<and> (\<forall>vk. length (vk_encoded_point X vk) = 65) \<and>
     (\<forall>bs sk h. sk_from_bytes X bs = Some sk \<longrightarrow> length h = 32 \<longrightarrow>
        (\<exists>sig. sk_sign_prehash X sk h = Some sig \<and> good_signature X sk h sig))"

text \<open>The signers that \<open>Signer::new\<close> builds: a valid key and its address.\<close>

definition signer_ok :: "ext \<Rightarrow> signer \<Rightarrow> bool" where
  "signer_ok X s \<longleftrightarrow> (\<exists>bs. sk_from_bytes X bs = Some (sg_key s)) \<and>
     Address_from_vk X (sk_verifying_key X (sg_key s)) = (Ok (sg_addr s) :: (unit, address) res)"

lemma Address_from_vk_Ok: "Address_from_vk X vk = (Ok a :: (unit, address) res) \<Longrightarrow>
    Address_from_vk X vk = (Ok a :: ('e, address) res)"
  by (auto simp: Address_from_vk_def Let_def split: if_splits)

lemma Address_from_vk_length:
  "hash_spec X \<Longrightarrow> Address_from_vk X vk = Ok a \<Longrightarrow> length a = 20"
  by (auto simp: Address_from_vk_def Let_def hash_spec_def split: if_splits)

lemma hash_to_eth_length: "hash_spec X \<Longrightarrow> length (hash_to_eth_signed_msg_hash X h) = 32"
  by (simp add: hash_to_eth_signed_msg_hash_def hash_spec_def)

text \<open>The generator makes no difference.\<close>

lemma Signer_new_same:
  "Signer_new X r = (Ok s :: ('e, signer) res) \<Longrightarrow> Signer_new X r' = (Ok s' :: ('f, signer) res) \<Longrightarrow> s' = s"
  by (auto simp: Signer_new_def Address_from_vk_def bind_res_Ok_iff Let_def split: if_splits)

lemma Signer_new_ok:
  assumes "crypto_spec X" "sk_from_bytes X private_key_bytes \<noteq> None"
  obtains s where "Signer_new X rng = Ok s" "signer_ok X s"
proof -
  from assms(2) obtain key where "sk_from_bytes X private_key_bytes = Some key" by auto
  then show ?thesis
    using assms(1) that
    by (force simp: Signer_new_def signer_ok_def Address_from_vk_def Let_def crypto_spec_def)
qed

lemma Signer_new_signer_ok: "Signer_new X rng = (Ok s :: ('e, signer) res) \<Longrightarrow> signer_ok X s"
  by (auto simp: Signer_new_def signer_ok_def Address_from_vk_def bind_res_Ok_iff Let_def split: if_splits)

lemma recovery_id_shift:
  fixes v :: u8
  assumes "v \<le> 1"
  shows "u8_add b v 27 = Ok (v + 27)" "u8_sub b (v + 27) 27 = Ok v" "v + 27 \<in> {27, 28}"
proof -
  have "unat v = 0 \<or> unat v = 1" using assms by (auto simp: word_le_nat_alt)
  then have "v \<in> {0, 1}" by (metis insertCI unat_1 unat_eq_zero word_unat_eq_iff)
  then show "u8_add b v 27 = Ok (v + 27)" "u8_sub b (v + 27) 27 = Ok v" "v + 27 \<in> {27, 28}"
    by (auto simp: u8_add_def u8_sub_def)
qed

lemma sign_recover:
  assumes "crypto_spec X" "signer_ok X s"
  obtains sig where "sign_eth b X s h = Ok sig" "length sig = 65" "sig ! 64 \<in> {27, 28}"
    "recover_signer b X h sig = Ok (sg_addr s)"
proof -
  let ?h = "hash_to_eth_signed_msg_hash X h"
  have "length ?h = 32" using assms(1) by (intro hash_to_eth_length) (simp add: crypto_spec_def)
  with assms obtain sig where sig: "sk_sign_prehash X (sg_key s) ?h = Some sig"
    and good: "good_signature X (sg_key s) ?h sig"
    unfolding crypto_spec_def signer_ok_def by blast
  from good obtain sig' where g: "length sig = 65" "sig ! 64 \<le> 1" "(sig ! 32) AND 0x80 = 0"
    "sig_from_bytes X sig = Some sig'" "sig_recover X sig' ?h = Some (sk_verifying_key X (sg_key s))"
    unfolding good_signature_def by blast
  have "sign_eth b X s h = Ok (sig[64 := sig ! 64 + 27])"
    by (simp add: sign_eth_def sig g recovery_id_shift)
  moreover have "sig[64 := sig ! 64 + 27, 64 := sig ! 64] = sig" by simp
  then have "recover_signer b X h (sig[64 := sig ! 64 + 27]) = Ok (sg_addr s)"
    using assms(2) Address_from_vk_Ok
    by (auto simp: recover_signer_def g recovery_id_shift signer_ok_def)
  moreover have "sig[64 := sig ! 64 + 27] ! 64 \<in> {27, 28}"
    using recovery_id_shift(3) [OF g(2)] g(1) by simp
  ultimately show ?thesis using that [of "sig[64 := sig ! 64 + 27]"] g(1) by simp
qed

section \<open>A model of the external code\<close>

text \<open>
  A concrete record that meets the specifications: they are consistent, and the properties
  that assume them can be evaluated.  Its keys sign by writing themselves next to the digest.
\<close>

definition toy_hash :: "bytes \<Rightarrow> bytes" where
  "toy_hash m = take 32 (rev m @ replicate 32 0)"

definition toy_ext :: ext where
  "toy_ext = \<lparr>
     keccak256 = toy_hash,
     sha3_256 = toy_hash,
     u256_from_big_endian = (\<lambda>bs. if length bs \<le> 32 then Some (word_of_nat (be_val bs)) else None),
     u256_to_big_endian = (\<lambda>x. be_bytes 32 (unat x)),
     u256_add = (\<lambda>x y. if unat x + unat y < 2 ^ 256 then Some (x + y) else None),
     u256_sub = (\<lambda>x y. if y \<le> x then Some (x - y) else None),
     sk_from_bytes = (\<lambda>bs. if length bs = 32 then Some bs else None),
     sk_verifying_key = (\<lambda>sk. sk),
     vk_encoded_point = (\<lambda>vk. 4 # replicate 32 0 @ take 32 (vk @ replicate 32 0)),
     sk_sign_prehash = (\<lambda>sk h. Some (sk @ [0] @ take 31 h @ [0])),
     sig_from_bytes = (\<lambda>s. if length s = 65 \<and> s ! 64 \<le> 1 then Some s else None),
     sig_recover = (\<lambda>s h. if take 31 (drop 33 s) = take 31 h then Some (take 32 s) else None)\<rparr>"

lemma toy_u256_spec: "u256_spec toy_ext"
  by (simp add: u256_spec_def toy_ext_def)

lemma toy_hash_spec: "hash_spec toy_ext"
  by (simp add: hash_spec_def toy_ext_def toy_hash_def min_def)

lemma toy_crypto_spec: "crypto_spec toy_ext"
proof -
  have "good_signature toy_ext sk h (sk @ 0 # take 31 h @ [0])"
    if "length sk = 32" "length h = 32" for sk h
    using that by (simp add: good_signature_def toy_ext_def nth_append)
  then show ?thesis
    by (auto simp: crypto_spec_def toy_hash_spec) (simp_all add: toy_ext_def split: if_splits)
qed

definition toy_signer :: "u8 \<Rightarrow> signer" where
  "toy_signer k = \<lparr>sg_key = replicate 32 k, sg_addr = replicate 20 k\<rparr>"

lemma toy_signer_ok: "signer_ok toy_ext (toy_signer k)"
  by (auto simp: signer_ok_def toy_signer_def toy_ext_def Address_from_vk_def toy_hash_def
      intro!: exI [of _ "replicate 32 k"])

text \<open>
  C24: signatures verify.  For every signer that \<open>Signer::new\<close> can build, \<open>sign_eth\<close> does not
  panic in either build profile, produces a 65-byte signature whose \<open>v\<close> is the EVM's 27 or 28,
  and \<open>recover_signer\<close> on the same message gives back the signer's address.
\<close>

theorem sign_then_recover:
  assumes "crypto_spec X" "signer_ok X s"
  shows "\<exists>sig. sign_eth b X s h = (Ok sig :: ('e, signature) res) \<and> length sig = 65 \<and>
    sig ! 64 \<in> {27, 28} \<and> recover_signer b X h sig = Ok (Signer_address s)"
  using sign_recover [OF assms] by (metis Signer_address_def)

theorem sign_then_recover_witness:
  "\<exists>sig. sign_eth \<lparr>profile = Debug, ptr_width = W32\<rparr> toy_ext (toy_signer 7) (replicate 32 1)
      = (Ok sig :: (unit, signature) res) \<and> length sig = 65 \<and> sig ! 64 \<in> {27, 28} \<and>
    recover_signer \<lparr>profile = Debug, ptr_width = W32\<rparr> toy_ext (replicate 32 1) sig
      = Ok (replicate 20 7)"
  using sign_then_recover [OF toy_crypto_spec toy_signer_ok [of 7], where b = "\<lparr>profile = Debug, ptr_width = W32\<rparr>"
      and h = "replicate 32 1"]
  by (simp add: Signer_address_def toy_signer_def)

text \<open>
  The recovery id comes from the wire.  A signature whose last byte is below 27 makes
  \<open>recover_signer\<close> panic in a Debug build before the curve library sees it.
\<close>

lemma recover_signer_small_v:
  assumes "profile b = Debug" "eth_sig ! 64 < 27"
  shows "recover_signer b X msg eth_sig = Panic"
proof -
  have "u8_sub b (eth_sig ! 64) 27 = (Panic :: (sig_error, u8) res)"
    using assms by (simp add: u8_sub_def leD)
  then show ?thesis by (simp add: recover_signer_def)
qed

end
