(* ===== verification/Sig_Secp.thy ===== *)
theory Sig_Secp
  imports Sig
begin

text \<open>
  The two other signers of the crate: \<open>src/sig/secp256k1.rs\<close>, a binding of the C library, and
  \<open>src/sig/dummy.rs\<close>, the fallback that panics.  The interface all signers offer to the channel
  code is the locale \<open>eth_signer\<close>; the \<open>k256\<close> signer and the \<open>secp256k1\<close> signer are interpreted in it.
  \<open>Signer::new\<close> of \<open>secp256k1.rs\<close> names a variable that does not exist and so has no
  behaviour to model; the signers it would build are described by \<open>secp_signer_ok\<close>.
\<close>

section \<open>The C library\<close>

text \<open>
  What the source calls of the \<open>secp256k1\<close> crate.  A recovery id is an \<open>i32\<close>; keys, signatures and
  points are opaque byte strings, errors opaque strings.
\<close>

type_synonym secp_error = string

record secp_lib =
  secp_sk_from_slice :: "bytes \<Rightarrow> secp_error + bytes"
  secp_public_key :: "bytes \<Rightarrow> bytes"
  secp_sign_ecdsa_recoverable :: "bytes \<Rightarrow> bytes \<Rightarrow> bytes"
  secp_serialize_compact :: "bytes \<Rightarrow> u32 \<times> bytes"
  secp_recid_from_i32 :: "u32 \<Rightarrow> secp_error + u32"
  secp_from_compact :: "bytes \<Rightarrow> u32 \<Rightarrow> secp_error + bytes"
  secp_recover_ecdsa :: "bytes \<Rightarrow> bytes \<Rightarrow> secp_error + bytes"
  secp_serialize_uncompressed :: "bytes \<Rightarrow> bytes"

primrec from_result :: "'e + 'a \<Rightarrow> ('e, 'a) res" where
  "from_result (Inl e) = Err e"
| "from_result (Inr x) = Ok x"

lemma from_result_Ok_iff [simp]: "from_result r = Ok x \<longleftrightarrow> r = Inr x"
  by (cases r) auto

lemma from_result_not_Panic [simp]: "from_result r \<noteq> Panic"
  by (cases r) auto

section \<open>The signer\<close>

record secp_signer =
  ss_sk :: bytes
  ss_addr :: address

text \<open>\<open>Address::from(PublicKey)\<close>: the uncompressed key is an array of 65 bytes, so the slice cannot fail.\<close>

definition Address_from_pk :: "ext \<Rightarrow> secp_lib \<Rightarrow> bytes \<Rightarrow> address" where
  "Address_from_pk X L pk =
     drop (32 - 20) (keccak256 X (drop 1 (secp_serialize_uncompressed L pk)))"

definition secp_address :: "secp_signer \<Rightarrow> address" where
  "secp_address s = ss_addr s"

definition secp_sign_eth ::
    "build \<Rightarrow> ext \<Rightarrow> secp_lib \<Rightarrow> secp_signer \<Rightarrow> hash \<Rightarrow> ('e, signature) res" where
  "secp_sign_eth b X L s msg =
     (let hash = hash_to_eth_signed_msg_hash X msg;
          sig = secp_sign_ecdsa_recoverable L hash (ss_sk s);
          (v, rs) = secp_serialize_compact L sig
      in
       bind_res (debug_assert b ((rs ! 32) AND 0x80 = 0)) (\<lambda>_.
       bind_res (u8_add b 27 (ucast v)) (\<lambda>v.
       Ok (Signature_new rs v))))"

definition secp_recover_signer ::
    "build \<Rightarrow> ext \<Rightarrow> secp_lib \<Rightarrow> hash \<Rightarrow> signature \<Rightarrow> (secp_error, address) res" where
  "secp_recover_signer b X L hash eth_sig =
     (let hash = hash_to_eth_signed_msg_hash X hash;
          rs = take 64 eth_sig
      in
       bind_res (u8_sub b (eth_sig ! 64) 27) (\<lambda>v.
       bind_res (from_result (secp_recid_from_i32 L (ucast v))) (\<lambda>recid.
       bind_res (from_result (secp_from_compact L rs recid)) (\<lambda>sig.
       bind_res (from_result (secp_recover_ecdsa L hash sig)) (\<lambda>pk.
       Ok (Address_from_pk X L pk))))))"

section \<open>The dummy signer\<close>

text \<open>Every method of the fallback is \<open>unimplemented!()\<close>.\<close>

definition dummy_new :: "'rng \<Rightarrow> ('e, unit) res" where
  "dummy_new rng = Panic"

definition dummy_address :: "unit \<Rightarrow> ('e, address) res" where
  "dummy_address s = Panic"

definition dummy_sign_eth :: "unit \<Rightarrow> hash \<Rightarrow> ('e, signature) res" where
  "dummy_sign_eth s msg = Panic"

definition dummy_recover_signer :: "unit \<Rightarrow> hash \<Rightarrow> signature \<Rightarrow> ('e, address) res" where
  "dummy_recover_signer s hash eth_sig = Panic"

section \<open>What the C library promises\<close>

text \<open>
  A secret key made by \<open>from_slice\<close> signs every 32-byte message; the compact form has 64 bytes, a low
  \<open>s\<close> and a recovery id of at most 3, which is a valid id; the signature is read back by
  \<open>from_compact\<close> and recovers to the public key of the secret key.  An uncompressed key has 65 bytes.
\<close>

definition secp_good_signature :: "secp_lib \<Rightarrow> bytes \<Rightarrow> bytes \<Rightarrow> u32 \<Rightarrow> bytes \<Rightarrow> bool" where
  "secp_good_signature L sk h v rs \<longleftrightarrow> length rs = 64 \<and> unat v \<le> 3 \<and> (rs ! 32) AND 0x80 = 0 \<and>
     secp_recid_from_i32 L v = Inr v \<and>
     (\<exists>sig. secp_from_compact L rs v = Inr sig \<and>
       secp_recover_ecdsa L h sig = Inr (secp_public_key L sk))"

definition secp_spec :: "secp_lib \<Rightarrow> bool" where
  "secp_spec L \<longleftrightarrow> (\<forall>pk. length (secp_serialize_uncompressed L pk) = 65) \<and>
     (\<forall>bs sk h. secp_sk_from_slice L bs = Inr sk \<longrightarrow> length h = 32 \<longrightarrow>
        (\<exists>v rs. secp_serialize_compact L (secp_sign_ecdsa_recoverable L h sk) = (v, rs) \<and>
          secp_good_signature L sk h v rs))"

definition secp_signer_ok :: "ext \<Rightarrow> secp_lib \<Rightarrow> secp_signer \<Rightarrow> bool" where
  "secp_signer_ok X L s \<longleftrightarrow> (\<exists>bs. secp_sk_from_slice L bs = Inr (ss_sk s)) \<and>
     ss_addr s = Address_from_pk X L (secp_public_key L (ss_sk s))"

section \<open>The interface of a signer\<close>

text \<open>
  What the channel code relies on: signing succeeds, gives 65 bytes with a recovery byte of at least
  27, and the recovery on the same message returns the signer's address.
\<close>

locale eth_signer =
  fixes ok :: "'s \<Rightarrow> bool" and address_of :: "'s \<Rightarrow> address"
    and sign_msg :: "'s \<Rightarrow> hash \<Rightarrow> (unit, signature) res"
    and recover :: "hash \<Rightarrow> signature \<Rightarrow> ('r, address) res"
  assumes sign_recovers: "ok s \<Longrightarrow> \<exists>sig. sign_msg s h = Ok sig \<and> length sig = 65 \<and>
    27 \<le> sig ! 64 \<and> recover h sig = Ok (address_of s)"
begin

lemma signature_recovers:
  assumes "ok s" "sign_msg s h = Ok sig"
  shows "length sig = 65" "27 \<le> sig ! 64" "recover h sig = Ok (address_of s)"
  using sign_recovers [OF assms(1), of h] assms(2) by auto

lemma signature_determines_address:
  "ok s \<Longrightarrow> ok t \<Longrightarrow> sign_msg s h = Ok sig \<Longrightarrow> sign_msg t h = Ok sig \<Longrightarrow> address_of s = address_of t"
  by (metis signature_recovers(3) res.inject(1))

end

lemma recovery_byte_shift:
  fixes v :: u32
  assumes "unat v \<le> 3"
  shows "u8_add b 27 (ucast v) = Ok (27 + ucast v)" "u8_sub b (27 + ucast v) 27 = Ok (ucast v)"
    "27 \<le> (27 + ucast v :: u8)" "ucast (ucast v :: u8) = v"
proof -
  have "unat v = 0 \<or> unat v = 1 \<or> unat v = 2 \<or> unat v = 3" using assms by auto
  then have "v \<in> {0, 1, 2, 3}" by (simp add: word_unat_eq_iff)
  then show "u8_add b 27 (ucast v) = Ok (27 + ucast v)"
    "u8_sub b (27 + ucast v) 27 = Ok (ucast v)" "27 \<le> (27 + ucast v :: u8)"
    "ucast (ucast v :: u8) = v"
    by (auto simp: u8_add_def u8_sub_def)
qed

lemma secp_sign_recover:
  assumes "hash_spec X" "secp_spec L" "secp_signer_ok X L s"
  obtains sig where "secp_sign_eth b X L s h = Ok sig" "length sig = 65" "27 \<le> sig ! 64"
    "secp_recover_signer b X L h sig = Ok (ss_addr s)"
proof -
  let ?h = "hash_to_eth_signed_msg_hash X h"
  have "length ?h = 32" by (rule hash_to_eth_length [OF assms(1)])
  then obtain v rs where
    c: "secp_serialize_compact L (secp_sign_ecdsa_recoverable L ?h (ss_sk s)) = (v, rs)"
    and good: "secp_good_signature L (ss_sk s) ?h v rs"
    using assms(2,3) unfolding secp_spec_def secp_signer_ok_def by blast
  let ?sig = "rs @ [27 + ucast v]"
  have rs: "length rs = 64" and v: "unat v \<le> 3" using good by (auto simp: secp_good_signature_def)
  have new: "Signature_new rs w = rs @ [w]" for w
    using rs by (simp add: Signature_new_def bytesN_default_def list_update_append)
  have "secp_sign_eth b X L s h = Ok ?sig"
    using good by (simp add: secp_sign_eth_def c new recovery_byte_shift [OF v] secp_good_signature_def)
  moreover have "secp_recover_signer b X L h ?sig = Ok (ss_addr s)"
    using good assms(3) rs
    by (auto simp: secp_recover_signer_def nth_append recovery_byte_shift [OF v]
        secp_good_signature_def secp_signer_ok_def)
  ultimately show ?thesis
    using that [of ?sig] rs recovery_byte_shift(3) [OF v] by (simp add: nth_append)
qed

interpretation k256: eth_signer "\<lambda>s. crypto_spec X \<and> signer_ok X s" Signer_address "sign_eth b X"
    "recover_signer b X" for b X
proof unfold_locales
  fix s h assume "crypto_spec X \<and> signer_ok X s"
  then obtain sig where "sign_eth b X s h = (Ok sig :: (unit, signature) res)" "length sig = 65"
    "sig ! 64 \<in> {27, 28}" "recover_signer b X h sig = Ok (sg_addr s)"
    by (metis sign_recover)
  then show "\<exists>sig. sign_eth b X s h = (Ok sig :: (unit, signature) res) \<and> length sig = 65 \<and>
      27 \<le> sig ! 64 \<and> recover_signer b X h sig = Ok (Signer_address s)"
    by (auto simp: Signer_address_def)
qed

interpretation secp: eth_signer "\<lambda>s. hash_spec X \<and> secp_spec L \<and> secp_signer_ok X L s" secp_address
    "secp_sign_eth b X L" "secp_recover_signer b X L" for b X L
  by unfold_locales (metis secp_sign_recover secp_address_def)

section \<open>A model of the C library\<close>

text \<open>The toy signatures of \<open>toy_ext\<close>, in compact form.\<close>

definition toy_secp :: secp_lib where
  "toy_secp = \<lparr>
     secp_sk_from_slice = (\<lambda>bs. if length bs = 32 then Inr bs else Inl ''InvalidSecretKey''),
     secp_public_key = (\<lambda>sk. sk),
     secp_sign_ecdsa_recoverable = (\<lambda>h sk. sk @ [0] @ take 31 h @ [0]),
     secp_serialize_compact = (\<lambda>sig. (ucast (sig ! 64), take 64 sig)),
     secp_recid_from_i32 = (\<lambda>i. if unat i < 4 then Inr i else Inl ''InvalidRecoveryId''),
     secp_from_compact = (\<lambda>rs i. if length rs = 64 then Inr (rs @ [ucast i]) else Inl ''InvalidSignature''),
     secp_recover_ecdsa = (\<lambda>h s. if take 31 (drop 33 s) = take 31 h then Inr (take 32 s)
       else Inl ''InvalidSignature''),
     secp_serialize_uncompressed = (\<lambda>pk. 4 # replicate 32 0 @ take 32 (pk @ replicate 32 0))\<rparr>"

definition toy_secp_signer :: "u8 \<Rightarrow> secp_signer" where
  "toy_secp_signer k = \<lparr>ss_sk = replicate 32 k, ss_addr = replicate 20 k\<rparr>"

lemma toy_secp_spec: "secp_spec toy_secp"
  by (auto simp: secp_spec_def toy_secp_def secp_good_signature_def nth_append split: if_splits)

lemma toy_secp_signer_ok: "secp_signer_ok toy_ext toy_secp (toy_secp_signer k)"
  by (auto simp: secp_signer_ok_def toy_secp_signer_def toy_secp_def toy_ext_def Address_from_pk_def
      toy_hash_def intro!: exI [of _ "replicate 32 k"])

text \<open>
  A signature of the \<open>secp256k1\<close> signer has 65 bytes, a recovery byte of at least 27 and recovers to
  the signer's address, and recovering panics on no signature with such a byte.
\<close>

lemma secp_signature_recovers:
  assumes "hash_spec X" "secp_spec L" "secp_signer_ok X L s"
    "secp_sign_eth b X L s h = (Ok sig :: (unit, signature) res)"
  shows "length sig = 65 \<and> 27 \<le> sig ! 64 \<and> secp_recover_signer b X L h sig = Ok (secp_address s)"
  using secp.signature_recovers assms by blast

lemma secp_recover_never_panics: "27 \<le> sig ! 64 \<Longrightarrow> secp_recover_signer b X L h sig \<noteq> Panic"
  by (auto simp: secp_recover_signer_def Let_def bind_res_Panic_iff u8_sub_def)

lemma secp_signature_example:
  assumes "secp_sign_eth b toy_ext toy_secp (toy_secp_signer 8) h = (Ok sig :: (unit, signature) res)"
  shows "secp_recover_signer b toy_ext toy_secp h sig = Ok (replicate 20 8)"
proof -
  have "hash_spec toy_ext" using toy_crypto_spec by (simp add: crypto_spec_def)
  from secp_signature_recovers [OF this toy_secp_spec toy_secp_signer_ok assms] show ?thesis
    by (simp add: secp_address_def toy_secp_signer_def)
qed

end
