(* ===== verification/Payment.thy ===== *)
theory Payment
  imports Sig
begin

text \<open>
  The on-chain data types of \<open>src/channel/fixed_size_payment.rs\<close> and \<open>Asset\<close> of
  \<open>src/channel.rs\<close>: parameters, states, allocations, their serialization, their operations and
  their conversion from and to the \<open>perunwire\<close> messages.  The const generics \<open>A\<close> and \<open>P\<close> are
  the lengths of the lists; conversions that build an array take them as arguments.  A field
  of type \<open>[(); 0]\<close> or \<open>[u8; 0]\<close> has one value and is a \<open>unit\<close>.
\<close>

section \<open>Data\<close>

record asset =
  as_holder :: address

record params =
  pa_challenge_duration :: u64
  pa_nonce :: u256
  pa_participants :: "address list"
  pa_app :: address
  pa_ledger_channel :: bool
  pa_virtual_channel :: bool

type_synonym participant_balances = "u256 list"
type_synonym balances = "participant_balances list"

record allocation =
  al_assets :: "asset list"
  al_balances :: balances
  al_locked :: unit

record state =
  st_id :: hash
  st_version :: u64
  st_outcome :: allocation
  st_app_data :: unit
  st_is_final :: bool

datatype conversion_error =
    ParticipantSizeMissmatch
  | AssetSizeMissmatch
  | ByteLengthMissmatch
  | ExptectedSome
  | StateChannelsNotSupported

text \<open>
  The messages generated from the protocol buffer definitions, with the fields the sources
  give them.
\<close>

record w_params =
  wp_id :: bytes
  wp_challenge_duration :: u64
  wp_nonce :: bytes
  wp_parts :: "bytes list"
  wp_app :: bytes
  wp_ledger_channel :: bool
  wp_virtual_channel :: bool

record w_balance = wb_balance :: "bytes list"

record w_balances = wbs_balances :: "w_balance list"

record w_allocation =
  wa_assets :: "bytes list"
  wa_balances :: "w_balances option"
  wa_locked :: "unit list"

record w_state =
  ws_id :: bytes
  ws_version :: u64
  ws_allocation :: "w_allocation option"
  ws_app :: bytes
  ws_data :: bytes
  ws_is_final :: bool

section \<open>Serialization\<close>

definition Asset_sval :: "asset \<Rightarrow> sval" where
  "Asset_sval a = SStruct ''Asset'' [(''holder'', Address_sval (as_holder a))]"

definition Params_sval :: "ext \<Rightarrow> params \<Rightarrow> sval" where
  "Params_sval X p = SStruct ''Params''
     [(''challenge_duration'', SU64 (pa_challenge_duration p)),
      (''nonce'', U256_sval X (pa_nonce p)),
      (''participants'', as_dyn_array_sval (map Address_sval (pa_participants p))),
      (''app'', Address_sval (pa_app p)),
      (''ledger_channel'', SBool (pa_ledger_channel p)),
      (''virtual_channel'', SBool (pa_virtual_channel p))]"

definition ParticipantBalances_sval :: "ext \<Rightarrow> participant_balances \<Rightarrow> sval" where
  "ParticipantBalances_sval X bals = as_dyn_array_sval (map (U256_sval X) bals)"

definition Balances_sval :: "ext \<Rightarrow> balances \<Rightarrow> sval" where
  "Balances_sval X bals = as_dyn_array_sval (map (ParticipantBalances_sval X) bals)"

definition Allocation_sval :: "ext \<Rightarrow> allocation \<Rightarrow> sval" where
  "Allocation_sval X al = SStruct ''Allocation''
     [(''assets'', as_dyn_array_sval (map Asset_sval (al_assets al))),
      (''balances'', Balances_sval X (al_balances al)),
      (''locked'', as_dyn_array_sval [])]"

definition State_sval :: "ext \<Rightarrow> state \<Rightarrow> sval" where
  "State_sval X s = SStruct ''State''
     [(''id'', bytesN_sval (st_id s)),
      (''version'', SU64 (st_version s)),
      (''outcome'', Allocation_sval X (st_outcome s)),
      (''app_data'', as_bytes_sval []),
      (''is_final'', SBool (st_is_final s))]"

section \<open>Operations\<close>

definition Params_channel_id :: "build \<Rightarrow> ext \<Rightarrow> params \<Rightarrow> (error, hash) res" where
  "Params_channel_id b X p = to_hash b X (Params_sval X p)"

definition Allocation_new :: "asset list \<Rightarrow> balances \<Rightarrow> allocation" where
  "Allocation_new assets bals = \<lparr>al_assets = assets, al_balances = bals, al_locked = ()\<rparr>"

text \<open>The inner loop of \<open>total_assets\<close>: \<open>*total += amt\<close> panics on overflow.\<close>

primrec add_amounts :: "ext \<Rightarrow> u256 \<Rightarrow> u256 list \<Rightarrow> ('e, u256) res" where
  "add_amounts X tot [] = Ok tot"
| "add_amounts X tot (amt # amts) =
     bind_res (unwrap (u256_add X tot amt)) (\<lambda>t. add_amounts X t amts)"

definition total_assets :: "ext \<Rightarrow> allocation \<Rightarrow> ('e, u256 list) res" where
  "total_assets X al = mapM_res (add_amounts X 0) (al_balances al)"

definition MAX_NUM_ASSETS :: nat where
  "MAX_NUM_ASSETS = 1024"

definition MAX_NUM_PARTICIPANTS :: nat where
  "MAX_NUM_PARTICIPANTS = 1024"

text \<open>The two assertions on \<open>locked\<close> hold by its type.\<close>

definition debug_assert_valid :: "build \<Rightarrow> allocation \<Rightarrow> ('e, unit) res" where
  "debug_assert_valid b al =
     bind_res (debug_assert b (al_assets al \<noteq> [])) (\<lambda>_.
     bind_res (debug_assert b (al_balances al \<noteq> [])) (\<lambda>_.
     bind_res (debug_assert b (length (al_assets al) \<le> MAX_NUM_ASSETS)) (\<lambda>_.
     bind_res (debug_assert b (length (al_assets al) = length (al_balances al))) (\<lambda>_.
     bind_res (index (al_balances al) 0) (\<lambda>b0.
     bind_res (debug_assert b (0 < length b0)) (\<lambda>_.
     bind_res (debug_assert b (length b0 \<le> MAX_NUM_PARTICIPANTS)) (\<lambda>_.
     debug_assert b (list_all (\<lambda>x. length x = length b0) (al_balances al)))))))))"

definition State_new :: "build \<Rightarrow> ext \<Rightarrow> params \<Rightarrow> allocation \<Rightarrow> (error, state) res" where
  "State_new b X params init_bals =
     bind_res (debug_assert_valid b init_bals) (\<lambda>_.
     bind_res (if profile b = Debug then
                 bind_res (index (al_balances init_bals) 0) (\<lambda>b0.
                 debug_assert b (length (pa_participants params) = length b0))
               else Ok ()) (\<lambda>_.
     bind_res (Params_channel_id b X params) (\<lambda>id.
     Ok \<lparr>st_id = id, st_version = 0, st_outcome = init_bals, st_app_data = (), st_is_final = False\<rparr>)))"

definition make_next_state :: "build \<Rightarrow> state \<Rightarrow> ('e, state) res" where
  "make_next_state b s =
     bind_res (u64_add b (st_version s) 1) (\<lambda>v.
     Ok \<lparr>st_id = st_id s, st_version = v, st_outcome = st_outcome s, st_app_data = st_app_data s,
         st_is_final = st_is_final s\<rparr>)"

section \<open>Conversions\<close>

definition Params_try_from :: "ext \<Rightarrow> nat \<Rightarrow> w_params \<Rightarrow> (conversion_error, params) res" where
  "Params_try_from X P v =
     bind_res (zip_fill P (bytesN_default 20) (try_into_array 20 ByteLengthMissmatch) (wp_parts v)) (\<lambda>parts.
     bind_res (unwrap (u256_from_big_endian X (wp_nonce v))) (\<lambda>nonce.
     Ok \<lparr>pa_challenge_duration = wp_challenge_duration v, pa_nonce = nonce, pa_participants = parts,
         pa_app = replicate 20 0, pa_ledger_channel = wp_ledger_channel v,
         pa_virtual_channel = wp_virtual_channel v\<rparr>))"

definition Params_into :: "build \<Rightarrow> ext \<Rightarrow> params \<Rightarrow> ('e, w_params) res" where
  "Params_into b X p =
     bind_res (unwrap_res (Params_channel_id b X p)) (\<lambda>id.
     Ok \<lparr>wp_id = id, wp_challenge_duration = pa_challenge_duration p,
         wp_nonce = u256_to_big_endian X (pa_nonce p), wp_parts = pa_participants p, wp_app = [],
         wp_ledger_channel = pa_ledger_channel p, wp_virtual_channel = pa_virtual_channel p\<rparr>)"

definition ParticipantBalances_try_from ::
    "ext \<Rightarrow> nat \<Rightarrow> w_balance \<Rightarrow> (conversion_error, participant_balances) res" where
  "ParticipantBalances_try_from X P v =
     (if length (wb_balance v) \<noteq> P then Err ParticipantSizeMissmatch
      else zip_fill P 0 (\<lambda>bs. unwrap (u256_from_big_endian X bs)) (wb_balance v))"

definition ParticipantBalances_into :: "ext \<Rightarrow> participant_balances \<Rightarrow> w_balance" where
  "ParticipantBalances_into X bals = \<lparr>wb_balance = map (u256_to_big_endian X) bals\<rparr>"

definition Balances_try_from ::
    "ext \<Rightarrow> nat \<Rightarrow> nat \<Rightarrow> w_balances \<Rightarrow> (conversion_error, balances) res" where
  "Balances_try_from X A P v =
     (if length (wbs_balances v) \<noteq> A then Err AssetSizeMissmatch
      else zip_fill A (replicate P 0) (ParticipantBalances_try_from X P) (wbs_balances v))"

definition Balances_into :: "ext \<Rightarrow> balances \<Rightarrow> w_balances" where
  "Balances_into X bals = \<lparr>wbs_balances = map (ParticipantBalances_into X) bals\<rparr>"

text \<open>
  One asset of a wire allocation: a little-endian length and the holder.  The holder is copied
  from \<open>b[2..]\<close>, and \<open>copy_from_slice\<close> panics unless that has exactly 20 bytes.
\<close>

definition Asset_try_from :: "bytes \<Rightarrow> (conversion_error, asset) res" where
  "Asset_try_from v =
     (if length v < 2 then Err ByteLengthMissmatch
      else let holder_length = le_val (take 2 v) in
        if holder_length > 20 then Err ByteLengthMissmatch
        else if holder_length > 0 then
          (if length (drop 2 v) = 20 then Ok \<lparr>as_holder = drop 2 v\<rparr> else Panic)
        else Ok \<lparr>as_holder = bytesN_default 20\<rparr>)"

definition Asset_into :: "asset \<Rightarrow> bytes" where
  "Asset_into a = as_holder a"

definition Allocation_try_from ::
    "ext \<Rightarrow> nat \<Rightarrow> nat \<Rightarrow> w_allocation \<Rightarrow> (conversion_error, allocation) res" where
  "Allocation_try_from X A P v =
     bind_res (zip_fill A \<lparr>as_holder = bytesN_default 20\<rparr> Asset_try_from (wa_assets v)) (\<lambda>assets.
     bind_res (ok_or ExptectedSome (wa_balances v)) (\<lambda>wb.
     bind_res (Balances_try_from X A P wb) (\<lambda>bals.
     Ok \<lparr>al_assets = assets, al_balances = bals, al_locked = ()\<rparr>)))"

definition Allocation_into :: "ext \<Rightarrow> allocation \<Rightarrow> w_allocation" where
  "Allocation_into X al =
     \<lparr>wa_assets = map Asset_into (al_assets al), wa_balances = Some (Balances_into X (al_balances al)),
      wa_locked = []\<rparr>"

definition State_try_from :: "ext \<Rightarrow> nat \<Rightarrow> nat \<Rightarrow> w_state \<Rightarrow> (conversion_error, state) res" where
  "State_try_from X A P v =
     (if ws_data v \<noteq> [] then Err StateChannelsNotSupported
      else
        bind_res (try_into_array 32 ByteLengthMissmatch (ws_id v)) (\<lambda>id.
        bind_res (ok_or ExptectedSome (ws_allocation v)) (\<lambda>wa.
        bind_res (Allocation_try_from X A P wa) (\<lambda>al.
        Ok \<lparr>st_id = id, st_version = ws_version v, st_outcome = al, st_app_data = (),
            st_is_final = ws_is_final v\<rparr>))))"

definition State_into :: "ext \<Rightarrow> state \<Rightarrow> w_state" where
  "State_into X s =
     \<lparr>ws_id = st_id s, ws_version = st_version s,
      ws_allocation = Some (Allocation_into X (st_outcome s)), ws_app = [], ws_data = [],
      ws_is_final = st_is_final s\<rparr>"

section \<open>Well-formed values\<close>

text \<open>What the Rust types guarantee by their array lengths.\<close>

definition params_wf :: "nat \<Rightarrow> params \<Rightarrow> bool" where
  "params_wf P p \<longleftrightarrow> length (pa_participants p) = P \<and>
     list_all (\<lambda>a. length a = 20) (pa_participants p) \<and> length (pa_app p) = 20"

definition allocation_wf :: "nat \<Rightarrow> nat \<Rightarrow> allocation \<Rightarrow> bool" where
  "allocation_wf A P al \<longleftrightarrow> length (al_assets al) = A \<and>
     list_all (\<lambda>a. length (as_holder a) = 20) (al_assets al) \<and>
     length (al_balances al) = A \<and> list_all (\<lambda>x. length x = P) (al_balances al)"

definition state_wf :: "nat \<Rightarrow> nat \<Rightarrow> state \<Rightarrow> bool" where
  "state_wf A P s \<longleftrightarrow> length (st_id s) = 32 \<and> allocation_wf A P (st_outcome s)"

section \<open>Encodings\<close>

definition Asset_abi :: "asset \<Rightarrow> abi" where
  "Asset_abi a = ATuple [AStatic (replicate 12 0 @ as_holder a)]"

definition Params_abi :: "params \<Rightarrow> abi" where
  "Params_abi p = ATuple
     [AUint (unat (pa_challenge_duration p)), AStatic (uint256 (unat (pa_nonce p))),
      AArray (map (\<lambda>a. AStatic (replicate 12 0 @ a)) (pa_participants p)),
      AStatic (replicate 12 0 @ pa_app p),
      AUint (of_bool (pa_ledger_channel p)), AUint (of_bool (pa_virtual_channel p))]"

definition Balances_abi :: "balances \<Rightarrow> abi" where
  "Balances_abi bals = AArray (map (\<lambda>x. AArray (map (\<lambda>v. AStatic (uint256 (unat v))) x)) bals)"

definition Allocation_abi :: "allocation \<Rightarrow> abi" where
  "Allocation_abi al = ATuple
     [AArray (map Asset_abi (al_assets al)), Balances_abi (al_balances al), AArray []]"

definition State_abi :: "state \<Rightarrow> abi" where
  "State_abi s = ATuple
     [AStatic (st_id s), AUint (unat (st_version s)), Allocation_abi (st_outcome s), ABytes [],
      AUint (of_bool (st_is_final s))]"

lemma abi_of_dyn_map:
  "(\<And>x. x \<in> set xs \<Longrightarrow> abi_of (f x) = Some (g x)) \<Longrightarrow>
    abi_of (as_dyn_array_sval (map f xs)) = Some (AArray (map g xs))"
  by (rule abi_of_as_dyn_array) (simp add: list_all2_map1 list_all2_map2 list_all2_same)

lemma abi_of_Asset [simp]: "abi_of (Asset_sval a) = Some (Asset_abi a)"
  by (simp add: Asset_sval_def Asset_abi_def)

lemma abi_of_Params: "u256_spec X \<Longrightarrow> abi_of (Params_sval X p) = Some (Params_abi p)"
  by (simp add: Params_sval_def Params_abi_def abi_of_dyn_map of_bool_def)

lemma abi_of_Balances: "u256_spec X \<Longrightarrow> abi_of (Balances_sval X bals) = Some (Balances_abi bals)"
  unfolding Balances_sval_def Balances_abi_def ParticipantBalances_sval_def
  by (intro abi_of_dyn_map) simp_all

lemma abi_of_State: "u256_spec X \<Longrightarrow> abi_of (State_sval X s) = Some (State_abi s)"
  by (simp add: State_sval_def Allocation_sval_def State_abi_def Allocation_abi_def abi_of_dyn_map
      abi_of_Balances abi_of_dyn_map [of "[]", simplified])

lemma lens_fit_dyn_map:
  "lens_fit b (as_dyn_array_sval (map f xs)) \<longleftrightarrow>
    length xs < usize_limit b \<and> (\<forall>x\<in>set xs. lens_fit b (f x))"
  by (simp add: list_all_iff)

section \<open>The layout of two-party, one-asset values\<close>

lemmas layout_simps = abi_encode_eq enc_tuple_def enc_heads_eq head_len_def tail_of_def
  numeral_2_eq_2

lemma length_2E:
  assumes "length xs = 2"
  obtains x y where "xs = [x, y]"
  using assms by (metis (no_types, opaque_lifting) One_nat_def Suc_1 length_0_conv length_Suc_conv)

lemma pad32_address: "length a = 20 \<Longrightarrow> pad32 (replicate 12 0 @ a) = uint256 (be_val a)"
  using abi_enc_Address [of a] by simp

lemma Params_layout:
  assumes "params_wf 2 p"
  shows "abi_encode (Params_abi p) = concat (map uint256
    [32, unat (pa_challenge_duration p), unat (pa_nonce p), 192, be_val (pa_app p),
     of_bool (pa_ledger_channel p), of_bool (pa_virtual_channel p),
     2, be_val (pa_participants p ! 0), be_val (pa_participants p ! 1)])"
proof -
  from assms obtain p0 p1 where "pa_participants p = [p0, p1]"
    by (auto simp: params_wf_def elim: length_2E)
  then show ?thesis
    using assms by (simp add: params_wf_def Params_abi_def layout_simps pad32_address)
qed

lemma State_layout:
  assumes "state_wf 1 2 s"
  shows "abi_encode (State_abi s) = concat (map uint256
    [32, be_val (st_id s), unat (st_version s), 160, 512, of_bool (st_is_final s),
     96, 160, 320,
     1, be_val (as_holder (al_assets (st_outcome s) ! 0)),
     1, 32, 2, unat (al_balances (st_outcome s) ! 0 ! 0), unat (al_balances (st_outcome s) ! 0 ! 1),
     0, 0])"
proof -
  from assms obtain a where a: "al_assets (st_outcome s) = [a]" "length (as_holder a) = 20"
    by (auto simp: state_wf_def allocation_wf_def length_Suc_conv)
  from assms obtain bals where "al_balances (st_outcome s) = [bals]" "length bals = 2"
    by (auto simp: state_wf_def allocation_wf_def length_Suc_conv)
  then obtain x y where b: "al_balances (st_outcome s) = [[x, y]]" by (auto elim: length_2E)
  have "uint256 (be_val (st_id s)) = st_id s"
    using assms be_bytes_be_val [of "st_id s"] by (simp add: state_wf_def uint256_def)
  then show ?thesis
    using assms a b
    by (simp add: state_wf_def State_abi_def Allocation_abi_def Balances_abi_def Asset_abi_def
        layout_simps pad32_address pad32_def [of "[]"] pad32_full [of "st_id s"])
qed

lemma length_concat_uint256: "length (concat (map uint256 xs)) = 32 * length xs"
  by (induction xs) auto

lemma concat_uint256_inj:
  "length xs = length ys \<Longrightarrow> list_all (\<lambda>n. n < 256 ^ 32) xs \<Longrightarrow> list_all (\<lambda>n. n < 256 ^ 32) ys \<Longrightarrow>
    concat (map uint256 xs) = concat (map uint256 ys) \<longleftrightarrow> xs = ys"
  by (induction xs ys rule: list_induct2) (simp_all add: uint256_def be_bytes_inj)

lemma be_val_bound: "length a \<le> 32 \<Longrightarrow> be_val a < 256 ^ 32"
proof -
  assume "length a \<le> 32"
  then have "(256::nat) ^ length a \<le> 256 ^ 32" by (intro power_increasing) simp_all
  then show "be_val a < 256 ^ 32" using be_val_less [of a] by linarith
qed

lemma unat_slot_bound:
  "unat (x :: u64) < 256 ^ 32" "unat (y :: u256) < 256 ^ 32" "(of_bool c :: nat) < 256 ^ 32"
  using unat_bound [of x] unat_bound [of y] by simp_all

lemma Params_fits: "params_wf 2 p \<Longrightarrow> length (abi_enc (Params_abi p)) < usize_limit b"
proof -
  assume "params_wf 2 p"
  then have "length (abi_encode (Params_abi p)) = 320"
    by (simp only: Params_layout length_concat_uint256 list.size) simp
  then show ?thesis using usize_limit_ge [of b] by (simp add: abi_encode_eq split: if_splits)
qed

lemma State_fits: "state_wf 1 2 s \<Longrightarrow> length (abi_enc (State_abi s)) < usize_limit b"
proof -
  assume "state_wf 1 2 s"
  then have "length (abi_encode (State_abi s)) = 576"
    by (simp only: State_layout length_concat_uint256 list.size) simp
  then show ?thesis using usize_limit_ge [of b] by (simp add: abi_encode_eq split: if_splits)
qed

lemma Params_lens_fit: "params_wf 2 p \<Longrightarrow> lens_fit b (Params_sval X p)"
  using usize_limit_ge [of b] by (simp add: Params_sval_def params_wf_def list_all_iff)

lemma State_lens_fit:
  assumes "state_wf 1 2 s"
  shows "lens_fit b (State_sval X s)"
proof -
  have "2 < usize_limit b" using usize_limit_ge [of b] by simp
  with assms show ?thesis
    by (auto simp: State_sval_def Allocation_sval_def Balances_sval_def ParticipantBalances_sval_def
        Asset_sval_def state_wf_def allocation_wf_def list_all_iff)
qed

lemma Params_channel_id_eq:
  assumes "u256_spec X" "params_wf 2 p"
  shows "Params_channel_id b X p = Ok (keccak256 X (abi_encode (Params_abi p)))"
  unfolding Params_channel_id_def
  by (rule to_hash_abi [OF abi_of_Params Params_lens_fit Params_fits]) (fact assms)+

lemma State_hash_eq:
  assumes "u256_spec X" "state_wf 1 2 s"
  shows "to_hash b X (State_sval X s) = Ok (keccak256 X (abi_encode (State_abi s)))"
  by (rule to_hash_abi [OF abi_of_State State_lens_fit State_fits]) (fact assms)+

lemma wf_1_2_cases:
  assumes "allocation_wf 1 2 al"
  obtains h x y where "al = \<lparr>al_assets = [\<lparr>as_holder = h\<rparr>], al_balances = [[x, y]], al_locked = ()\<rparr>"
    "length h = 20"
proof -
  from assms obtain a where a: "al_assets al = [a]" "length (as_holder a) = 20"
    by (auto simp: allocation_wf_def length_Suc_conv)
  from assms obtain bals where "al_balances al = [bals]" "length bals = 2"
    by (auto simp: allocation_wf_def length_Suc_conv)
  then obtain x y where "al_balances al = [[x, y]]" by (auto elim: length_2E)
  with a have "al = \<lparr>al_assets = [\<lparr>as_holder = as_holder a\<rparr>], al_balances = [[x, y]], al_locked = ()\<rparr>"
    by simp
  with a(2) show ?thesis by (intro that)
qed

lemma state_1_2_cases:
  assumes "state_wf 1 2 s"
  obtains h x y where
    "st_outcome s = \<lparr>al_assets = [\<lparr>as_holder = h\<rparr>], al_balances = [[x, y]], al_locked = ()\<rparr>"
    "length h = 20" "length (st_id s) = 32"
proof -
  from assms have "allocation_wf 1 2 (st_outcome s)" "length (st_id s) = 32"
    by (simp_all add: state_wf_def)
  then show ?thesis using that by (blast elim: wf_1_2_cases)
qed

lemma State_encoding_inj:
  assumes "state_wf 1 2 s" "state_wf 1 2 t"
  shows "abi_encode (State_abi s) = abi_encode (State_abi t) \<longleftrightarrow> s = t"
proof -
  obtain h x y where s: "length (st_id s) = 32" "length h = 20"
    "st_outcome s = \<lparr>al_assets = [\<lparr>as_holder = h\<rparr>], al_balances = [[x, y]], al_locked = ()\<rparr>"
    using assms(1) by (rule state_1_2_cases)
  obtain h' x' y' where t: "length (st_id t) = 32" "length h' = 20"
    "st_outcome t = \<lparr>al_assets = [\<lparr>as_holder = h'\<rparr>], al_balances = [[x', y']], al_locked = ()\<rparr>"
    using assms(2) by (rule state_1_2_cases)
  have bnd: "be_val (st_id s) < 256 ^ 32" "be_val (st_id t) < 256 ^ 32" "be_val h < 256 ^ 32"
    "be_val h' < 256 ^ 32" by (rule be_val_bound, simp add: s t)+
  have "abi_encode (State_abi s) = abi_encode (State_abi t) \<longleftrightarrow>
      be_val (st_id s) = be_val (st_id t) \<and> unat (st_version s) = unat (st_version t) \<and>
      of_bool (st_is_final s) = (of_bool (st_is_final t) :: nat) \<and> be_val h = be_val h' \<and>
      unat x = unat x' \<and> unat y = unat y'"
    unfolding State_layout [OF assms(1)] State_layout [OF assms(2)]
    by (subst concat_uint256_inj) (use bnd s t in \<open>simp_all add: unat_slot_bound [simplified]\<close>)
  also have "\<dots> \<longleftrightarrow> s = t"
    using s t by (cases s; cases t) (auto simp: be_val_inj word_unat_eq_iff)
  finally show ?thesis .
qed

lemma Params_encoding_inj:
  assumes "params_wf 2 p" "params_wf 2 q"
  shows "abi_encode (Params_abi p) = abi_encode (Params_abi q) \<longleftrightarrow> p = q"
proof -
  from assms obtain a c where p: "pa_participants p = [a, c]" "length a = 20" "length c = 20"
    "length (pa_app p) = 20" by (auto simp: params_wf_def elim: length_2E)
  from assms obtain a' c' where q: "pa_participants q = [a', c']" "length a' = 20" "length c' = 20"
    "length (pa_app q) = 20" by (auto simp: params_wf_def elim: length_2E)
  have bnd: "be_val a < 256 ^ 32" "be_val c < 256 ^ 32" "be_val a' < 256 ^ 32" "be_val c' < 256 ^ 32"
    "be_val (pa_app p) < 256 ^ 32" "be_val (pa_app q) < 256 ^ 32"
    by (rule be_val_bound, simp add: p q)+
  have "abi_encode (Params_abi p) = abi_encode (Params_abi q) \<longleftrightarrow>
      unat (pa_challenge_duration p) = unat (pa_challenge_duration q) \<and>
      unat (pa_nonce p) = unat (pa_nonce q) \<and> be_val (pa_app p) = be_val (pa_app q) \<and>
      of_bool (pa_ledger_channel p) = (of_bool (pa_ledger_channel q) :: nat) \<and>
      of_bool (pa_virtual_channel p) = (of_bool (pa_virtual_channel q) :: nat) \<and>
      be_val a = be_val a' \<and> be_val c = be_val c'"
    unfolding Params_layout [OF assms(1)] Params_layout [OF assms(2)]
    by (subst concat_uint256_inj) (use bnd p q in \<open>simp_all add: unat_slot_bound [simplified]\<close>)
  also have "\<dots> \<longleftrightarrow> p = q"
    using p q by (cases p; cases q) (auto simp: be_val_inj word_unat_eq_iff)
  finally show ?thesis .
qed

section \<open>Totals\<close>

abbreviation amounts :: "u256 list \<Rightarrow> nat" where
  "amounts xs \<equiv> sum_list (map unat xs)"

lemma add_amounts_eq:
  assumes "u256_spec X"
  shows "add_amounts X tot xs =
    (if unat tot + amounts xs < 2 ^ 256 then Ok (word_of_nat (unat tot + amounts xs)) else Panic)"
proof (induction xs arbitrary: tot)
  case Nil
  show ?case using unat_bound [of tot] by simp
next
  case (Cons x xs)
  have "unat (tot + x) = unat tot + unat x" if "unat tot + unat x < 2 ^ 256"
    using that by (simp add: unat_plus_if')
  with Cons assms show ?case by (auto simp: u256_spec_def add.assoc)
qed

lemma mapM_add_amounts:
  assumes "u256_spec X"
  shows "mapM_res (add_amounts X 0) bals =
    (if list_all (\<lambda>xs. amounts xs < 2 ^ 256) bals
     then Ok (map (\<lambda>xs. word_of_nat (amounts xs)) bals) else Panic)"
  by (induction bals) (simp_all add: add_amounts_eq [OF assms])

lemma total_assets_eq:
  assumes "u256_spec X"
  shows "total_assets X al =
    (if list_all (\<lambda>xs. amounts xs < 2 ^ 256) (al_balances al)
     then Ok (map (\<lambda>xs. word_of_nat (amounts xs)) (al_balances al)) else Panic)"
  unfolding total_assets_def by (rule mapM_add_amounts [OF assms])

lemma unat_amounts_iff:
  "map unat ts = map amounts bals \<longleftrightarrow> list_all (\<lambda>xs. amounts xs < 2 ^ 256) bals \<and>
    ts = map (\<lambda>xs. word_of_nat (amounts xs)) bals" for ts :: "u256 list"
proof (induction bals arbitrary: ts)
  case (Cons xs bals)
  have "unat t = amounts xs \<longleftrightarrow> amounts xs < 2 ^ 256 \<and> t = word_of_nat (amounts xs)" for t :: u256
    using unat_bound [of t] by (auto simp: unat_of_nat word_unat_eq_iff)
  with Cons show ?case by (cases ts) auto
qed simp

lemma total_assets_Ok_iff:
  assumes "u256_spec X"
  shows "total_assets X al = Ok ts \<longleftrightarrow> map unat ts = map amounts (al_balances al)"
  by (auto simp: unat_amounts_iff total_assets_eq [OF assms])

section \<open>Properties\<close>

text \<open>
  C25: the bytes that are hashed and signed determine the state.  For states with one asset and
  two participants the serializer succeeds, and two states produce the same slots only if they
  agree in every field: identifier, version, holder, balances and finality.
\<close>

theorem State_encoding_binding:
  assumes "u256_spec X" "state_wf 1 2 s" "state_wf 1 2 t"
  shows "fst (to_writer b (State_sval X s) (Slots [])) = Ok () \<and>
    (to_writer b (State_sval X s) (Slots []) = to_writer b (State_sval X t) (Slots []) \<longleftrightarrow> s = t)"
proof -
  have eq: "to_writer b (State_sval X s) (Slots []) = (Ok (), Slots (slots_of (abi_encode (State_abi s))))"
    if "state_wf 1 2 s" for s
    using to_writer_internal_abi [OF abi_of_State State_lens_fit State_fits, OF assms(1) that that,
        of b True "[]"] by (simp add: to_writer_def)
  have "slots_of u = slots_of v \<longleftrightarrow> u = v" for u v
    by (metis concat_slots_of)
  then show ?thesis
    using State_encoding_inj [OF assms(2,3)] by (simp add: eq [OF assms(2)] eq [OF assms(3)])
qed

definition sample_state :: "u64 \<Rightarrow> state" where
  "sample_state v = \<lparr>st_id = replicate 32 1, st_version = v,
     st_outcome = \<lparr>al_assets = [\<lparr>as_holder = replicate 20 2\<rparr>], al_balances = [[3, 4]], al_locked = ()\<rparr>,
     st_app_data = (), st_is_final = False\<rparr>"

lemma sample_state_wf: "state_wf 1 2 (sample_state v)"
  by (simp add: sample_state_def state_wf_def allocation_wf_def)

theorem State_encoding_binding_witness:
  "to_writer \<lparr>profile = Debug, ptr_width = W32\<rparr> (State_sval toy_ext (sample_state 5)) (Slots []) \<noteq>
   to_writer \<lparr>profile = Debug, ptr_width = W32\<rparr> (State_sval toy_ext (sample_state 6)) (Slots [])"
  using State_encoding_binding [OF toy_u256_spec sample_state_wf [of 5] sample_state_wf [of 6],
      of "\<lparr>profile = Debug, ptr_width = W32\<rparr>"]
  by (simp add: sample_state_def)

text \<open>
  The channel identifier is the Keccak-256 hash of \<open>abi.encode(params)\<close>, computed without
  error, and the hashed bytes determine every parameter.
\<close>

theorem channel_id_binding:
  assumes "u256_spec X" "params_wf 2 p" "params_wf 2 q"
  shows "Params_channel_id b X p = Ok (keccak256 X (abi_encode (Params_abi p))) \<and>
    (abi_encode (Params_abi p) = abi_encode (Params_abi q) \<longleftrightarrow> p = q)"
  using Params_channel_id_eq [OF assms(1,2)] Params_encoding_inj [OF assms(2,3)] by simp

definition sample_params :: "u256 \<Rightarrow> params" where
  "sample_params n = \<lparr>pa_challenge_duration = 60, pa_nonce = n,
     pa_participants = [replicate 20 7, replicate 20 9], pa_app = replicate 20 0,
     pa_ledger_channel = True, pa_virtual_channel = False\<rparr>"

lemma sample_params_wf: "params_wf 2 (sample_params n)"
  by (simp add: sample_params_def params_wf_def)

theorem channel_id_binding_witness:
  "Params_channel_id \<lparr>profile = Release, ptr_width = W64\<rparr> toy_ext (sample_params 1)
     = Ok (toy_hash (abi_encode (Params_abi (sample_params 1)))) \<and>
   abi_encode (Params_abi (sample_params 1)) \<noteq> abi_encode (Params_abi (sample_params 2))"
  using channel_id_binding [OF toy_u256_spec sample_params_wf [of 1] sample_params_wf [of 2],
      of "\<lparr>profile = Release, ptr_width = W64\<rparr>"]
  by (simp add: sample_params_def toy_ext_def)

text \<open>
  C28: \<open>total_assets\<close> returns the exact sum of each asset's balances, and panics precisely when
  one of the sums does not fit 256 bits.
\<close>

theorem total_assets_exact:
  assumes "u256_spec X"
  shows "(\<forall>ts. total_assets X al = (Ok ts :: ('e, u256 list) res) \<longleftrightarrow>
      map unat ts = map amounts (al_balances al)) \<and>
    (total_assets X al = (Panic :: ('e, u256 list) res) \<longleftrightarrow>
      (\<exists>xs\<in>set (al_balances al). 2 ^ 256 \<le> amounts xs))"
proof
  show "\<forall>ts. total_assets X al = (Ok ts :: ('e, u256 list) res) \<longleftrightarrow>
      map unat ts = map amounts (al_balances al)"
    by (simp add: total_assets_Ok_iff [OF assms])
  show "total_assets X al = (Panic :: ('e, u256 list) res) \<longleftrightarrow>
      (\<exists>xs\<in>set (al_balances al). 2 ^ 256 \<le> amounts xs)"
    by (auto simp: total_assets_eq [OF assms] list_all_iff not_less)
qed

theorem total_assets_exact_witness:
  "total_assets toy_ext (st_outcome (sample_state 0)) = (Ok [7] :: (unit, u256 list) res) \<and>
   total_assets toy_ext (Allocation_new [] [[- 1, 1]]) = (Panic :: (unit, u256 list) res)"
  using total_assets_exact [where 'e = unit, OF toy_u256_spec, of "st_outcome (sample_state 0)",
      THEN conjunct1, THEN spec, of "[7]"]
    total_assets_exact [where 'e = unit, OF toy_u256_spec, of "Allocation_new [] [[- 1, 1]]"]
  by (simp add: sample_state_def Allocation_new_def unsigned_minus_1_eq_mask mask_eq_exp_minus_1)

subsection \<open>Conversions\<close>

lemma Balances_round_trip:
  assumes "u256_spec X" "length bals = A" "list_all (\<lambda>x. length x = P) bals"
  shows "Balances_try_from X A P (Balances_into X bals) = Ok bals"
proof -
  have "ParticipantBalances_try_from X P (ParticipantBalances_into X x) = Ok x" if "length x = P" for x
    using that zip_fill_round_trip [of x P "\<lambda>bs. unwrap (u256_from_big_endian X bs)"
        "u256_to_big_endian X" 0] u256_round_trip [OF assms(1)]
    by (simp add: ParticipantBalances_try_from_def ParticipantBalances_into_def)
  with assms(2,3) show ?thesis
    by (auto simp: Balances_try_from_def Balances_into_def list_all_iff intro!: zip_fill_round_trip)
qed

lemma Asset_round_trip:
  assumes "length (as_holder a) = 20"
  shows "Asset_try_from (Asset_into a) =
    (if le_val (take 2 (as_holder a)) > 20 then Err ByteLengthMissmatch
     else if le_val (take 2 (as_holder a)) > 0 then Panic
     else Ok \<lparr>as_holder = replicate 20 0\<rparr>)"
  using assms by (simp add: Asset_try_from_def Asset_into_def Let_def bytesN_default_def)

text \<open>
  Parameters survive the wire.  \<open>perunwire::Params::from\<close> does not panic on well-formed
  two-party parameters, carries their channel identifier, and \<open>Params::try_from\<close> of the message
  gives them back except for the \<open>app\<close> address, which both directions drop.
\<close>

theorem Params_wire_round_trip:
  assumes "u256_spec X" "params_wf 2 p"
  shows "\<exists>w. Params_into b X p = (Ok w :: ('e, w_params) res) \<and>
    Ok (wp_id w) = Params_channel_id b X p \<and>
    Params_try_from X 2 w = Ok (p\<lparr>pa_app := replicate 20 0\<rparr>)"
proof -
  have "zip_fill 2 (bytesN_default 20) (try_into_array 20 ByteLengthMissmatch) (map id (pa_participants p))
      = Ok (pa_participants p)"
    using assms(2) by (intro zip_fill_round_trip) (simp_all add: params_wf_def list_all_iff)
  then show ?thesis
    by (simp add: Params_into_def Params_channel_id_eq [OF assms] Params_try_from_def
        u256_round_trip [OF assms(1)])
qed

theorem Params_wire_round_trip_witness:
  "\<exists>w. Params_into \<lparr>profile = Debug, ptr_width = W32\<rparr> toy_ext (sample_params 5)
      = (Ok w :: (unit, w_params) res) \<and> Params_try_from toy_ext 2 w = Ok (sample_params 5)"
  using Params_wire_round_trip [where 'e = unit, OF toy_u256_spec sample_params_wf [of 5],
      of "\<lparr>profile = Debug, ptr_width = W32\<rparr>"]
  by (auto simp: sample_params_def)

text \<open>
  Balances survive the wire, for any number of assets and participants; a message with
  another number of assets or participants is rejected with the matching error.
\<close>

theorem Balances_wire:
  assumes "u256_spec X"
  shows "(length bals = A \<and> list_all (\<lambda>x. length x = P) bals \<longrightarrow>
      Balances_try_from X A P (Balances_into X bals) = Ok bals) \<and>
    (length bals \<noteq> A \<longrightarrow> Balances_try_from X A P (Balances_into X bals) = Err AssetSizeMissmatch) \<and>
    (length bals = A \<and> 0 < A \<and> length (bals ! 0) \<noteq> P \<longrightarrow>
      Balances_try_from X A P (Balances_into X bals) = Err ParticipantSizeMissmatch)"
proof (intro conjI impI)
  assume "length bals = A \<and> 0 < A \<and> length (bals ! 0) \<noteq> P"
  then obtain x xs where "bals = x # xs" "A = Suc (length xs)" "length x \<noteq> P"
    by (cases bals) auto
  then show "Balances_try_from X A P (Balances_into X bals) = Err ParticipantSizeMissmatch"
    by (simp add: Balances_try_from_def Balances_into_def ParticipantBalances_try_from_def
        ParticipantBalances_into_def)
qed (use Balances_round_trip [OF assms] in \<open>auto simp: Balances_try_from_def Balances_into_def\<close>)

theorem Balances_wire_witness:
  "Balances_try_from toy_ext 1 2 (Balances_into toy_ext [[3, 4]]) = Ok [[3, 4]] \<and>
   Balances_try_from toy_ext 2 2 (Balances_into toy_ext [[3, 4]]) = Err AssetSizeMissmatch \<and>
   Balances_try_from toy_ext 1 3 (Balances_into toy_ext [[3, 4]]) = Err ParticipantSizeMissmatch"
  using Balances_wire [OF toy_u256_spec, of "[[3, 4]]" 1 2]
    Balances_wire [OF toy_u256_spec, of "[[3, 4]]" 2 2]
    Balances_wire [OF toy_u256_spec, of "[[3, 4]]" 1 3] by simp

text \<open>
  C38: a state with an asset does not survive the wire.  The encoder writes the bare holder
  address, the decoder expects a two-byte length in front of it: \<open>State::try_from\<close> of the
  message \<open>perunwire::State::from\<close> builds is a panic or an error for every holder but those
  whose first two bytes are zero, and these come back as the zero address.  Only the
  length-prefixed form decodes to the holder.
\<close>

theorem State_wire_asymmetry:
  assumes "u256_spec X" "state_wf 1 2 s"
    and "al_assets (st_outcome s) = [\<lparr>as_holder = h\<rparr>]"
  shows "State_try_from X 1 2 (State_into X s) =
      (if le_val (take 2 h) > 20 then Err ByteLengthMissmatch
       else if le_val (take 2 h) > 0 then Panic
       else Ok (s\<lparr>st_outcome := (st_outcome s)\<lparr>al_assets := [\<lparr>as_holder = replicate 20 0\<rparr>]\<rparr>\<rparr>)) \<and>
    Asset_try_from ([20, 0] @ h) = Ok \<lparr>as_holder = h\<rparr>"
proof -
  have wf: "length (st_id s) = 32" "length h = 20" "length (al_balances (st_outcome s)) = 1"
    "list_all (\<lambda>x. length x = 2) (al_balances (st_outcome s))"
    using assms(2,3) by (auto simp: state_wf_def allocation_wf_def)
  show ?thesis
    using wf Asset_round_trip [of "\<lparr>as_holder = h\<rparr>"] Balances_round_trip [OF assms(1) wf(3,4)]
    by (simp add: State_try_from_def State_into_def Allocation_try_from_def Allocation_into_def
        assms(3) Asset_try_from_def le_val_def be_val_Cons)
qed

theorem State_wire_asymmetry_witness:
  "State_try_from toy_ext 1 2 (State_into toy_ext (sample_state 5)) = Err ByteLengthMissmatch"
proof -
  have "take 2 (replicate 20 (2 :: u8)) = [2, 2]" by (simp add: eval_nat_numeral)
  then have "le_val (take 2 (replicate 20 2)) = 514" by (simp only:) (simp add: le_val_def be_val_def)
  then show ?thesis
    using State_wire_asymmetry [OF toy_u256_spec sample_state_wf [of 5], of "replicate 20 2"]
    by (simp add: sample_state_def)
qed

end
