(* ===== verification/Messages.thy ===== *)
theory Messages
  imports Payment
begin

text \<open>
  The messages of \<open>src/messages.rs\<close> and \<open>src/messages/*.rs\<close>: channel proposals, updates, and the
  requests to the funder and the watcher, each with its \<open>TryFrom\<close>/\<open>From\<close> conversion from and
  to the generated \<open>perunwire\<close> message.  A conversion that can panic returns an outcome.
\<close>

definition ASSETS :: nat where
  "ASSETS = 1"

definition PARTICIPANTS :: nat where
  "PARTICIPANTS = 2"

type_synonym part_idx = nat
type_synonym peers = "bytes list"

section \<open>Proposals (\<open>messages/proposal.rs\<close>)\<close>

record ledger_channel_proposal =
  lp_proposal_id :: hash
  lp_challenge_duration :: u64
  lp_nonce_share :: bytes
  lp_init_bals :: allocation
  lp_funding_agreement :: balances
  lp_participant :: address
  lp_peers :: peers

record w_base_channel_proposal =
  wbp_proposal_id :: bytes
  wbp_challenge_duration :: u64
  wbp_nonce_share :: bytes
  wbp_app :: bytes
  wbp_init_data :: bytes
  wbp_init_bals :: "w_allocation option"
  wbp_funding_agreement :: "w_balances option"

record w_ledger_channel_proposal_msg =
  wlp_base_channel_proposal :: "w_base_channel_proposal option"
  wlp_participant :: bytes
  wlp_peers :: peers

definition LedgerChannelProposal_try_from ::
    "ext \<Rightarrow> w_ledger_channel_proposal_msg \<Rightarrow> (conversion_error, ledger_channel_proposal) res" where
  "LedgerChannelProposal_try_from X v =
     bind_res (ok_or ExptectedSome (wlp_base_channel_proposal v)) (\<lambda>base.
     bind_res (ok_or ExptectedSome (wbp_init_bals base)) (\<lambda>init_bals.
     bind_res (ok_or ExptectedSome (wbp_funding_agreement base)) (\<lambda>funding_agreement.
     bind_res (try_into_array 32 ByteLengthMissmatch (wbp_proposal_id base)) (\<lambda>proposal_id.
     bind_res (try_into_array 32 ByteLengthMissmatch (wbp_nonce_share base)) (\<lambda>nonce_share.
     bind_res (Allocation_try_from X ASSETS PARTICIPANTS init_bals) (\<lambda>init_bals'.
     bind_res (Balances_try_from X ASSETS PARTICIPANTS funding_agreement) (\<lambda>funding_agreement'.
     bind_res (try_into_array 20 ByteLengthMissmatch (wlp_participant v)) (\<lambda>participant.
     Ok \<lparr>lp_proposal_id = proposal_id, lp_challenge_duration = wbp_challenge_duration base,
         lp_nonce_share = nonce_share, lp_init_bals = init_bals',
         lp_funding_agreement = funding_agreement', lp_participant = participant,
         lp_peers = wlp_peers v\<rparr>))))))))"

definition LedgerChannelProposal_into ::
    "ext \<Rightarrow> ledger_channel_proposal \<Rightarrow> w_ledger_channel_proposal_msg" where
  "LedgerChannelProposal_into X v =
     \<lparr>wlp_base_channel_proposal = Some
        \<lparr>wbp_proposal_id = lp_proposal_id v, wbp_challenge_duration = lp_challenge_duration v,
         wbp_nonce_share = lp_nonce_share v, wbp_app = [], wbp_init_data = [],
         wbp_init_bals = Some (Allocation_into X (lp_init_bals v)),
         wbp_funding_agreement = Some (Balances_into X (lp_funding_agreement v))\<rparr>,
      wlp_participant = lp_participant v, wlp_peers = lp_peers v\<rparr>"

record ledger_channel_proposal_acc =
  la_proposal_id :: hash
  la_nonce_share :: bytes
  la_participant :: address

record w_base_channel_proposal_acc =
  wba_proposal_id :: bytes
  wba_nonce_share :: bytes

record w_ledger_channel_proposal_acc_msg =
  wla_base_channel_proposal_acc :: "w_base_channel_proposal_acc option"
  wla_participant :: bytes

definition LedgerChannelProposalAcc_try_from ::
    "w_ledger_channel_proposal_acc_msg \<Rightarrow> (conversion_error, ledger_channel_proposal_acc) res" where
  "LedgerChannelProposalAcc_try_from v =
     bind_res (ok_or ExptectedSome (wla_base_channel_proposal_acc v)) (\<lambda>base.
     bind_res (try_into_array 32 ByteLengthMissmatch (wba_proposal_id base)) (\<lambda>proposal_id.
     bind_res (try_into_array 32 ByteLengthMissmatch (wba_nonce_share base)) (\<lambda>nonce_share.
     bind_res (try_into_array 20 ByteLengthMissmatch (wla_participant v)) (\<lambda>participant.
     Ok \<lparr>la_proposal_id = proposal_id, la_nonce_share = nonce_share, la_participant = participant\<rparr>))))"

definition LedgerChannelProposalAcc_into ::
    "ledger_channel_proposal_acc \<Rightarrow> w_ledger_channel_proposal_acc_msg" where
  "LedgerChannelProposalAcc_into v =
     \<lparr>wla_base_channel_proposal_acc = Some
        \<lparr>wba_proposal_id = la_proposal_id v, wba_nonce_share = la_nonce_share v\<rparr>,
      wla_participant = la_participant v\<rparr>"

section \<open>Updates (\<open>messages/update.rs\<close>)\<close>

record ledger_channel_update =
  lu_state :: state
  lu_actor_idx :: part_idx
  lu_sig :: signature

record w_channel_update =
  wcu_state :: "w_state option"
  wcu_actor_idx :: u32

record w_channel_update_msg =
  wum_channel_update :: "w_channel_update option"
  wum_sig :: bytes

definition LedgerChannelUpdate_try_from ::
    "ext \<Rightarrow> w_channel_update_msg \<Rightarrow> (conversion_error, ledger_channel_update) res" where
  "LedgerChannelUpdate_try_from X v =
     bind_res (ok_or ExptectedSome (wum_channel_update v)) (\<lambda>update.
     bind_res (ok_or ExptectedSome (wcu_state update)) (\<lambda>ws.
     bind_res (State_try_from X ASSETS PARTICIPANTS ws) (\<lambda>state.
     bind_res (try_into_array 65 ByteLengthMissmatch (wum_sig v)) (\<lambda>sig.
     Ok \<lparr>lu_state = state, lu_actor_idx = unat (wcu_actor_idx update), lu_sig = sig\<rparr>))))"

definition LedgerChannelUpdate_into :: "ext \<Rightarrow> ledger_channel_update \<Rightarrow> w_channel_update_msg" where
  "LedgerChannelUpdate_into X v =
     \<lparr>wum_channel_update = Some
        \<lparr>wcu_state = Some (State_into X (lu_state v)), wcu_actor_idx = word_of_nat (lu_actor_idx v)\<rparr>,
      wum_sig = lu_sig v\<rparr>"

record ledger_channel_update_accepted =
  lua_channel :: hash
  lua_version :: u64
  lua_sig :: signature

record w_channel_update_acc_msg =
  wua_channel_id :: bytes
  wua_version :: u64
  wua_sig :: bytes

definition LedgerChannelUpdateAccepted_try_from ::
    "w_channel_update_acc_msg \<Rightarrow> (conversion_error, ledger_channel_update_accepted) res" where
  "LedgerChannelUpdateAccepted_try_from v =
     bind_res (try_into_array 32 ByteLengthMissmatch (wua_channel_id v)) (\<lambda>channel.
     bind_res (try_into_array 65 ByteLengthMissmatch (wua_sig v)) (\<lambda>sig.
     Ok \<lparr>lua_channel = channel, lua_version = wua_version v, lua_sig = sig\<rparr>))"

definition LedgerChannelUpdateAccepted_into ::
    "ledger_channel_update_accepted \<Rightarrow> w_channel_update_acc_msg" where
  "LedgerChannelUpdateAccepted_into v =
     \<lparr>wua_channel_id = lua_channel v, wua_version = lua_version v, wua_sig = lua_sig v\<rparr>"

section \<open>Requests to the funder (\<open>messages/funding_request.rs\<close>)\<close>

record ledger_channel_funding_request =
  fr_part_idx :: part_idx
  fr_funding_agreement :: balances
  fr_params :: params
  fr_state :: state

record transaction =
  tx_state :: state
  tx_sigs :: "signature list"

record adjudicator_req =
  ar_params :: params
  ar_acc :: address
  ar_tx :: transaction
  ar_idx :: part_idx
  ar_secondary :: bool

record register_req =
  rr_adj_req :: adjudicator_req

record withdraw_req =
  wr_adj_req :: adjudicator_req

record w_fund_req =
  wfr_session_id :: string
  wfr_agreement :: "w_balances option"
  wfr_params :: "w_params option"
  wfr_state :: "w_state option"
  wfr_idx :: u32

record w_transaction =
  wtx_state :: "w_state option"
  wtx_sigs :: "bytes list"

record w_adjudicator_req =
  war_params :: "w_params option"
  war_acc :: bytes
  war_tx :: "w_transaction option"
  war_idx :: u32
  war_secondary :: bool

text \<open>\<open>RegisterReq\<close> and \<open>WithdrawReq\<close> have the same two fields on the wire.\<close>

record w_adj_session_req =
  was_session_id :: string
  was_adj_req :: "w_adjudicator_req option"

definition LedgerChannelFundingRequest_try_from ::
    "ext \<Rightarrow> w_fund_req \<Rightarrow> (conversion_error, ledger_channel_funding_request) res" where
  "LedgerChannelFundingRequest_try_from X v =
     bind_res (ok_or ExptectedSome (wfr_agreement v)) (\<lambda>wa.
     bind_res (Balances_try_from X ASSETS PARTICIPANTS wa) (\<lambda>agreement.
     bind_res (ok_or ExptectedSome (wfr_params v)) (\<lambda>wp.
     bind_res (Params_try_from X PARTICIPANTS wp) (\<lambda>params.
     bind_res (ok_or ExptectedSome (wfr_state v)) (\<lambda>ws.
     bind_res (State_try_from X ASSETS PARTICIPANTS ws) (\<lambda>state.
     Ok \<lparr>fr_part_idx = unat (wfr_idx v), fr_funding_agreement = agreement, fr_params = params,
         fr_state = state\<rparr>))))))"

definition LedgerChannelFundingRequest_into ::
    "build \<Rightarrow> ext \<Rightarrow> ledger_channel_funding_request \<Rightarrow> ('e, w_fund_req) res" where
  "LedgerChannelFundingRequest_into b X v =
     bind_res (Params_into b X (fr_params v)) (\<lambda>wp.
     Ok \<lparr>wfr_session_id = '''', wfr_agreement = Some (Balances_into X (fr_funding_agreement v)),
         wfr_params = Some wp, wfr_state = Some (State_into X (fr_state v)),
         wfr_idx = word_of_nat (fr_part_idx v)\<rparr>)"

text \<open>The loop that converts signatures: \<open>sigs.iter_mut().zip(value.sigs)\<close>.\<close>

definition sigs_try_from :: "nat \<Rightarrow> bytes list \<Rightarrow> (conversion_error, signature list) res" where
  "sigs_try_from n v = zip_fill n (bytesN_default 65) (try_into_array 65 ByteLengthMissmatch) v"

definition Transaction_try_from :: "ext \<Rightarrow> w_transaction \<Rightarrow> (conversion_error, transaction) res" where
  "Transaction_try_from X v =
     bind_res (ok_or ExptectedSome (wtx_state v)) (\<lambda>signed_state.
     if length (wtx_sigs v) \<noteq> PARTICIPANTS then Err ParticipantSizeMissmatch
     else
       bind_res (sigs_try_from PARTICIPANTS (wtx_sigs v)) (\<lambda>sigs.
       bind_res (State_try_from X ASSETS PARTICIPANTS signed_state) (\<lambda>state.
       Ok \<lparr>tx_state = state, tx_sigs = sigs\<rparr>)))"

definition Transaction_into :: "ext \<Rightarrow> transaction \<Rightarrow> w_transaction" where
  "Transaction_into X v = \<lparr>wtx_state = Some (State_into X (tx_state v)), wtx_sigs = tx_sigs v\<rparr>"

definition AdjudicatorReq_try_from ::
    "ext \<Rightarrow> w_adjudicator_req \<Rightarrow> (conversion_error, adjudicator_req) res" where
  "AdjudicatorReq_try_from X v =
     bind_res (ok_or ExptectedSome (war_params v)) (\<lambda>wp.
     bind_res (Params_try_from X PARTICIPANTS wp) (\<lambda>params.
     bind_res (try_into_array 20 ByteLengthMissmatch (war_acc v)) (\<lambda>acc.
     bind_res (ok_or ExptectedSome (war_tx v)) (\<lambda>wt.
     bind_res (Transaction_try_from X wt) (\<lambda>tx.
     Ok \<lparr>ar_params = params, ar_acc = acc, ar_tx = tx, ar_idx = unat (war_idx v),
         ar_secondary = war_secondary v\<rparr>)))))"

definition AdjudicatorReq_into ::
    "build \<Rightarrow> ext \<Rightarrow> adjudicator_req \<Rightarrow> ('e, w_adjudicator_req) res" where
  "AdjudicatorReq_into b X v =
     bind_res (Params_into b X (ar_params v)) (\<lambda>wp.
     Ok \<lparr>war_params = Some wp, war_acc = ar_acc v, war_tx = Some (Transaction_into X (ar_tx v)),
         war_idx = word_of_nat (ar_idx v), war_secondary = ar_secondary v\<rparr>)"

definition RegisterReq_try_from ::
    "ext \<Rightarrow> w_adj_session_req \<Rightarrow> (conversion_error, register_req) res" where
  "RegisterReq_try_from X v =
     bind_res (ok_or ExptectedSome (was_adj_req v)) (\<lambda>wa.
     bind_res (AdjudicatorReq_try_from X wa) (\<lambda>a. Ok \<lparr>rr_adj_req = a\<rparr>))"

definition RegisterReq_into :: "build \<Rightarrow> ext \<Rightarrow> register_req \<Rightarrow> ('e, w_adj_session_req) res" where
  "RegisterReq_into b X v =
     bind_res (AdjudicatorReq_into b X (rr_adj_req v)) (\<lambda>wa.
     Ok \<lparr>was_session_id = '''', was_adj_req = Some wa\<rparr>)"

definition WithdrawReq_try_from ::
    "ext \<Rightarrow> w_adj_session_req \<Rightarrow> (conversion_error, withdraw_req) res" where
  "WithdrawReq_try_from X v =
     bind_res (ok_or ExptectedSome (was_adj_req v)) (\<lambda>wa.
     bind_res (AdjudicatorReq_try_from X wa) (\<lambda>a. Ok \<lparr>wr_adj_req = a\<rparr>))"

definition WithdrawReq_into :: "build \<Rightarrow> ext \<Rightarrow> withdraw_req \<Rightarrow> ('e, w_adj_session_req) res" where
  "WithdrawReq_into b X v =
     bind_res (AdjudicatorReq_into b X (wr_adj_req v)) (\<lambda>wa.
     Ok \<lparr>was_session_id = '''', was_adj_req = Some wa\<rparr>)"

section \<open>Requests to the watcher (\<open>messages/watch_request.rs\<close>)\<close>

record signed_withdrawal_auth =
  sw_sig :: signature
  sw_receiver :: address

record watch_info =
  wi_part_idx :: part_idx
  wi_params :: params
  wi_state :: state
  wi_signatures :: "signature list"
  wi_withdrawal_auths :: "signed_withdrawal_auth list"

record start_watching_ledger_channel_req =
  sl_params :: params
  sl_state :: state
  sl_sigs :: "signature list"

record w_start_watching_req =
  wsw_session_id :: string
  wsw_params :: "w_params option"
  wsw_state :: "w_state option"
  wsw_sigs :: "bytes list"

record w_signed_withdrawal_auth =
  wsa_sig :: bytes
  wsa_receiver :: bytes

record w_signed_state =
  wss_params :: "w_params option"
  wss_state :: "w_state option"
  wss_sigs :: "bytes list"

record w_watch_request_msg =
  wwr_participant :: u32
  wwr_state :: "w_signed_state option"
  wwr_withdrawal_auths :: "w_signed_withdrawal_auth list"

record w_force_close_request_msg =
  wfc_channel_id :: bytes
  wfc_latest :: "w_watch_request_msg option"

definition SignedWithdrawalAuth_default :: signed_withdrawal_auth where
  "SignedWithdrawalAuth_default = \<lparr>sw_sig = bytesN_default 65, sw_receiver = bytesN_default 20\<rparr>"

definition SignedWithdrawalAuth_try_from ::
    "w_signed_withdrawal_auth \<Rightarrow> (conversion_error, signed_withdrawal_auth) res" where
  "SignedWithdrawalAuth_try_from v =
     bind_res (try_into_array 65 ByteLengthMissmatch (wsa_sig v)) (\<lambda>sig.
     bind_res (try_into_array 20 ByteLengthMissmatch (wsa_receiver v)) (\<lambda>receiver.
     Ok \<lparr>sw_sig = sig, sw_receiver = receiver\<rparr>))"

definition SignedWithdrawalAuth_into :: "signed_withdrawal_auth \<Rightarrow> w_signed_withdrawal_auth" where
  "SignedWithdrawalAuth_into v = \<lparr>wsa_sig = sw_sig v, wsa_receiver = sw_receiver v\<rparr>"

definition StartWatching_try_from ::
    "ext \<Rightarrow> w_start_watching_req \<Rightarrow> (conversion_error, start_watching_ledger_channel_req) res" where
  "StartWatching_try_from X v =
     (if length (wsw_sigs v) \<noteq> PARTICIPANTS then Err ParticipantSizeMissmatch
      else
        bind_res (sigs_try_from PARTICIPANTS (wsw_sigs v)) (\<lambda>sigs.
        bind_res (ok_or ExptectedSome (wsw_params v)) (\<lambda>wp.
        bind_res (Params_try_from X PARTICIPANTS wp) (\<lambda>params.
        bind_res (ok_or ExptectedSome (wsw_state v)) (\<lambda>ws.
        bind_res (State_try_from X ASSETS PARTICIPANTS ws) (\<lambda>state.
        Ok \<lparr>sl_params = params, sl_state = state, sl_sigs = sigs\<rparr>))))))"

definition StartWatching_into ::
    "build \<Rightarrow> ext \<Rightarrow> start_watching_ledger_channel_req \<Rightarrow> ('e, w_start_watching_req) res" where
  "StartWatching_into b X v =
     bind_res (Params_into b X (sl_params v)) (\<lambda>wp.
     Ok \<lparr>wsw_session_id = '''', wsw_params = Some wp, wsw_state = Some (State_into X (sl_state v)),
         wsw_sigs = sl_sigs v\<rparr>)"

definition WatchInfo_try_from ::
    "ext \<Rightarrow> w_watch_request_msg \<Rightarrow> (conversion_error, watch_info) res" where
  "WatchInfo_try_from X v =
     bind_res (ok_or ExptectedSome (wwr_state v)) (\<lambda>signed_state.
     if length (wss_sigs signed_state) \<noteq> PARTICIPANTS then Err ParticipantSizeMissmatch
     else if length (wwr_withdrawal_auths v) \<noteq> ASSETS then Err ParticipantSizeMissmatch
     else
       bind_res (sigs_try_from PARTICIPANTS (wss_sigs signed_state)) (\<lambda>signatures.
       bind_res (zip_fill ASSETS SignedWithdrawalAuth_default SignedWithdrawalAuth_try_from
                   (wwr_withdrawal_auths v)) (\<lambda>auths.
       bind_res (ok_or ExptectedSome (wss_params signed_state)) (\<lambda>wp.
       bind_res (Params_try_from X PARTICIPANTS wp) (\<lambda>params.
       bind_res (ok_or ExptectedSome (wss_state signed_state)) (\<lambda>ws.
       bind_res (State_try_from X ASSETS PARTICIPANTS ws) (\<lambda>state.
       Ok \<lparr>wi_part_idx = unat (wwr_participant v), wi_params = params, wi_state = state,
           wi_signatures = signatures, wi_withdrawal_auths = auths\<rparr>)))))))"

definition WatchInfo_into :: "build \<Rightarrow> ext \<Rightarrow> watch_info \<Rightarrow> ('e, w_watch_request_msg) res" where
  "WatchInfo_into b X v =
     bind_res (Params_into b X (wi_params v)) (\<lambda>wp.
     Ok \<lparr>wwr_participant = word_of_nat (wi_part_idx v),
         wwr_state = Some \<lparr>wss_params = Some wp, wss_state = Some (State_into X (wi_state v)),
                           wss_sigs = wi_signatures v\<rparr>,
         wwr_withdrawal_auths = map SignedWithdrawalAuth_into (wi_withdrawal_auths v)\<rparr>)"

definition ForceClose_try_from ::
    "ext \<Rightarrow> w_force_close_request_msg \<Rightarrow> (conversion_error, watch_info) res" where
  "ForceClose_try_from X v =
     bind_res (ok_or ExptectedSome (wfc_latest v)) (WatchInfo_try_from X)"

definition ForceClose_into :: "build \<Rightarrow> ext \<Rightarrow> watch_info \<Rightarrow> ('e, w_force_close_request_msg) res" where
  "ForceClose_into b X v =
     bind_res (WatchInfo_into b X v) (\<lambda>w.
     Ok \<lparr>wfc_channel_id = st_id (wi_state v), wfc_latest = Some w\<rparr>)"

section \<open>Message enums (\<open>messages.rs\<close>)\<close>

datatype watcher_request_message =
    WatchRequest start_watching_ledger_channel_req
  | StartDispute watch_info

datatype watcher_reply_message =
    Ack hash u64
  | DisputeAck hash
  | DisputeNotification hash

datatype funder_request_message =
    FundReq ledger_channel_funding_request
  | RegisterReqMsg register_req
  | WithdrawReqMsg withdraw_req

datatype funder_reply_message = Funded hash

datatype participant_message =
    Auth
  | ChannelProposal ledger_channel_proposal
  | ProposalAccepted ledger_channel_proposal_acc
  | ProposalRejected hash string
  | ChannelUpdate ledger_channel_update
  | ChannelUpdateAccepted ledger_channel_update_accepted
  | ChannelUpdateRejected hash u64 string

section \<open>The contract of a conversion pair\<close>

text \<open>
  What a peer relies on when a message crosses the wire: the decoder accepts what the encoder
  produces and returns the original, and whatever it accepts is well-formed.
\<close>

locale wire_codec =
  fixes into :: "'a \<Rightarrow> 'w" and try_from :: "'w \<Rightarrow> (conversion_error, 'a) res" and wf :: "'a \<Rightarrow> bool"
  assumes round_trip: "wf v \<Longrightarrow> try_from (into v) = Ok v"
    and decodes_wf: "try_from w = Ok v \<Longrightarrow> wf v"
begin

lemma into_inj: "wf u \<Longrightarrow> wf v \<Longrightarrow> into u = into v \<Longrightarrow> u = v"
  by (metis round_trip res.inject(1))

lemma array_round_trip:
  "length vs = n \<Longrightarrow> list_all wf vs \<Longrightarrow> zip_fill n d try_from (map into vs) = Ok vs"
  by (rule zip_fill_round_trip) (auto simp: list_all_iff round_trip)

lemma array_decodes_wf:
  "zip_fill n d try_from ws = Ok vs \<Longrightarrow> length ws = n \<Longrightarrow> list_all wf vs"
  by (induction ws arbitrary: n vs) (auto simp: bind_res_Ok_iff decodes_wf)

end

definition proposal_acc_wf :: "ledger_channel_proposal_acc \<Rightarrow> bool" where
  "proposal_acc_wf v \<longleftrightarrow> length (la_proposal_id v) = 32 \<and> length (la_nonce_share v) = 32 \<and>
     length (la_participant v) = 20"

definition update_accepted_wf :: "ledger_channel_update_accepted \<Rightarrow> bool" where
  "update_accepted_wf v \<longleftrightarrow> length (lua_channel v) = 32 \<and> length (lua_sig v) = 65"

definition withdrawal_auth_wf :: "signed_withdrawal_auth \<Rightarrow> bool" where
  "withdrawal_auth_wf v \<longleftrightarrow> length (sw_sig v) = 65 \<and> length (sw_receiver v) = 20"

interpretation acc: wire_codec LedgerChannelProposalAcc_into LedgerChannelProposalAcc_try_from
    proposal_acc_wf
  by unfold_locales
    (auto simp: LedgerChannelProposalAcc_into_def LedgerChannelProposalAcc_try_from_def
      proposal_acc_wf_def bind_res_Ok_iff)

interpretation upd_acc: wire_codec LedgerChannelUpdateAccepted_into
    LedgerChannelUpdateAccepted_try_from update_accepted_wf
  by unfold_locales
    (auto simp: LedgerChannelUpdateAccepted_into_def LedgerChannelUpdateAccepted_try_from_def
      update_accepted_wf_def bind_res_Ok_iff)

interpretation auth: wire_codec SignedWithdrawalAuth_into SignedWithdrawalAuth_try_from
    withdrawal_auth_wf
  by unfold_locales
    (auto simp: SignedWithdrawalAuth_into_def SignedWithdrawalAuth_try_from_def
      withdrawal_auth_wf_def bind_res_Ok_iff)

interpretation sig: wire_codec "\<lambda>v. v" "try_into_array n ByteLengthMissmatch" "\<lambda>v. length v = n"
  by unfold_locales auto

text \<open>
  The acceptance messages survive the wire.  Every well-formed proposal acceptance, update
  acceptance and list of signed withdrawal authorizations decodes to itself, and the decoders of the
  acceptances accept nothing malformed.
\<close>

theorem acceptance_messages_round_trip:
  "(proposal_acc_wf a \<longrightarrow>
      LedgerChannelProposalAcc_try_from (LedgerChannelProposalAcc_into a) = Ok a) \<and>
   (update_accepted_wf u \<longrightarrow>
      LedgerChannelUpdateAccepted_try_from (LedgerChannelUpdateAccepted_into u) = Ok u) \<and>
   (list_all withdrawal_auth_wf vs \<longrightarrow>
      zip_fill (length vs) SignedWithdrawalAuth_default SignedWithdrawalAuth_try_from
        (map SignedWithdrawalAuth_into vs) = Ok vs) \<and>
   (LedgerChannelProposalAcc_try_from wa = Ok a \<longrightarrow> proposal_acc_wf a) \<and>
   (LedgerChannelUpdateAccepted_try_from wu = Ok u \<longrightarrow> update_accepted_wf u)"
  by (simp add: acc.round_trip acc.decodes_wf upd_acc.round_trip upd_acc.decodes_wf
      auth.array_round_trip)

theorem acceptance_messages_round_trip_witness:
  "LedgerChannelProposalAcc_try_from (LedgerChannelProposalAcc_into
      \<lparr>la_proposal_id = replicate 32 1, la_nonce_share = replicate 32 2, la_participant = replicate 20 3\<rparr>)
    = Ok \<lparr>la_proposal_id = replicate 32 1, la_nonce_share = replicate 32 2, la_participant = replicate 20 3\<rparr>"
  using acceptance_messages_round_trip [of
      "\<lparr>la_proposal_id = replicate 32 1, la_nonce_share = replicate 32 2, la_participant = replicate 20 3\<rparr>"]
  by (simp add: proposal_acc_wf_def)

end
