(* ===== verification/Wire.thy ===== *)
theory Wire
  imports Messages
begin

text \<open>
  The network side: \<open>src/wire.rs\<close> (the message bus and the broadcast to the other
  participants) and \<open>src/wire/encoding.rs\<close> (the protocol buffer layer with its two-byte
  length frame).  A bus is the list of what has been handed to it, oldest first.  The
  protocol buffer encoder of \<open>prost\<close> is a parameter.
\<close>

section \<open>The message bus\<close>

datatype bus_msg =
    ToWatcher watcher_request_message
  | ToFunder funder_request_message
  | ToParticipant bytes bytes participant_message

type_synonym bus = "bus_msg list"

definition send_to_watcher :: "watcher_request_message \<Rightarrow> bus \<Rightarrow> bus" where
  "send_to_watcher m b = b @ [ToWatcher m]"

definition send_to_funder :: "funder_request_message \<Rightarrow> bus \<Rightarrow> bus" where
  "send_to_funder m b = b @ [ToFunder m]"

definition send_to_participant :: "bytes \<Rightarrow> bytes \<Rightarrow> participant_message \<Rightarrow> bus \<Rightarrow> bus" where
  "send_to_participant sender recipient m b = b @ [ToParticipant sender recipient m]"

text \<open>The loop over \<open>peers.iter().enumerate()\<close>, from index \<open>i\<close> on.\<close>

primrec broadcast_from :: "nat \<Rightarrow> part_idx \<Rightarrow> bytes \<Rightarrow> peers \<Rightarrow> participant_message \<Rightarrow> bus \<Rightarrow> bus" where
  "broadcast_from i part_idx sender [] m b = b"
| "broadcast_from i part_idx sender (peer # peers) m b =
     broadcast_from (Suc i) part_idx sender peers m
       (if i = part_idx then b else send_to_participant sender peer m b)"

definition broadcast_to_participants ::
    "part_idx \<Rightarrow> peers \<Rightarrow> participant_message \<Rightarrow> (bus, 'e, unit) cmd" where
  "broadcast_to_participants part_idx peers m b =
     (case index peers part_idx of
        Ok sender \<Rightarrow> (Ok (), broadcast_from 0 part_idx sender peers m b)
      | Err e \<Rightarrow> (Err e, b)
      | Panic \<Rightarrow> (Panic, b))"

section \<open>The protocol buffer layer\<close>

text \<open>The \<open>oneof\<close> payloads of \<open>perunremote::Message\<close> and \<open>perunwire::Envelope\<close> that are sent.\<close>

datatype w_message =
    WStartWatchingLedgerChannelReq w_start_watching_req
  | WForceCloseRequest w_force_close_request_msg
  | WFundReq w_fund_req
  | WRegisterReq w_adj_session_req
  | WWithdrawReq w_adj_session_req

datatype w_envelope_msg =
    WAuthResponseMsg
  | WLedgerChannelProposalMsg w_ledger_channel_proposal_msg
  | WLedgerChannelProposalAccMsg w_ledger_channel_proposal_acc_msg
  | WChannelProposalRejMsg bytes string
  | WChannelUpdateMsg w_channel_update_msg
  | WChannelUpdateAccMsg w_channel_update_acc_msg
  | WChannelUpdateRejMsg bytes u64 string

record w_envelope =
  we_sender :: bytes
  we_recipient :: bytes
  we_msg :: w_envelope_msg

text \<open>What the \<open>prost\<close> encoder produces for the two top-level messages.\<close>

record prost =
  encode_message :: "w_message \<Rightarrow> bytes"
  encode_envelope :: "w_envelope \<Rightarrow> bytes"

datatype bytes_bus_msg =
    BytesToWatcher bytes
  | BytesToFunder bytes
  | BytesToParticipant bytes bytes bytes

type_synonym bytes_bus = "bytes_bus_msg list"

text \<open>
  \<open>encode\<close>: the length must be below \<open>2^16\<close> (an \<open>assert!\<close>, so in every build), then two
  big-endian length bytes and the message.
\<close>

definition frame :: "bytes \<Rightarrow> ('e, bytes) res" where
  "frame body = (if length body < 2 ^ 16 then Ok (be_bytes 2 (length body) @ body) else Panic)"

definition watcher_wiremsg :: "build \<Rightarrow> ext \<Rightarrow> watcher_request_message \<Rightarrow> ('e, w_message) res" where
  "watcher_wiremsg b X m = (case m of
     WatchRequest r \<Rightarrow> bind_res (StartWatching_into b X r) (\<lambda>w. Ok (WStartWatchingLedgerChannelReq w))
   | StartDispute i \<Rightarrow> bind_res (ForceClose_into b X i) (\<lambda>w. Ok (WForceCloseRequest w)))"

definition funder_wiremsg :: "build \<Rightarrow> ext \<Rightarrow> funder_request_message \<Rightarrow> ('e, w_message) res" where
  "funder_wiremsg b X m = (case m of
     FundReq r \<Rightarrow> bind_res (LedgerChannelFundingRequest_into b X r) (\<lambda>w. Ok (WFundReq w))
   | RegisterReqMsg r \<Rightarrow> bind_res (RegisterReq_into b X r) (\<lambda>w. Ok (WRegisterReq w))
   | WithdrawReqMsg r \<Rightarrow> bind_res (WithdrawReq_into b X r) (\<lambda>w. Ok (WWithdrawReq w)))"

definition participant_wiremsg :: "ext \<Rightarrow> participant_message \<Rightarrow> w_envelope_msg" where
  "participant_wiremsg X m = (case m of
     Auth \<Rightarrow> WAuthResponseMsg
   | ChannelProposal p \<Rightarrow> WLedgerChannelProposalMsg (LedgerChannelProposal_into X p)
   | ProposalAccepted a \<Rightarrow> WLedgerChannelProposalAccMsg (LedgerChannelProposalAcc_into a)
   | ProposalRejected pid reason \<Rightarrow> WChannelProposalRejMsg pid reason
   | ChannelUpdate u \<Rightarrow> WChannelUpdateMsg (LedgerChannelUpdate_into X u)
   | ChannelUpdateAccepted a \<Rightarrow> WChannelUpdateAccMsg (LedgerChannelUpdateAccepted_into a)
   | ChannelUpdateRejected cid version reason \<Rightarrow> WChannelUpdateRejMsg cid version reason)"

definition pb_send_to_watcher ::
    "build \<Rightarrow> ext \<Rightarrow> prost \<Rightarrow> watcher_request_message \<Rightarrow> (bytes_bus, 'e, unit) cmd" where
  "pb_send_to_watcher b X P m bus =
     bindS (lift_res (bind_res (watcher_wiremsg b X m) (\<lambda>w. frame (encode_message P w))))
       (\<lambda>buf bus. (Ok (), bus @ [BytesToWatcher buf])) bus"

definition pb_send_to_funder ::
    "build \<Rightarrow> ext \<Rightarrow> prost \<Rightarrow> funder_request_message \<Rightarrow> (bytes_bus, 'e, unit) cmd" where
  "pb_send_to_funder b X P m bus =
     bindS (lift_res (bind_res (funder_wiremsg b X m) (\<lambda>w. frame (encode_message P w))))
       (\<lambda>buf bus. (Ok (), bus @ [BytesToFunder buf])) bus"

definition pb_send_to_participant ::
    "ext \<Rightarrow> prost \<Rightarrow> bytes \<Rightarrow> bytes \<Rightarrow> participant_message \<Rightarrow> (bytes_bus, 'e, unit) cmd" where
  "pb_send_to_participant X P sender recipient m bus =
     bindS (lift_res (frame (encode_envelope P
         \<lparr>we_sender = sender, we_recipient = recipient, we_msg = participant_wiremsg X m\<rparr>)))
       (\<lambda>buf bus. (Ok (), bus @ [BytesToParticipant sender recipient buf])) bus"

text \<open>What the layer does with one bus message, and with all of them in order.\<close>

definition pb_send :: "build \<Rightarrow> ext \<Rightarrow> prost \<Rightarrow> bus_msg \<Rightarrow> (bytes_bus, 'e, unit) cmd" where
  "pb_send b X P m = (case m of
     ToWatcher w \<Rightarrow> pb_send_to_watcher b X P w
   | ToFunder f \<Rightarrow> pb_send_to_funder b X P f
   | ToParticipant s r p \<Rightarrow> pb_send_to_participant X P s r p)"

primrec pb_send_all :: "build \<Rightarrow> ext \<Rightarrow> prost \<Rightarrow> bus \<Rightarrow> (bytes_bus, 'e, unit) cmd" where
  "pb_send_all b X P [] = ret ()"
| "pb_send_all b X P (m # ms) = bindS (pb_send b X P m) (\<lambda>_. pb_send_all b X P ms)"

section \<open>Broadcast\<close>

lemma broadcast_from_eq:
  "broadcast_from i k sender peers m b =
    b @ map (\<lambda>j. ToParticipant sender (peers ! j) m) (filter (\<lambda>j. i + j \<noteq> k) [0..<length peers])"
proof (induction peers arbitrary: i b)
  case (Cons p ps)
  have upt: "[0..<length (p # ps)] = 0 # map Suc [0..<length ps]"
    by (simp add: map_Suc_upt upt_conv_Cons del: upt_Suc)
  show ?case
    unfolding upt by (simp add: Cons send_to_participant_def filter_map comp_def)
qed simp

text \<open>
  A broadcast reaches everyone else once.  With a valid index, \<open>broadcast_to_participants\<close>
  appends exactly one message for each other peer, in the order of the peer list, all sent under
  the identity at that index, and none to the sender itself; with an index outside the list it
  panics before anything is sent.
\<close>

theorem broadcast_once_each:
  "broadcast_to_participants k peers m b =
     (if k < length peers
      then ((Ok () :: ('e, unit) res), b @ map (\<lambda>j. ToParticipant (peers ! k) (peers ! j) m)
              (filter (\<lambda>j. j \<noteq> k) [0..<length peers]))
      else (Panic, b))"
  by (simp add: broadcast_to_participants_def index_def broadcast_from_eq)

lemma broadcast_two [simp]:
  "broadcast_to_participants 0 [p, q] m b = (Ok (), b @ [ToParticipant p q m])"
  "broadcast_to_participants (Suc 0) [p, q] m b = (Ok (), b @ [ToParticipant q p m])"
  by (simp_all add: broadcast_to_participants_def index_def send_to_participant_def)

section \<open>Frames\<close>

text \<open>The inverse of \<open>frame\<close>: a receiver that reads two length bytes, then that many bytes.\<close>

definition unframe :: "bytes \<Rightarrow> (bytes \<times> bytes) option" where
  "unframe bs = (if length bs < 2 then None
     else let n = be_val (take 2 bs) in
       if length (drop 2 bs) < n then None else Some (take n (drop 2 bs), drop n (drop 2 bs)))"

lemma frame_Ok: "frame body = Ok buf \<longleftrightarrow> length body < 2 ^ 16 \<and> buf = be_bytes 2 (length body) @ body"
  by (auto simp: frame_def)

lemma unframe_frame:
  assumes "frame body = (Ok buf :: ('e, bytes) res)"
  shows "unframe (buf @ rest) = Some (body, rest)"
proof -
  have "length body < 256 ^ 2" and buf: "buf = be_bytes 2 (length body) @ body"
    using assms by (auto simp: frame_Ok)
  moreover from this have "be_val (be_bytes 2 (length body)) = length body"
    by (simp add: be_val_be_bytes)
  ultimately show ?thesis by (simp add: unframe_def)
qed

fun unframe_all :: "nat \<Rightarrow> bytes \<Rightarrow> bytes list" where
  "unframe_all 0 bs = []"
| "unframe_all (Suc n) bs = (case unframe bs of None \<Rightarrow> [] | Some (m, rest) \<Rightarrow> m # unframe_all n rest)"

lemma unframe_all_frames:
  assumes "mapM_res frame bodies = (Ok bufs :: ('e, bytes list) res)"
  shows "unframe_all (length bodies) (concat bufs) = bodies"
  using assms
proof (induction bodies arbitrary: bufs)
  case (Cons body bodies)
  then obtain buf bufs' where b: "frame body = (Ok buf :: ('e, bytes) res)"
    "mapM_res frame bodies = (Ok bufs' :: ('e, bytes list) res)" "bufs = buf # bufs'"
    by (auto simp: bind_res_Ok_iff)
  then show ?case using Cons.IH unframe_frame [OF b(1)] by simp
qed simp

lemma be_bytes_2: "be_bytes 2 x = [word_of_nat (x div 256 mod 256), word_of_nat (x mod 256)]"
  by (simp add: numeral_2_eq_2)

text \<open>
  C23: the frames delimit the messages.  Bodies below \<open>2^16\<close> bytes are framed without a panic,
  and a receiver of the concatenated frames gets back exactly the bodies, in order.
\<close>

theorem frames_delimit:
  assumes "list_all (\<lambda>m. length m < 2 ^ 16) bodies"
  shows "\<exists>bufs. mapM_res frame bodies = (Ok bufs :: ('e, bytes list) res) \<and>
      unframe_all (length bodies) (concat bufs) = bodies"
proof -
  have "mapM_res frame bodies = Ok (map (\<lambda>m. be_bytes 2 (length m) @ m) bodies)"
    using assms by (intro mapM_res_Ok) (simp add: frame_def list_all_iff)
  then show ?thesis using unframe_all_frames by blast
qed

theorem frames_delimit_witness:
  "\<exists>bufs. mapM_res frame [[1, 2], [], [3]] = (Ok bufs :: (unit, bytes list) res) \<and>
    unframe_all 3 (concat bufs) = [[1, 2], [], [3]]"
proof -
  have bodies: "list_all (\<lambda>m. length m < 2 ^ 16) [[1, 2], [], [3 :: u8]]" "length [[1, 2], [], [3 :: u8]] = 3" by simp_all
  from frames_delimit [OF bodies(1), unfolded bodies(2)] show ?thesis .
qed

end
