(* ===== verification/Active.thy ===== *)
theory Active
  imports Wire
begin

text \<open>
  An open channel: \<open>ActiveChannel\<close> of \<open>src/channel/active.rs\<close> and the pending \<open>ChannelUpdate\<close>
  of \<open>src/channel/channel_update.rs\<close>.  The client's bus is shared and is the state every
  operation threads; operations that also change a channel or an update work on the pair of
  the object and the bus.
\<close>

section \<open>Data\<close>

record perun_client =
  cl_signer :: signer

record active_channel =
  ac_part_idx :: part_idx
  ac_withdraw_receiver :: address
  ac_client :: perun_client
  ac_state :: state
  ac_params :: params
  ac_signatures :: "signature list"
  ac_peers :: peers

record channel_update =
  cu_channel_id :: hash
  cu_new_state :: state
  cu_signatures :: "signature option list"

datatype invalid_update =
    IU_InvalidChannelID
  | IU_InvalidVersionNumber
  | IU_CurrentStateIsFinal
  | IU_AssetsMismatch
  | IU_TotalAllocationAmountMismatch

datatype propose_update_error =
    PU_AbiEncodeError error
  | PU_InvalidUpdate invalid_update

datatype handle_update_error =
    HU_AbiEncodeError error
  | HU_RecoveryFailed sig_error
  | HU_InvalidSignature address
  | HU_InvalidUpdate invalid_update

datatype sign_error =
    SE_AbiEncodeError error
  | SE_AlreadySigned

datatype invalid_channel =
    IC_WrongVersion
  | IC_WrongChannelId

datatype add_signature_error =
    AS_AbiEncodeError error
  | AS_RecoveryFailed sig_error
  | AS_AlreadySigned
  | AS_InvalidSignature address
  | AS_InvalidChannelID
  | AS_InvalidVersionNumber
  | AS_WrongVersion
  | AS_WrongChannelId

datatype accept_error =
    AE_AbiEncodeError error
  | AE_AlreadyAccepted
  | AE_WrongVersion
  | AE_WrongChannelId

datatype apply_error =
    AP_MissingSignature part_idx
  | AP_SignError sign_error
  | AP_WrongVersion
  | AP_WrongChannelId

text \<open>The \<open>From<InvalidChannel>\<close> conversions.\<close>

primrec add_signature_error_of :: "invalid_channel \<Rightarrow> add_signature_error" where
  "add_signature_error_of IC_WrongVersion = AS_WrongVersion"
| "add_signature_error_of IC_WrongChannelId = AS_WrongChannelId"

primrec accept_error_of :: "invalid_channel \<Rightarrow> accept_error" where
  "accept_error_of IC_WrongVersion = AE_WrongVersion"
| "accept_error_of IC_WrongChannelId = AE_WrongChannelId"

primrec apply_error_of :: "invalid_channel \<Rightarrow> apply_error" where
  "apply_error_of IC_WrongVersion = AP_WrongVersion"
| "apply_error_of IC_WrongChannelId = AP_WrongChannelId"

text \<open>Running a bus operation, or changing the object, in a pair state.\<close>

definition on_bus :: "(bus, 'e, 'a) cmd \<Rightarrow> ('s \<times> bus, 'e, 'a) cmd" where
  "on_bus m = (\<lambda>(s, bus). case m bus of (r, bus') \<Rightarrow> (r, (s, bus')))"

definition modify_obj :: "('s \<Rightarrow> 's) \<Rightarrow> ('s \<times> bus, 'e, unit) cmd" where
  "modify_obj f = (\<lambda>(s, bus). (Ok (), (f s, bus)))"

section \<open>Active channels\<close>

definition ActiveChannel_new ::
    "build \<Rightarrow> perun_client \<Rightarrow> part_idx \<Rightarrow> address \<Rightarrow> state \<Rightarrow> params \<Rightarrow> signature list \<Rightarrow> peers \<Rightarrow>
      ('e, active_channel) res" where
  "ActiveChannel_new b client part_idx withdraw_receiver init_state params signatures peers =
     bind_res (debug_assert b (part_idx < length (pa_participants params))) (\<lambda>_.
     Ok \<lparr>ac_part_idx = part_idx, ac_withdraw_receiver = withdraw_receiver, ac_client = client,
         ac_state = init_state, ac_params = params, ac_signatures = signatures, ac_peers = peers\<rparr>)"

definition check_valid_transition ::
    "build \<Rightarrow> ext \<Rightarrow> active_channel \<Rightarrow> state \<Rightarrow> (invalid_update, unit) res" where
  "check_valid_transition b X ch new_state =
     bind_res (debug_assert_valid b (st_outcome new_state)) (\<lambda>_.
     if st_id new_state \<noteq> st_id (ac_state ch) then Err IU_InvalidChannelID
     else if st_is_final (ac_state ch) then Err IU_CurrentStateIsFinal
     else
       bind_res (u64_add b (st_version (ac_state ch)) 1) (\<lambda>next.
       if st_version new_state \<noteq> next then Err IU_InvalidVersionNumber
       else if al_assets (st_outcome new_state) \<noteq> al_assets (st_outcome (ac_state ch))
       then Err IU_AssetsMismatch
       else
         bind_res (total_assets X (st_outcome new_state)) (\<lambda>new_total.
         bind_res (total_assets X (st_outcome (ac_state ch))) (\<lambda>old_total.
         if new_total \<noteq> old_total then Err IU_TotalAllocationAmountMismatch else Ok ()))))"

definition ChannelUpdate_new ::
    "active_channel \<Rightarrow> state \<Rightarrow> part_idx \<Rightarrow> signature \<Rightarrow> ('e, channel_update) res" where
  "ChannelUpdate_new ch new_state sig_part_idx sig =
     bind_res (set_index (replicate PARTICIPANTS None) sig_part_idx (Some sig)) (\<lambda>signatures.
     Ok \<lparr>cu_channel_id = st_id (ac_state ch), cu_new_state = new_state, cu_signatures = signatures\<rparr>)"

definition update ::
    "build \<Rightarrow> ext \<Rightarrow> active_channel \<Rightarrow> state \<Rightarrow> (bus, propose_update_error, channel_update) cmd" where
  "update b X ch new_state =
     bindS (lift_res (map_err PU_InvalidUpdate (check_valid_transition b X ch new_state))) (\<lambda>_.
     bindS (lift_res (map_err PU_AbiEncodeError (to_hash b X (State_sval X new_state)))) (\<lambda>h.
     bindS (lift_res (sign_eth b X (cl_signer (ac_client ch)) h)) (\<lambda>sig.
     bindS (broadcast_to_participants (ac_part_idx ch) (ac_peers ch)
              (ChannelUpdate \<lparr>lu_state = new_state, lu_actor_idx = ac_part_idx ch, lu_sig = sig\<rparr>)) (\<lambda>_.
     lift_res (ChannelUpdate_new ch new_state (ac_part_idx ch) sig)))))"

definition handle_update ::
    "build \<Rightarrow> ext \<Rightarrow> active_channel \<Rightarrow> ledger_channel_update \<Rightarrow>
      (handle_update_error, channel_update) res" where
  "handle_update b X ch msg =
     bind_res (map_err HU_InvalidUpdate (check_valid_transition b X ch (lu_state msg))) (\<lambda>_.
     bind_res (map_err HU_AbiEncodeError (to_hash b X (State_sval X (lu_state msg)))) (\<lambda>h.
     bind_res (map_err HU_RecoveryFailed (recover_signer b X h (lu_sig msg))) (\<lambda>signer.
     bind_res (index (pa_participants (ac_params ch)) (lu_actor_idx msg)) (\<lambda>participant.
     if participant \<noteq> signer then Err (HU_InvalidSignature signer)
     else ChannelUpdate_new ch (lu_state msg) (lu_actor_idx msg) (lu_sig msg)))))"

definition make_watch_info :: "active_channel \<Rightarrow> start_watching_ledger_channel_req" where
  "make_watch_info ch = \<lparr>sl_params = ac_params ch, sl_state = ac_state ch, sl_sigs = ac_signatures ch\<rparr>"

definition send_current_state_to_watcher :: "active_channel \<Rightarrow> (bus, sign_error, unit) cmd" where
  "send_current_state_to_watcher ch bus =
     (Ok (), send_to_watcher (WatchRequest (make_watch_info ch)) bus)"

definition force_update ::
    "state \<Rightarrow> signature list \<Rightarrow> (active_channel \<times> bus, sign_error, unit) cmd" where
  "force_update new_state signatures = (\<lambda>(ch, bus).
     let ch' = ch\<lparr>ac_state := new_state, ac_signatures := signatures\<rparr> in
     case send_current_state_to_watcher ch' bus of
       (Ok _, bus') \<Rightarrow> (Ok (), (ch', bus'))
     | (Err e, bus') \<Rightarrow> (Err e, (ch'\<lparr>ac_state := ac_state ch, ac_signatures := ac_signatures ch\<rparr>, bus'))
     | (Panic, bus') \<Rightarrow> (Panic, (ch', bus')))"

definition close_normal ::
    "build \<Rightarrow> ext \<Rightarrow> active_channel \<Rightarrow> (bus, propose_update_error, channel_update) cmd" where
  "close_normal b X ch =
     bindS (lift_res (make_next_state b (ac_state ch))) (\<lambda>new_state.
     update b X ch (new_state\<lparr>st_is_final := True\<rparr>))"

definition adjudicator_request :: "active_channel \<Rightarrow> adjudicator_req" where
  "adjudicator_request ch =
     \<lparr>ar_params = ac_params ch, ar_acc = ac_withdraw_receiver ch,
      ar_tx = \<lparr>tx_state = ac_state ch, tx_sigs = ac_signatures ch\<rparr>,
      ar_idx = ac_part_idx ch, ar_secondary = False\<rparr>"

definition force_close :: "active_channel \<Rightarrow> (bus, sign_error, active_channel) cmd" where
  "force_close ch bus =
     (Ok ch, send_to_funder (RegisterReqMsg \<lparr>rr_adj_req = adjudicator_request ch\<rparr>) bus)"

definition withdraw :: "active_channel \<Rightarrow> (bus, sign_error, active_channel) cmd" where
  "withdraw ch bus =
     (Ok ch, send_to_funder (WithdrawReqMsg \<lparr>wr_adj_req = adjudicator_request ch\<rparr>) bus)"

section \<open>Pending updates\<close>

definition ensure_valid_channel ::
    "build \<Rightarrow> channel_update \<Rightarrow> active_channel \<Rightarrow> (invalid_channel, unit) res" where
  "ensure_valid_channel b u ch =
     bind_res (u64_add b (st_version (ac_state ch)) 1) (\<lambda>next.
     if st_version (cu_new_state u) \<noteq> next then Err IC_WrongVersion
     else if cu_channel_id u \<noteq> st_id (ac_state ch) then Err IC_WrongChannelId
     else Ok ())"

definition accept ::
    "build \<Rightarrow> ext \<Rightarrow> active_channel \<Rightarrow> (channel_update \<times> bus, accept_error, unit) cmd" where
  "accept b X ch = (\<lambda>(u, bus).
     bindS (lift_res (map_err accept_error_of (ensure_valid_channel b u ch))) (\<lambda>_.
     bindS (lift_res (index (cu_signatures u) (ac_part_idx ch))) (\<lambda>s.
     case s of
       Some _ \<Rightarrow> fail AE_AlreadyAccepted
     | None \<Rightarrow>
         bindS (lift_res (map_err AE_AbiEncodeError (to_hash b X (State_sval X (cu_new_state u))))) (\<lambda>h.
         bindS (lift_res (sign_eth b X (cl_signer (ac_client ch)) h)) (\<lambda>sig.
         bindS (modify_obj (\<lambda>u. u\<lparr>cu_signatures := (cu_signatures u)[ac_part_idx ch := Some sig]\<rparr>)) (\<lambda>_.
         on_bus (broadcast_to_participants (ac_part_idx ch) (ac_peers ch)
           (ChannelUpdateAccepted
             \<lparr>lua_channel = cu_channel_id u, lua_version = st_version (cu_new_state u), lua_sig = sig\<rparr>))))))) (u, bus))"

definition reject_update ::
    "build \<Rightarrow> channel_update \<Rightarrow> active_channel \<Rightarrow> string \<Rightarrow> (bus, invalid_channel, unit) cmd" where
  "reject_update b u ch reason =
     bindS (lift_res (ensure_valid_channel b u ch)) (\<lambda>_.
     broadcast_to_participants (ac_part_idx ch) (ac_peers ch)
       (ChannelUpdateRejected (cu_channel_id u) (st_version (cu_new_state u)) reason))"

definition participant_accepted ::
    "build \<Rightarrow> ext \<Rightarrow> active_channel \<Rightarrow> part_idx \<Rightarrow> ledger_channel_update_accepted \<Rightarrow>
      (channel_update, add_signature_error, unit) cmd" where
  "participant_accepted b X ch part_idx msg u =
     bindS (lift_res (map_err add_signature_error_of (ensure_valid_channel b u ch))) (\<lambda>_.
     if lua_channel msg \<noteq> cu_channel_id u then fail AS_InvalidChannelID
     else if lua_version msg \<noteq> st_version (cu_new_state u) then fail AS_InvalidVersionNumber
     else
       bindS (lift_res (map_err AS_AbiEncodeError (to_hash b X (State_sval X (cu_new_state u))))) (\<lambda>h.
       bindS (lift_res (map_err AS_RecoveryFailed (recover_signer b X h (lua_sig msg)))) (\<lambda>signer.
       bindS (lift_res (index (pa_participants (ac_params ch)) part_idx)) (\<lambda>participant.
       if participant \<noteq> signer then fail (AS_InvalidSignature signer)
       else
         bindS (lift_res (index (cu_signatures u) part_idx)) (\<lambda>s.
         case s of
           Some _ \<Rightarrow> fail AS_AlreadySigned
         | None \<Rightarrow> (\<lambda>u. (Ok (), u\<lparr>cu_signatures := (cu_signatures u)[part_idx := Some (lua_sig msg)]\<rparr>))))))) u"

text \<open>The loop of \<open>signatures()\<close> over \<open>self.signatures.iter().enumerate()\<close>.\<close>

primrec collect_signatures :: "nat \<Rightarrow> (nat \<Rightarrow> 'e) \<Rightarrow> signature option list \<Rightarrow> ('e, signature list) res" where
  "collect_signatures i missing [] = Ok []"
| "collect_signatures i missing (s # ss) =
     bind_res (ok_or (missing i) s) (\<lambda>v.
     bind_res (collect_signatures (Suc i) missing ss) (\<lambda>vs. Ok (v # vs)))"

definition cu_all_signatures :: "channel_update \<Rightarrow> (apply_error, signature list) res" where
  "cu_all_signatures u = collect_signatures 0 AP_MissingSignature (cu_signatures u)"

definition apply_update ::
    "build \<Rightarrow> channel_update \<Rightarrow> (active_channel \<times> bus, apply_error, unit) cmd" where
  "apply_update b u = (\<lambda>(ch, bus).
     bindS (lift_res (map_err apply_error_of (ensure_valid_channel b u ch))) (\<lambda>_.
     bindS (lift_res (cu_all_signatures u)) (\<lambda>signatures.
     (\<lambda>s. case force_update (cu_new_state u) signatures s of (r, s') \<Rightarrow> (map_err AP_SignError r, s'))))
     (ch, bus))"

end
