(* ===== verification/Active_Facts.thy ===== *)
theory Active_Facts
  imports Active
begin

text \<open>
  What the operations of an open channel do: the exact condition under which a transition is
  accepted, the outcome of every operation on a well-formed channel, and what a signature on a
  state means.
\<close>

section \<open>Well-formed channels\<close>

text \<open>
  The types and the way channels are built give a channel two participants, two signatures and
  an own index below two; the signer is the participant at that index.  The number of peers is
  whatever the proposal said: only the side that proposes checks that it is two.
\<close>

definition channel_ok :: "ext \<Rightarrow> active_channel \<Rightarrow> bool" where
  "channel_ok X ch \<longleftrightarrow> state_wf 1 2 (ac_state ch) \<and> params_wf 2 (ac_params ch) \<and>
     ac_part_idx ch < 2 \<and> length (ac_signatures ch) = 2 \<and>
     signer_ok X (cl_signer (ac_client ch)) \<and>
     pa_participants (ac_params ch) ! ac_part_idx ch = sg_addr (cl_signer (ac_client ch))"

definition channel_wf :: "ext \<Rightarrow> active_channel \<Rightarrow> bool" where
  "channel_wf X ch \<longleftrightarrow> channel_ok X ch \<and> length (ac_peers ch) = 2"

lemma channel_wf_ok: "channel_wf X ch \<Longrightarrow> channel_ok X ch"
  by (simp add: channel_wf_def)

lemma channel_wfD:
  assumes "channel_wf X ch"
  shows "state_wf 1 2 (ac_state ch)" "params_wf 2 (ac_params ch)" "ac_part_idx ch < 2"
    "length (ac_signatures ch) = 2" "length (ac_peers ch) = 2"
    "length (pa_participants (ac_params ch)) = 2"
  using assms by (simp_all add: channel_wf_def channel_ok_def params_wf_def)

definition sig_valid :: "build \<Rightarrow> ext \<Rightarrow> params \<Rightarrow> state \<Rightarrow> nat \<Rightarrow> signature \<Rightarrow> bool" where
  "sig_valid b X p s i sig \<longleftrightarrow> i < length (pa_participants p) \<and>
     (\<exists>h. to_hash b X (State_sval X s) = Ok h \<and>
          recover_signer b X h sig = Ok (pa_participants p ! i))"

abbreviation totals :: "state \<Rightarrow> nat list" where
  "totals s \<equiv> map amounts (al_balances (st_outcome s))"

text \<open>The transitions the protocol allows from one state to the next.\<close>

definition valid_transition :: "build \<Rightarrow> state \<Rightarrow> state \<Rightarrow> bool" where
  "valid_transition b s t \<longleftrightarrow> st_id t = st_id s \<and> \<not> st_is_final s \<and>
     st_version t = st_version s + 1 \<and> (profile b = Release \<or> st_version s \<noteq> - 1) \<and>
     al_assets (st_outcome t) = al_assets (st_outcome s) \<and> totals t = totals s \<and>
     list_all (\<lambda>n. n < 2 ^ 256) (totals s)"

lemma debug_assert_valid_wf: "allocation_wf 1 2 al \<Longrightarrow> debug_assert_valid b al = Ok ()"
  by (auto simp: debug_assert_valid_def allocation_wf_def debug_assert_def index_def
      MAX_NUM_ASSETS_def MAX_NUM_PARTICIPANTS_def length_Suc_conv)

lemma exists_u256_list: "(\<exists>ts :: u256 list. map unat ts = ns) \<longleftrightarrow> list_all (\<lambda>n. n < 2 ^ 256) ns"
proof
  assume "\<exists>ts :: u256 list. map unat ts = ns"
  then show "list_all (\<lambda>n. n < 2 ^ 256) ns"
    using unat_bound [where 'a = 256] by (auto simp: list_all_iff)
next
  assume "list_all (\<lambda>n. n < 2 ^ 256) ns"
  then have "map unat (map word_of_nat ns :: u256 list) = ns"
    by (auto simp: list_all_iff unat_of_nat intro!: map_idI)
  then show "\<exists>ts :: u256 list. map unat ts = ns" by blast
qed

lemma check_valid_transition_Ok:
  assumes "u256_spec X" "state_wf 1 2 t"
  shows "check_valid_transition b X ch t = Ok () \<longleftrightarrow> valid_transition b (ac_state ch) t"
proof -
  let ?s = "ac_state ch"
  have valid: "debug_assert_valid b (st_outcome t) = (Ok () :: (invalid_update, unit) res)"
    using assms(2) by (intro debug_assert_valid_wf) (simp add: state_wf_def)
  have tot: "(\<exists>n m. total_assets X (st_outcome t) = (Ok n :: (invalid_update, u256 list) res) \<and>
        total_assets X (st_outcome ?s) = (Ok m :: (invalid_update, u256 list) res) \<and> n = m) \<longleftrightarrow>
      totals t = totals ?s \<and> list_all (\<lambda>n. n < 2 ^ 256) (totals ?s)"
    unfolding total_assets_Ok_iff [OF assms(1)] using exists_u256_list [of "totals ?s"] by metis
  show ?thesis
    unfolding check_valid_transition_def valid valid_transition_def
    using tot by (auto simp: bind_res_Ok_iff u64_add_one_Ok)
qed

section \<open>Outcomes of the operations\<close>

text \<open>What a channel needs from its environment.\<close>

definition env_ok :: "ext \<Rightarrow> bool" where
  "env_ok X \<longleftrightarrow> u256_spec X \<and> crypto_spec X"

definition fresh_update :: "active_channel \<Rightarrow> state \<Rightarrow> nat \<Rightarrow> signature \<Rightarrow> channel_update" where
  "fresh_update ch t i sig = \<lparr>cu_channel_id = st_id (ac_state ch), cu_new_state = t,
     cu_signatures = (replicate PARTICIPANTS None)[i := Some sig]\<rparr>"

lemma ChannelUpdate_new_Ok:
  "i < 2 \<Longrightarrow> ChannelUpdate_new ch t i sig = Ok (fresh_update ch t i sig)"
  by (simp add: ChannelUpdate_new_def fresh_update_def set_index_def PARTICIPANTS_def)

lemma state_hash_Ok:
  assumes "env_ok X" "state_wf 1 2 t"
  obtains h where "to_hash b X (State_sval X t) = Ok h"
  using State_hash_eq [OF _ assms(2)] assms(1) by (auto simp: env_ok_def)

lemma own_signature:
  assumes "env_ok X" "channel_ok X ch" "to_hash b X (State_sval X t) = Ok h"
  obtains sig where "sign_eth b X (cl_signer (ac_client ch)) h = (Ok sig :: ('e, signature) res)"
    "length sig = 65" "sig_valid b X (ac_params ch) t (ac_part_idx ch) sig"
proof -
  from assms(1,2) obtain sig where "sign_eth b X (cl_signer (ac_client ch)) h = (Ok sig :: ('e, signature) res)"
    "length sig = 65" "recover_signer b X h sig = Ok (sg_addr (cl_signer (ac_client ch)))"
    by (auto simp: env_ok_def channel_ok_def elim: sign_recover)
  with assms(2,3) show ?thesis
    by (intro that) (auto simp: sig_valid_def channel_ok_def params_wf_def)
qed

text \<open>A broadcast goes to all peers but the own one, and panics if there is no peer at the own index.\<close>

definition others :: "nat \<Rightarrow> 'a list \<Rightarrow> 'a list" where
  "others i xs = (if i < length xs then take i xs @ drop (Suc i) xs else [])"

lemma broadcast_from_others:
  "broadcast_from j i s peers m bus = bus @ map (\<lambda>p. ToParticipant s p m)
     (if j \<le> i then take (i - j) peers @ drop (Suc i - j) peers else peers)"
  by (induction peers arbitrary: j bus) (auto simp: send_to_participant_def take_Cons' drop_Cons' Suc_diff_le)

lemma broadcast_outcome:
  "broadcast_to_participants i peers m bus = (if i < length peers then Ok () else Panic,
    bus @ map (\<lambda>p. ToParticipant (peers ! i) p m) (others i peers))"
  by (simp add: broadcast_to_participants_def index_def broadcast_from_others others_def)

lemma others_pair: "i < 2 \<Longrightarrow> length xs = 2 \<Longrightarrow> others i xs = [xs ! (1 - i)]"
  by (auto simp: others_def less_2_cases_iff elim!: length_2E)

lemma broadcast_pair:
  assumes "i < 2" "length peers = 2"
  shows "broadcast_to_participants i peers m bus =
    (Ok (), bus @ [ToParticipant (peers ! i) (peers ! (1 - i)) m])"
  using assms by (simp add: broadcast_outcome others_pair)

lemma update_sends:
  assumes "env_ok X" "channel_ok X ch" "state_wf 1 2 t" "valid_transition b (ac_state ch) t"
  obtains sig where "length sig = 65" "sig_valid b X (ac_params ch) t (ac_part_idx ch) sig"
    "\<And>bus. update b X ch t bus =
      (if ac_part_idx ch < length (ac_peers ch) then Ok (fresh_update ch t (ac_part_idx ch) sig) else Panic,
       bus @ map (\<lambda>p. ToParticipant (ac_peers ch ! ac_part_idx ch) p
         (ChannelUpdate \<lparr>lu_state = t, lu_actor_idx = ac_part_idx ch, lu_sig = sig\<rparr>)) (others (ac_part_idx ch) (ac_peers ch)))"
proof -
  obtain h where h: "to_hash b X (State_sval X t) = Ok h" using assms(1,3) by (rule state_hash_Ok)
  obtain sig where sig: "sign_eth b X (cl_signer (ac_client ch)) h = (Ok sig :: (propose_update_error, signature) res)"
    "length sig = 65" "sig_valid b X (ac_params ch) t (ac_part_idx ch) sig"
    using assms(1,2) h by (rule own_signature)
  have ok: "check_valid_transition b X ch t = Ok ()"
    using assms by (simp add: check_valid_transition_Ok env_ok_def)
  have wf: "ac_part_idx ch < 2" using assms(2) by (simp add: channel_ok_def)
  show ?thesis
    using sig by (intro that [of sig])
      (simp_all add: update_def ok h bindS_def broadcast_outcome ChannelUpdate_new_Ok [OF wf])
qed

lemma update_valid:
  assumes "env_ok X" "channel_wf X ch" "state_wf 1 2 t" "valid_transition b (ac_state ch) t"
  obtains sig where "length sig = 65" "sig_valid b X (ac_params ch) t (ac_part_idx ch) sig"
    "\<And>bus. update b X ch t bus = (Ok (fresh_update ch t (ac_part_idx ch) sig),
       bus @ [ToParticipant (ac_peers ch ! ac_part_idx ch) (ac_peers ch ! (1 - ac_part_idx ch))
         (ChannelUpdate \<lparr>lu_state = t, lu_actor_idx = ac_part_idx ch, lu_sig = sig\<rparr>)])"
proof -
  note wf = channel_wfD(3,5) [OF assms(2)]
  from update_sends [OF assms(1) channel_wf_ok [OF assms(2)] assms(3,4)] obtain sig where
    "length sig = 65" "sig_valid b X (ac_params ch) t (ac_part_idx ch) sig"
    "\<And>bus. update b X ch t bus =
      (if ac_part_idx ch < length (ac_peers ch) then Ok (fresh_update ch t (ac_part_idx ch) sig) else Panic,
       bus @ map (\<lambda>p. ToParticipant (ac_peers ch ! ac_part_idx ch) p
         (ChannelUpdate \<lparr>lu_state = t, lu_actor_idx = ac_part_idx ch, lu_sig = sig\<rparr>)) (others (ac_part_idx ch) (ac_peers ch)))"
    by blast
  then show ?thesis using wf by (intro that [of sig]) (simp_all add: others_pair)
qed

lemma update_invalid:
  assumes "env_ok X" "state_wf 1 2 t" "\<not> valid_transition b (ac_state ch) t"
  obtains r where "\<And>bus. update b X ch t bus = (r, bus)" "\<And>u. r \<noteq> Ok u"
proof -
  have "check_valid_transition b X ch t \<noteq> Ok ()"
    using assms by (simp add: check_valid_transition_Ok env_ok_def)
  then show ?thesis
    by (cases "check_valid_transition b X ch t") (auto simp: update_def intro: that)
qed

lemma handle_update_Ok:
  assumes "env_ok X" "channel_ok X ch" "state_wf 1 2 (lu_state msg)"
  shows "handle_update b X ch msg = Ok u \<longleftrightarrow> valid_transition b (ac_state ch) (lu_state msg) \<and>
    sig_valid b X (ac_params ch) (lu_state msg) (lu_actor_idx msg) (lu_sig msg) \<and>
    u = fresh_update ch (lu_state msg) (lu_actor_idx msg) (lu_sig msg)"
proof -
  obtain h where h: "to_hash b X (State_sval X (lu_state msg)) = Ok h"
    using assms(1,3) by (rule state_hash_Ok)
  have parts: "length (pa_participants (ac_params ch)) = 2"
    using assms(2) by (simp add: channel_ok_def params_wf_def)
  have "check_valid_transition b X ch (lu_state msg) = Ok () \<longleftrightarrow>
      valid_transition b (ac_state ch) (lu_state msg)"
    using assms by (simp add: check_valid_transition_Ok env_ok_def)
  then show ?thesis
    by (auto simp: handle_update_def bind_res_Ok_iff h sig_valid_def parts ChannelUpdate_new_Ok)
qed

lemma ensure_valid_channel_Ok:
  "ensure_valid_channel b u ch = Ok () \<longleftrightarrow>
    st_version (cu_new_state u) = st_version (ac_state ch) + 1 \<and>
    (profile b = Release \<or> st_version (ac_state ch) \<noteq> - 1) \<and> cu_channel_id u = st_id (ac_state ch)"
  by (auto simp: ensure_valid_channel_def bind_res_Ok_iff u64_add_one_Ok)

lemma accept_sends:
  assumes "env_ok X" "channel_ok X ch" "state_wf 1 2 (cu_new_state u)"
    "ensure_valid_channel b u ch = Ok ()" "length (cu_signatures u) = 2"
    "cu_signatures u ! ac_part_idx ch = None"
  obtains sig where "length sig = 65" "sig_valid b X (ac_params ch) (cu_new_state u) (ac_part_idx ch) sig"
    "\<And>bus. accept b X ch (u, bus) =
      (if ac_part_idx ch < length (ac_peers ch) then Ok () else Panic,
       (u\<lparr>cu_signatures := (cu_signatures u)[ac_part_idx ch := Some sig]\<rparr>,
        bus @ map (\<lambda>p. ToParticipant (ac_peers ch ! ac_part_idx ch) p
          (ChannelUpdateAccepted \<lparr>lua_channel = cu_channel_id u,
             lua_version = st_version (cu_new_state u), lua_sig = sig\<rparr>)) (others (ac_part_idx ch) (ac_peers ch))))"
proof -
  obtain h where h: "to_hash b X (State_sval X (cu_new_state u)) = Ok h"
    using assms(1,3) by (rule state_hash_Ok)
  obtain sig where sig: "sign_eth b X (cl_signer (ac_client ch)) h = (Ok sig :: (accept_error, signature) res)"
    "length sig = 65" "sig_valid b X (ac_params ch) (cu_new_state u) (ac_part_idx ch) sig"
    using assms(1,2) h by (rule own_signature)
  have wf: "ac_part_idx ch < 2" using assms(2) by (simp add: channel_ok_def)
  show ?thesis
    using sig by (intro that [of sig])
      (simp_all add: accept_def assms(4,5,6) index_def wf h bindS_def modify_obj_def on_bus_def broadcast_outcome)
qed

lemma accept_valid:
  assumes "env_ok X" "channel_wf X ch" "state_wf 1 2 (cu_new_state u)"
    "ensure_valid_channel b u ch = Ok ()" "length (cu_signatures u) = 2"
    "cu_signatures u ! ac_part_idx ch = None"
  obtains sig where "length sig = 65" "sig_valid b X (ac_params ch) (cu_new_state u) (ac_part_idx ch) sig"
    "\<And>bus. accept b X ch (u, bus) =
      (Ok (), (u\<lparr>cu_signatures := (cu_signatures u)[ac_part_idx ch := Some sig]\<rparr>,
        bus @ [ToParticipant (ac_peers ch ! ac_part_idx ch) (ac_peers ch ! (1 - ac_part_idx ch))
          (ChannelUpdateAccepted \<lparr>lua_channel = cu_channel_id u,
             lua_version = st_version (cu_new_state u), lua_sig = sig\<rparr>)]))"
proof -
  note wf = channel_wfD(3,5) [OF assms(2)]
  from accept_sends [OF assms(1) channel_wf_ok [OF assms(2)] assms(3-6)] obtain sig where
    "length sig = 65" "sig_valid b X (ac_params ch) (cu_new_state u) (ac_part_idx ch) sig"
    "\<And>bus. accept b X ch (u, bus) =
      (if ac_part_idx ch < length (ac_peers ch) then Ok () else Panic,
       (u\<lparr>cu_signatures := (cu_signatures u)[ac_part_idx ch := Some sig]\<rparr>,
        bus @ map (\<lambda>p. ToParticipant (ac_peers ch ! ac_part_idx ch) p
          (ChannelUpdateAccepted \<lparr>lua_channel = cu_channel_id u,
             lua_version = st_version (cu_new_state u), lua_sig = sig\<rparr>)) (others (ac_part_idx ch) (ac_peers ch))))"
    by blast
  then show ?thesis using wf by (intro that [of sig]) (simp_all add: others_pair)
qed

lemma accept_invalid:
  assumes "ensure_valid_channel b u ch \<noteq> Ok () \<or> \<not> ac_part_idx ch < length (cu_signatures u) \<or>
    cu_signatures u ! ac_part_idx ch \<noteq> None"
  obtains r where "\<And>bus. accept b X ch (u, bus) = (r, (u, bus))" "r \<noteq> Ok ()"
proof (cases "ensure_valid_channel b u ch = Ok ()")
  case True
  show ?thesis
  proof (cases "ac_part_idx ch < length (cu_signatures u)")
    case in_range: True
    with True assms obtain sig where "cu_signatures u ! ac_part_idx ch = Some sig" by auto
    with True in_range show ?thesis
      by (intro that [of "Err AE_AlreadyAccepted"]) (simp_all add: accept_def index_def)
  next
    case False
    with True show ?thesis by (intro that [of Panic]) (simp_all add: accept_def index_def)
  qed
next
  case False
  then show ?thesis
    by (cases "ensure_valid_channel b u ch") (auto simp: accept_def intro: that)
qed

lemma participant_accepted_Ok:
  assumes "env_ok X" "state_wf 1 2 (cu_new_state u)"
  shows "participant_accepted b X ch i msg u = (Ok (), u') \<longleftrightarrow>
    ensure_valid_channel b u ch = Ok () \<and> lua_channel msg = cu_channel_id u \<and>
    lua_version msg = st_version (cu_new_state u) \<and>
    sig_valid b X (ac_params ch) (cu_new_state u) i (lua_sig msg) \<and>
    i < length (cu_signatures u) \<and> cu_signatures u ! i = None \<and>
    u' = u\<lparr>cu_signatures := (cu_signatures u)[i := Some (lua_sig msg)]\<rparr>"
proof -
  obtain h where h: "to_hash b X (State_sval X (cu_new_state u)) = Ok h"
    using assms by (rule state_hash_Ok)
  show ?thesis
    by (auto simp: participant_accepted_def bindS_lift_Ok_iff h sig_valid_def
        simp del: bindS_lift split: option.splits if_splits)
qed

lemma participant_accepted_not_Ok:
  "participant_accepted b X ch i msg u = (r, u') \<Longrightarrow> r \<noteq> Ok () \<Longrightarrow> u' = u"
  by (auto simp: participant_accepted_def split: res.splits option.splits if_splits)

lemma collect_signatures_Ok:
  "collect_signatures i f ss = Ok vs \<longleftrightarrow> None \<notin> set ss \<and> vs = map the ss"
  by (induction ss arbitrary: i vs) (auto simp: bind_res_Ok_iff)

lemma apply_update_Ok:
  "apply_update b u (ch, bus) = (Ok (), s') \<longleftrightarrow>
    ensure_valid_channel b u ch = Ok () \<and> None \<notin> set (cu_signatures u) \<and>
    s' = (let ch' = ch\<lparr>ac_state := cu_new_state u, ac_signatures := map the (cu_signatures u)\<rparr>
          in (ch', bus @ [ToWatcher (WatchRequest (make_watch_info ch'))]))"
  by (auto simp: apply_update_def bindS_lift_Ok_iff cu_all_signatures_def collect_signatures_Ok
      force_update_def send_current_state_to_watcher_def send_to_watcher_def Let_def
      simp del: bindS_lift)

lemma apply_update_not_Ok:
  assumes "apply_update b u (ch, bus) = (r, s')" "r \<noteq> Ok ()"
  shows "s' = (ch, bus)"
  using assms
  by (auto simp: apply_update_def force_update_def send_current_state_to_watcher_def Let_def
      split: res.splits)

lemmas sends = force_close_def withdraw_def send_current_state_to_watcher_def send_to_watcher_def
  send_to_funder_def make_watch_info_def adjudicator_request_def

end
