(* ===== verification/Transitions.thy ===== *)
theory Transitions
  imports Main
begin

text \<open>
  The contract between a step relation and an invariant: every step keeps the invariant.  From
  it follow the invariant of every reachable state and, for a preorder that every step from a
  good state respects, that reachability respects it.
\<close>

locale invariant_system =
  fixes step :: "'s \<Rightarrow> 's \<Rightarrow> bool" and inv :: "'s \<Rightarrow> bool"
  assumes step_inv: "inv s \<Longrightarrow> step s t \<Longrightarrow> inv t"
begin

lemma reachable_inv: "step\<^sup>*\<^sup>* s t \<Longrightarrow> inv s \<Longrightarrow> inv t"
  by (induction rule: rtranclp_induct) (auto intro: step_inv)

lemma reachable_preorder:
  assumes "step\<^sup>*\<^sup>* s t" "inv s" "\<And>x. R x x" "\<And>x y z. R x y \<Longrightarrow> R y z \<Longrightarrow> R x z"
    "\<And>x y. inv x \<Longrightarrow> step x y \<Longrightarrow> R x y"
  shows "R s t"
  using assms(1)
proof (induction rule: rtranclp_induct)
  case (step y z)
  then show ?case using assms reachable_inv [OF step.hyps(1) assms(2)] by blast
qed (simp add: assms(3))

end

end
