(* ===== verification/Active_Steps.thy ===== *)
theory Active_Steps
  imports Active_Facts Transitions
begin

text \<open>
  A channel in operation: the channel, every update that is pending on it (the code allows
  several at a time) and the bus, with one step per operation the application can call, on
  every outcome and for arbitrary messages from the other party.  The invariant: what the
  channel holds, and everything it ever sends to the watcher or the funder, is signed by both
  participants; identifier, assets and totals never change.
\<close>

section \<open>Steps\<close>

record system =
  sy_channel :: active_channel
  sy_updates :: "channel_update list"
  sy_bus :: bus

text \<open>
  States and signatures that arrive as arguments have the lengths their Rust types fix.  A call
  of \<open>handle_update\<close> that fails changes nothing and is no step.
  \<open>reject\<close> consumes the update; \<open>force_close\<close> and \<open>withdraw\<close> hand the channel back.
\<close>

inductive chan_step :: "build \<Rightarrow> ext \<Rightarrow> system \<Rightarrow> system \<Rightarrow> bool" for b X where
  propose: "state_wf 1 2 t \<Longrightarrow> update b X ch t bus = (Ok u, bus') \<Longrightarrow>
    chan_step b X \<lparr>sy_channel = ch, sy_updates = us, sy_bus = bus\<rparr>
      \<lparr>sy_channel = ch, sy_updates = us @ [u], sy_bus = bus'\<rparr>"
| propose_fails: "state_wf 1 2 t \<Longrightarrow> update b X ch t bus = (r, bus') \<Longrightarrow> (\<And>u. r \<noteq> Ok u) \<Longrightarrow>
    chan_step b X \<lparr>sy_channel = ch, sy_updates = us, sy_bus = bus\<rparr>
      \<lparr>sy_channel = ch, sy_updates = us, sy_bus = bus'\<rparr>"
| close: "close_normal b X ch bus = (Ok u, bus') \<Longrightarrow>
    chan_step b X \<lparr>sy_channel = ch, sy_updates = us, sy_bus = bus\<rparr>
      \<lparr>sy_channel = ch, sy_updates = us @ [u], sy_bus = bus'\<rparr>"
| close_fails: "close_normal b X ch bus = (r, bus') \<Longrightarrow> (\<And>u. r \<noteq> Ok u) \<Longrightarrow>
    chan_step b X \<lparr>sy_channel = ch, sy_updates = us, sy_bus = bus\<rparr>
      \<lparr>sy_channel = ch, sy_updates = us, sy_bus = bus'\<rparr>"
| handle: "state_wf 1 2 (lu_state msg) \<Longrightarrow> handle_update b X ch msg = Ok u \<Longrightarrow>
    chan_step b X \<lparr>sy_channel = ch, sy_updates = us, sy_bus = bus\<rparr>
      \<lparr>sy_channel = ch, sy_updates = us @ [u], sy_bus = bus\<rparr>"
| accept: "i < length us \<Longrightarrow> accept b X ch (us ! i, bus) = (r, (u', bus')) \<Longrightarrow>
    chan_step b X \<lparr>sy_channel = ch, sy_updates = us, sy_bus = bus\<rparr>
      \<lparr>sy_channel = ch, sy_updates = us[i := u'], sy_bus = bus'\<rparr>"
| reject: "i < length us \<Longrightarrow> reject_update b (us ! i) ch reason bus = (r, bus') \<Longrightarrow>
    chan_step b X \<lparr>sy_channel = ch, sy_updates = us, sy_bus = bus\<rparr>
      \<lparr>sy_channel = ch, sy_updates = take i us @ drop (Suc i) us, sy_bus = bus'\<rparr>"
| accepted: "i < length us \<Longrightarrow> participant_accepted b X ch k msg (us ! i) = (r, u') \<Longrightarrow>
    chan_step b X \<lparr>sy_channel = ch, sy_updates = us, sy_bus = bus\<rparr>
      \<lparr>sy_channel = ch, sy_updates = us[i := u'], sy_bus = bus\<rparr>"
| apply_step: "i < length us \<Longrightarrow> apply_update b (us ! i) (ch, bus) = (r, (ch', bus')) \<Longrightarrow>
    chan_step b X \<lparr>sy_channel = ch, sy_updates = us, sy_bus = bus\<rparr>
      \<lparr>sy_channel = ch', sy_updates = us, sy_bus = bus'\<rparr>"
| resend: "send_current_state_to_watcher ch bus = (r, bus') \<Longrightarrow>
    chan_step b X \<lparr>sy_channel = ch, sy_updates = us, sy_bus = bus\<rparr>
      \<lparr>sy_channel = ch, sy_updates = us, sy_bus = bus'\<rparr>"
| dispute: "force_close ch bus = (Ok ch', bus') \<Longrightarrow>
    chan_step b X \<lparr>sy_channel = ch, sy_updates = us, sy_bus = bus\<rparr>
      \<lparr>sy_channel = ch', sy_updates = us, sy_bus = bus'\<rparr>"
| withdrawal: "withdraw ch bus = (Ok ch', bus') \<Longrightarrow>
    chan_step b X \<lparr>sy_channel = ch, sy_updates = us, sy_bus = bus\<rparr>
      \<lparr>sy_channel = ch', sy_updates = us, sy_bus = bus'\<rparr>"

section \<open>The invariant\<close>

definition fully_signed :: "build \<Rightarrow> ext \<Rightarrow> params \<Rightarrow> state \<Rightarrow> signature list \<Rightarrow> bool" where
  "fully_signed b X p s sigs \<longleftrightarrow> length sigs = 2 \<and> sig_valid b X p s 0 (sigs ! 0) \<and>
     sig_valid b X p s 1 (sigs ! 1)"

text \<open>
  What may go to the watcher and the funder when the messages \<open>sent\<close> have gone out before: states
  with the signatures of both participants.  A funding request carries no signatures; it has to come
  after the watcher was given the same parameters and state.
\<close>

definition watch_requested :: "params \<Rightarrow> state \<Rightarrow> bus \<Rightarrow> bool" where
  "watch_requested p s sent \<longleftrightarrow> list_ex (\<lambda>m. case m of
     ToWatcher (WatchRequest r) \<Rightarrow> sl_params r = p \<and> sl_state r = s | _ \<Rightarrow> False) sent"

definition msg_ok :: "build \<Rightarrow> ext \<Rightarrow> bus \<Rightarrow> bus_msg \<Rightarrow> bool" where
  "msg_ok b X sent m = (case m of
     ToWatcher (WatchRequest r) \<Rightarrow> fully_signed b X (sl_params r) (sl_state r) (sl_sigs r)
   | ToWatcher (StartDispute i) \<Rightarrow> fully_signed b X (wi_params i) (wi_state i) (wi_signatures i)
   | ToFunder (RegisterReqMsg r) \<Rightarrow>
       (let a = rr_adj_req r in fully_signed b X (ar_params a) (tx_state (ar_tx a)) (tx_sigs (ar_tx a)))
   | ToFunder (WithdrawReqMsg r) \<Rightarrow>
       (let a = wr_adj_req r in fully_signed b X (ar_params a) (tx_state (ar_tx a)) (tx_sigs (ar_tx a)))
   | ToFunder (FundReq r) \<Rightarrow> watch_requested (fr_params r) (fr_state r) sent
   | ToParticipant _ _ _ \<Rightarrow> True)"

definition bus_ok :: "build \<Rightarrow> ext \<Rightarrow> bus \<Rightarrow> bool" where
  "bus_ok b X bus \<longleftrightarrow> (\<forall>i<length bus. msg_ok b X (take i bus) (bus ! i))"

lemma bus_ok_Nil [simp]: "bus_ok b X []"
  by (simp add: bus_ok_def)

lemma bus_ok_snoc [simp]: "bus_ok b X (bus @ [m]) \<longleftrightarrow> bus_ok b X bus \<and> msg_ok b X bus m"
  by (auto simp: bus_ok_def nth_append less_Suc_eq)

lemma bus_ok_snoc2 [simp]:
  "bus_ok b X (bus @ [m, m']) \<longleftrightarrow> bus_ok b X bus \<and> msg_ok b X bus m \<and> msg_ok b X (bus @ [m]) m'"
  using bus_ok_snoc [of b X "bus @ [m]" m'] by simp

definition same_funds :: "state \<Rightarrow> state \<Rightarrow> bool" where
  "same_funds s t \<longleftrightarrow> st_id t = st_id s \<and> al_assets (st_outcome t) = al_assets (st_outcome s) \<and>
     totals t = totals s"

definition update_inv :: "build \<Rightarrow> ext \<Rightarrow> active_channel \<Rightarrow> channel_update \<Rightarrow> bool" where
  "update_inv b X ch u \<longleftrightarrow> state_wf 1 2 (cu_new_state u) \<and> cu_channel_id u = st_id (ac_state ch) \<and>
     same_funds (ac_state ch) (cu_new_state u) \<and> length (cu_signatures u) = 2 \<and>
     (\<forall>i<2. \<forall>sig. cu_signatures u ! i = Some sig \<longrightarrow>
        sig_valid b X (ac_params ch) (cu_new_state u) i sig)"

definition system_inv :: "build \<Rightarrow> ext \<Rightarrow> system \<Rightarrow> bool" where
  "system_inv b X s \<longleftrightarrow> env_ok X \<and> channel_ok X (sy_channel s) \<and>
     fully_signed b X (ac_params (sy_channel s)) (ac_state (sy_channel s)) (ac_signatures (sy_channel s)) \<and>
     list_all (update_inv b X (sy_channel s)) (sy_updates s) \<and> bus_ok b X (sy_bus s)"

lemma update_inv_fresh:
  assumes "state_wf 1 2 t" "valid_transition b (ac_state ch) t" "i < 2"
    "sig_valid b X (ac_params ch) t i sig"
  shows "update_inv b X ch (fresh_update ch t i sig)"
  using assms
  by (auto simp: update_inv_def fresh_update_def same_funds_def valid_transition_def
      PARTICIPANTS_def nth_list_update split: if_splits)

lemma update_inv_sign:
  assumes "update_inv b X ch u" "sig_valid b X (ac_params ch) (cu_new_state u) i sig"
  shows "update_inv b X ch (u\<lparr>cu_signatures := (cu_signatures u)[i := Some sig]\<rparr>)"
proof -
  have "xs[i := Some sig] ! k = (if k = i then Some sig else xs ! k)" if "k < length xs" for k xs
    using that by simp
  then show ?thesis using assms by (auto simp: update_inv_def split: if_splits)
qed

lemma update_inv_same_channel:
  "ac_params ch' = ac_params ch \<Longrightarrow> same_funds (ac_state ch) (ac_state ch') \<Longrightarrow>
    update_inv b X ch u \<Longrightarrow> update_inv b X ch' u"
  by (auto simp: update_inv_def same_funds_def)

lemma list_all_update: "list_all P xs \<Longrightarrow> P x \<Longrightarrow> list_all P (xs[i := x])"
  using set_update_subset_insert [of xs i x] by (auto simp: list_all_iff)

lemma list_all_nthD: "list_all P xs \<Longrightarrow> i < length xs \<Longrightarrow> P (xs ! i)"
  by (simp add: list_all_length)

lemma list_all_parts: "list_all P xs \<Longrightarrow> list_all P (take i xs)" "list_all P xs \<Longrightarrow> list_all P (drop j xs)"
  by (auto simp: list_all_iff dest: in_set_takeD in_set_dropD)

lemma bus_ok_participants [simp]:
  "bus_ok b X (bus @ map (\<lambda>p. ToParticipant (f p) (g p) (h p)) ps) \<longleftrightarrow> bus_ok b X bus"
proof (induction ps rule: rev_induct)
  case (snoc p ps)
  have "bus @ map (\<lambda>p. ToParticipant (f p) (g p) (h p)) (ps @ [p]) =
      (bus @ map (\<lambda>p. ToParticipant (f p) (g p) (h p)) ps) @ [ToParticipant (f p) (g p) (h p)]" by simp
  then show ?case using snoc.IH by (simp only: bus_ok_snoc) (simp add: msg_ok_def)
qed simp

lemma broadcast_bus_ok:
  "broadcast_to_participants i peers m bus = ((r :: ('e, unit) res), bus') \<Longrightarrow> bus_ok b X bus' = bus_ok b X bus"
  by (auto simp: broadcast_outcome)

lemma reject_bus:
  assumes "reject_update b u ch reason bus = (r, bus')" "bus_ok b X bus"
  shows "bus_ok b X bus'"
  using assms broadcast_bus_ok [where ?'e = invalid_channel]
  by (auto simp: reject_update_def split: res.splits)

lemma system_inv_update:
  assumes "system_inv b X \<lparr>sy_channel = ch, sy_updates = us, sy_bus = bus\<rparr>"
    "state_wf 1 2 t" "update b X ch t bus = (r, bus')"
  shows "system_inv b X \<lparr>sy_channel = ch, sy_updates = us, sy_bus = bus'\<rparr> \<and>
    (\<forall>u. r = Ok u \<longrightarrow> update_inv b X ch u)"
proof -
  have inv: "env_ok X" "channel_ok X ch" using assms(1) by (simp_all add: system_inv_def)
  show ?thesis
  proof (cases "valid_transition b (ac_state ch) t")
    case True
    obtain sig ps p m where "sig_valid b X (ac_params ch) t (ac_part_idx ch) sig"
      "update b X ch t bus = (if ac_part_idx ch < length (ac_peers ch) then Ok (fresh_update ch t (ac_part_idx ch) sig)
        else Panic, bus @ map (\<lambda>q. ToParticipant p q m) ps)"
      using update_sends [OF inv assms(2) True] by metis
    moreover have "ac_part_idx ch < 2" using inv(2) by (simp add: channel_ok_def)
    ultimately show ?thesis
      using assms True by (auto simp: system_inv_def intro: update_inv_fresh split: if_splits)
  next
    case False
    obtain r' where "\<And>bus. update b X ch t bus = (r', bus)" "\<And>u. r' \<noteq> Ok u"
      using update_invalid [OF inv(1) assms(2) False] by metis
    with assms show ?thesis by auto
  qed
qed

lemma make_next_state_wf:
  "make_next_state b s = Ok t \<Longrightarrow> state_wf 1 2 s \<Longrightarrow> state_wf 1 2 (t\<lparr>st_is_final := True\<rparr>)"
  by (auto simp: make_next_state_def bind_res_Ok_iff state_wf_def)

lemma system_inv_add:
  "system_inv b X \<lparr>sy_channel = ch, sy_updates = us, sy_bus = bus\<rparr> \<Longrightarrow> update_inv b X ch u \<Longrightarrow>
    system_inv b X \<lparr>sy_channel = ch, sy_updates = us @ [u], sy_bus = bus\<rparr>"
  by (simp add: system_inv_def)

lemma close_normal_cases:
  assumes "close_normal b X ch bus = (r, bus')" "state_wf 1 2 (ac_state ch)"
  obtains t where "state_wf 1 2 t" "update b X ch t bus = (r, bus')" | "r = Panic" "bus' = bus"
proof (cases "make_next_state b (ac_state ch) :: (propose_update_error, state) res")
  case (Ok t)
  with assms make_next_state_wf [OF Ok] that(1) show ?thesis by (auto simp: close_normal_def)
next
  case (Err e)
  then show ?thesis by (simp add: make_next_state_def u64_add_def split: if_splits profile.splits)
next
  case Panic
  with assms(1) that(2) show ?thesis by (auto simp: close_normal_def)
qed

lemma system_inv_close:
  assumes "system_inv b X \<lparr>sy_channel = ch, sy_updates = us, sy_bus = bus\<rparr>"
    "close_normal b X ch bus = (r, bus')"
  shows "system_inv b X \<lparr>sy_channel = ch, sy_updates = us, sy_bus = bus'\<rparr> \<and>
    (\<forall>u. r = Ok u \<longrightarrow> update_inv b X ch u)"
proof -
  have "state_wf 1 2 (ac_state ch)" using assms(1) by (simp add: system_inv_def channel_ok_def)
  with assms(2) show ?thesis
    by (cases rule: close_normal_cases) (use assms(1) system_inv_update [OF assms(1)] in auto)
qed

lemma system_inv_handle:
  assumes "system_inv b X \<lparr>sy_channel = ch, sy_updates = us, sy_bus = bus\<rparr>"
    "state_wf 1 2 (lu_state msg)" "handle_update b X ch msg = Ok u"
  shows "update_inv b X ch u"
proof -
  have inv: "env_ok X" "channel_ok X ch" using assms(1) by (simp_all add: system_inv_def)
  from assms(3) show ?thesis
    unfolding handle_update_Ok [OF inv assms(2)]
    using inv(2) assms(2)
    by (auto simp: sig_valid_def channel_ok_def params_wf_def intro!: update_inv_fresh)
qed

lemma system_inv_accept:
  assumes "system_inv b X \<lparr>sy_channel = ch, sy_updates = us, sy_bus = bus\<rparr>" "update_inv b X ch u"
    "accept b X ch (u, bus) = (r, (u', bus'))"
  shows "update_inv b X ch u' \<and> bus_ok b X bus'"
proof -
  have inv: "env_ok X" "channel_ok X ch" "bus_ok b X bus"
    using assms(1) by (simp_all add: system_inv_def)
  have u: "state_wf 1 2 (cu_new_state u)" "length (cu_signatures u) = 2"
    using assms(2) by (simp_all add: update_inv_def)
  show ?thesis
  proof (cases "ensure_valid_channel b u ch = Ok () \<and> cu_signatures u ! ac_part_idx ch = None")
    case True
    then obtain sig q ps p m where "sig_valid b X (ac_params ch) (cu_new_state u) (ac_part_idx ch) sig"
      "accept b X ch (u, bus) = (q, (u\<lparr>cu_signatures := (cu_signatures u)[ac_part_idx ch := Some sig]\<rparr>,
        bus @ map (\<lambda>q. ToParticipant p q m) ps))"
      using accept_sends [OF inv(1,2) u(1) _ u(2)] by metis
    with assms inv show ?thesis by (auto intro: update_inv_sign)
  next
    case False
    then obtain r' where "\<And>bus. accept b X ch (u, bus) = (r', (u, bus))"
      using accept_invalid [of b u ch X] by metis
    with assms inv show ?thesis by auto
  qed
qed

lemma update_inv_accepted:
  assumes "env_ok X" "update_inv b X ch u" "participant_accepted b X ch k msg u = (r, u')"
  shows "update_inv b X ch u'"
proof (cases "r = Ok ()")
  case True
  have "state_wf 1 2 (cu_new_state u)" using assms(2) by (simp add: update_inv_def)
  from participant_accepted_Ok [OF assms(1) this] assms True show ?thesis
    by (auto intro: update_inv_sign)
next
  case False
  with participant_accepted_not_Ok [OF assms(3)] assms(2) show ?thesis by simp
qed

lemma update_inv_fully_signed:
  assumes "update_inv b X ch u" "None \<notin> set (cu_signatures u)"
  shows "fully_signed b X (ac_params ch) (cu_new_state u) (map the (cu_signatures u))"
proof -
  have len: "length (cu_signatures u) = 2" using assms(1) by (simp add: update_inv_def)
  have "sig_valid b X (ac_params ch) (cu_new_state u) i (the (cu_signatures u ! i))" if "i < 2" for i
  proof -
    have "cu_signatures u ! i \<noteq> None" using assms(2) len that nth_mem by metis
    then show ?thesis using assms(1) that by (auto simp: update_inv_def)
  qed
  then show ?thesis using len by (simp add: fully_signed_def)
qed

lemma system_inv_apply:
  assumes "system_inv b X \<lparr>sy_channel = ch, sy_updates = us, sy_bus = bus\<rparr>" "u \<in> set us"
    "apply_update b u (ch, bus) = (r, (ch', bus'))"
  shows "system_inv b X \<lparr>sy_channel = ch', sy_updates = us, sy_bus = bus'\<rparr> \<and>
    same_funds (ac_state ch) (ac_state ch')"
proof (cases "r = Ok ()")
  case True
  have u: "update_inv b X ch u" using assms(1,2) by (auto simp: system_inv_def list_all_iff)
  from True assms(3) have ch': "ch' = ch\<lparr>ac_state := cu_new_state u, ac_signatures := map the (cu_signatures u)\<rparr>"
    "None \<notin> set (cu_signatures u)" "bus' = bus @ [ToWatcher (WatchRequest (make_watch_info ch'))]"
    by (simp_all add: apply_update_Ok Let_def)
  have signed: "fully_signed b X (ac_params ch') (ac_state ch') (ac_signatures ch')"
    using update_inv_fully_signed [OF u ch'(2)] ch'(1) by simp
  have funds: "same_funds (ac_state ch) (ac_state ch')" using u ch'(1) by (simp add: update_inv_def)
  have "ac_params ch' = ac_params ch" using ch'(1) by simp
  from update_inv_same_channel [OF this funds] have "list_all (update_inv b X ch') us"
    using assms(1) by (auto simp: system_inv_def list_all_iff)
  with assms(1) signed funds ch' u show ?thesis
    by (simp add: system_inv_def channel_ok_def update_inv_def msg_ok_def make_watch_info_def)
next
  case False
  with apply_update_not_Ok [OF assms(3)] assms(1) show ?thesis by (simp add: same_funds_def)
qed

lemma system_inv_step:
  assumes "system_inv b X s" "chan_step b X s t"
  shows "system_inv b X t"
  using assms(2,1)
proof cases
  case (propose t ch bus u bus' us)
  with assms(1) show ?thesis using system_inv_update [of b X ch us bus t] by (auto intro: system_inv_add)
next
  case (propose_fails t ch bus r bus' us)
  with assms(1) show ?thesis using system_inv_update [of b X ch us bus t] by auto
next
  case (close ch bus u bus' us)
  with assms(1) show ?thesis using system_inv_close [of b X ch us bus "Ok u"] by (auto intro: system_inv_add)
next
  case (close_fails ch bus r bus' us)
  with assms(1) show ?thesis using system_inv_close [of b X ch us bus r] by auto
next
  case (handle msg ch u us bus)
  with assms(1) system_inv_handle [of b X ch us bus msg u] show ?thesis by (auto intro: system_inv_add)
next
  case (accept i us ch bus r u' bus')
  with assms(1) system_inv_accept [of b X ch us bus "us ! i" r u' bus'] show ?thesis
    by (auto simp: system_inv_def intro: list_all_update dest: list_all_nthD)
next
  case (reject i us ch reason bus r bus')
  with assms(1) reject_bus show ?thesis by (auto simp: system_inv_def intro: list_all_parts)
next
  case (accepted i us ch k msg r u' bus)
  with assms(1) update_inv_accepted [of X b ch "us ! i" k msg r u'] show ?thesis
    by (auto simp: system_inv_def intro: list_all_update dest: list_all_nthD)
next
  case (apply_step i us ch bus r ch' bus')
  with assms(1) system_inv_apply [of b X ch us bus "us ! i" r ch' bus'] show ?thesis by auto
next
  case (resend ch bus r bus' us)
  with assms(1) show ?thesis by (auto simp: system_inv_def sends msg_ok_def)
next
  case (dispute ch bus ch' bus' us)
  with assms(1) show ?thesis by (auto simp: system_inv_def sends msg_ok_def)
next
  case (withdrawal ch bus ch' bus' us)
  with assms(1) show ?thesis by (auto simp: system_inv_def sends msg_ok_def)
qed

interpretation chan: invariant_system "chan_step b X" "system_inv b X"
  by unfold_locales (rule system_inv_step)

section \<open>What a step changes\<close>

definition same_channel :: "system \<Rightarrow> system \<Rightarrow> bool" where
  "same_channel s t \<longleftrightarrow> same_funds (ac_state (sy_channel s)) (ac_state (sy_channel t)) \<and>
     ac_params (sy_channel t) = ac_params (sy_channel s) \<and>
     ac_part_idx (sy_channel t) = ac_part_idx (sy_channel s) \<and>
     ac_withdraw_receiver (sy_channel t) = ac_withdraw_receiver (sy_channel s)"

lemma same_channel_refl: "same_channel s s"
  by (simp add: same_channel_def same_funds_def)

lemma same_channel_trans: "same_channel s t \<Longrightarrow> same_channel t u \<Longrightarrow> same_channel s u"
  by (simp add: same_channel_def same_funds_def)

lemma apply_update_frame:
  assumes "apply_update b u (ch, bus) = (r, (ch', bus'))"
  shows "ac_params ch' = ac_params ch" "ac_part_idx ch' = ac_part_idx ch"
    "ac_withdraw_receiver ch' = ac_withdraw_receiver ch"
    "ac_state ch' = ac_state ch \<or> r = Ok () \<and> ac_state ch' = cu_new_state u \<and>
      ensure_valid_channel b u ch = Ok ()"
proof -
  have "ch' = ch \<or> r = Ok () \<and> ensure_valid_channel b u ch = Ok () \<and>
      ch' = ch\<lparr>ac_state := cu_new_state u, ac_signatures := map the (cu_signatures u)\<rparr>"
    using assms apply_update_not_Ok [OF assms] by (cases "r = Ok ()") (auto simp: apply_update_Ok Let_def)
  then show "ac_params ch' = ac_params ch" "ac_part_idx ch' = ac_part_idx ch"
    "ac_withdraw_receiver ch' = ac_withdraw_receiver ch"
    "ac_state ch' = ac_state ch \<or> r = Ok () \<and> ac_state ch' = cu_new_state u \<and>
      ensure_valid_channel b u ch = Ok ()" by auto
qed

lemma step_same_channel:
  assumes "system_inv b X s" "chan_step b X s t"
  shows "same_channel s t"
  using assms(2)
proof cases
  case (apply_step i us ch bus r ch' bus')
  with assms(1) system_inv_apply [of b X ch us bus "us ! i" r ch' bus'] apply_update_frame [OF apply_step(4)]
  show ?thesis by (simp add: same_channel_def)
qed (auto simp: same_channel_def same_funds_def force_close_def withdraw_def)

section \<open>Versions and finality\<close>

text \<open>
  No pending update is ahead of the channel by more than one version, and one that is ahead by
  one was made for a channel that is not final.
\<close>

definition version_ok :: "active_channel \<Rightarrow> channel_update \<Rightarrow> bool" where
  "version_ok ch u \<longleftrightarrow> unat (st_version (cu_new_state u)) \<le> unat (st_version (ac_state ch)) + 1 \<and>
     (unat (st_version (cu_new_state u)) = unat (st_version (ac_state ch)) + 1 \<longrightarrow>
        \<not> st_is_final (ac_state ch))"

definition version_inv :: "build \<Rightarrow> ext \<Rightarrow> system \<Rightarrow> bool" where
  "version_inv b X s \<longleftrightarrow> profile b = Debug \<and> system_inv b X s \<and>
     list_all (version_ok (sy_channel s)) (sy_updates s)"

lemma next_version:
  "profile b = Debug \<Longrightarrow> v = w + 1 \<Longrightarrow> profile b = Release \<or> w \<noteq> - 1 \<Longrightarrow> unat v = unat w + 1"
  for v w :: u64
  using unat_bound [of w] by (auto simp: unat_plus_if' unsigned_minus_1_eq_mask mask_eq_exp_minus_1 word_unat_eq_iff)

lemma version_ok_fresh:
  assumes "profile b = Debug" "valid_transition b (ac_state ch) t"
  shows "version_ok ch (fresh_update ch t i sig)"
proof -
  have "unat (st_version t) = unat (st_version (ac_state ch)) + 1"
    using assms by (intro next_version [of b]) (auto simp: valid_transition_def)
  then show ?thesis using assms(2) by (simp add: version_ok_def fresh_update_def valid_transition_def)
qed

lemma version_ok_same_state:
  "cu_new_state u' = cu_new_state u \<Longrightarrow> version_ok ch u \<Longrightarrow> version_ok ch u'"
  by (simp add: version_ok_def)

lemma update_version_ok:
  assumes "profile b = Debug" "env_ok X" "channel_ok X ch" "state_wf 1 2 t" "update b X ch t bus = (Ok u, bus')"
  shows "version_ok ch u"
proof (cases "valid_transition b (ac_state ch) t")
  case True
  obtain sig out where "update b X ch t bus =
      (if ac_part_idx ch < length (ac_peers ch) then Ok (fresh_update ch t (ac_part_idx ch) sig) else Panic, out)"
    using update_sends [OF assms(2-4) True] by metis
  then show ?thesis using version_ok_fresh [OF assms(1) True] assms(5) by (auto split: if_splits)
next
  case False
  then show ?thesis using update_invalid [OF assms(2,4) False] assms(5) by (metis Pair_inject)
qed

lemma accept_new_state: "accept b X ch (u, bus) = (r, (u', bus')) \<Longrightarrow> cu_new_state u' = cu_new_state u"
  by (auto simp: accept_def bindS_def modify_obj_def on_bus_def split: res.splits option.splits prod.splits)

lemma accepted_new_state:
  "participant_accepted b X ch k msg u = (r, u') \<Longrightarrow> cu_new_state u' = cu_new_state u"
  by (auto simp: participant_accepted_def split: res.splits option.splits if_splits)

lemma version_step_apply:
  assumes "profile b = Debug" "list_all (version_ok ch) us" "u \<in> set us"
    "apply_update b u (ch, bus) = (r, (ch', bus'))"
  shows "list_all (version_ok ch') us \<and> (ac_state ch' = ac_state ch \<or> \<not> st_is_final (ac_state ch) \<and>
    unat (st_version (ac_state ch')) = unat (st_version (ac_state ch)) + 1)"
proof -
  have u: "version_ok ch u" using assms(2,3) by (simp add: list_all_iff)
  from apply_update_frame(4) [OF assms(4)] show ?thesis
  proof
    assume "ac_state ch' = ac_state ch"
    then show ?thesis using assms(2) by (simp add: version_ok_def list_all_iff)
  next
    assume new: "r = Ok () \<and> ac_state ch' = cu_new_state u \<and> ensure_valid_channel b u ch = Ok ()"
    then have "unat (st_version (cu_new_state u)) = unat (st_version (ac_state ch)) + 1"
      using assms(1) by (intro next_version [of b]) (auto simp: ensure_valid_channel_Ok)
    with new u assms(2) show ?thesis by (auto simp: version_ok_def list_all_iff)
  qed
qed

lemma version_inv_step:
  assumes "version_inv b X s" "chan_step b X s t"
  shows "version_inv b X t \<and> (ac_state (sy_channel t) = ac_state (sy_channel s) \<or>
    \<not> st_is_final (ac_state (sy_channel s)) \<and>
    unat (st_version (ac_state (sy_channel t))) = unat (st_version (ac_state (sy_channel s))) + 1)"
proof -
  have inv: "profile b = Debug" "system_inv b X s" "list_all (version_ok (sy_channel s)) (sy_updates s)"
    using assms(1) by (simp_all add: version_inv_def)
  have "env_ok X" "channel_ok X (sy_channel s)" "list_all (update_inv b X (sy_channel s)) (sy_updates s)"
    using inv(2) by (simp_all add: system_inv_def)
  note env = this
  have t: "system_inv b X t" using inv(2) assms(2) by (rule system_inv_step)
  from assms(2) have "list_all (version_ok (sy_channel t)) (sy_updates t) \<and>
    (ac_state (sy_channel t) = ac_state (sy_channel s) \<or> \<not> st_is_final (ac_state (sy_channel s)) \<and>
    unat (st_version (ac_state (sy_channel t))) = unat (st_version (ac_state (sy_channel s))) + 1)"
  proof cases
    case (propose t' ch bus u bus' us)
    with inv env update_version_ok [of b X ch t' bus u bus'] show ?thesis by simp
  next
    case (close ch bus u bus' us)
    have "state_wf 1 2 (ac_state ch)" using env(2) close(1) by (simp add: channel_ok_def)
    with close(3) obtain t' where "state_wf 1 2 t'" "update b X ch t' bus = (Ok u, bus')"
      by (rule close_normal_cases) auto
    with close inv env update_version_ok [of b X ch t' bus u bus'] show ?thesis by simp
  next
    case (handle msg ch u us bus)
    with inv env have "u = fresh_update ch (lu_state msg) (lu_actor_idx msg) (lu_sig msg)"
      "valid_transition b (ac_state ch) (lu_state msg)" by (simp_all add: handle_update_Ok)
    with handle inv show ?thesis by (simp add: version_ok_fresh)
  next
    case (accept i us ch bus r u' bus')
    with inv list_all_nthD [of "version_ok ch" us i] accept_new_state [OF accept(4)] show ?thesis
      by (auto intro: list_all_update version_ok_same_state)
  next
    case (accepted i us ch k msg r u' bus)
    with inv list_all_nthD [of "version_ok ch" us i] accepted_new_state [OF accepted(4)] show ?thesis
      by (auto intro: list_all_update version_ok_same_state)
  next
    case (apply_step i us ch bus r ch' bus')
    with inv version_step_apply [of b ch us "us ! i" bus r ch' bus'] show ?thesis by simp
  qed (use inv in \<open>auto simp: force_close_def withdraw_def intro: list_all_parts\<close>)
  with inv(1) t show ?thesis by (simp add: version_inv_def)
qed

interpretation ver: invariant_system "chan_step b X" "version_inv b X"
  by unfold_locales (use version_inv_step in blast)

section \<open>A concrete channel\<close>

definition dbg32 :: build where
  "dbg32 = \<lparr>profile = Debug, ptr_width = W32\<rparr>"

definition toy_sig :: "u8 \<Rightarrow> state \<Rightarrow> signature" where
  "toy_sig k s = (case to_hash dbg32 toy_ext (State_sval toy_ext s) of
     Ok h \<Rightarrow> (case sign_eth dbg32 toy_ext (toy_signer k) h :: (unit, signature) res of Ok sig \<Rightarrow> sig | _ \<Rightarrow> [])
   | _ \<Rightarrow> [])"

text \<open>The channel between the toy signers 7 and 9, seen by participant \<open>i\<close>.\<close>

definition toy_channel :: "nat \<Rightarrow> state \<Rightarrow> active_channel" where
  "toy_channel i s = \<lparr>ac_part_idx = i, ac_withdraw_receiver = replicate 20 1,
     ac_client = \<lparr>cl_signer = toy_signer (if i = 0 then 7 else 9)\<rparr>, ac_state = s,
     ac_params = sample_params 1, ac_signatures = [toy_sig 7 s, toy_sig 9 s], ac_peers = [[10], [11]]\<rparr>"

lemma toy_env_ok: "env_ok toy_ext"
  by (simp add: env_ok_def toy_u256_spec toy_crypto_spec)

lemma toy_channel_wf: "i < 2 \<Longrightarrow> channel_wf toy_ext (toy_channel i (sample_state v))"
proof -
  assume "i < 2"
  then have "i = 0 \<or> i = 1" by auto
  then show ?thesis
    using sample_state_wf [of v] sample_params_wf [of 1] toy_signer_ok [of 7] toy_signer_ok [of 9]
    by (auto simp: channel_wf_def channel_ok_def toy_channel_def sample_params_def toy_signer_def)
qed

lemmas toy_channel_ok = toy_channel_wf [THEN channel_wf_ok]

lemma toy_sig_valid:
  assumes "state_wf 1 2 s" "i < length (pa_participants p)" "pa_participants p ! i = replicate 20 k"
  shows "sig_valid dbg32 toy_ext p s i (toy_sig k s)"
proof -
  obtain h where h: "to_hash dbg32 toy_ext (State_sval toy_ext s) = Ok h"
    using toy_env_ok assms(1) by (rule state_hash_Ok)
  obtain sig where "sign_eth dbg32 toy_ext (toy_signer k) h = (Ok sig :: (unit, signature) res)"
    "recover_signer dbg32 toy_ext h sig = Ok (sg_addr (toy_signer k))"
    using toy_crypto_spec toy_signer_ok [of k] by (rule sign_recover)
  then show ?thesis
    using h assms by (simp add: sig_valid_def toy_sig_def toy_signer_def)
qed

lemma toy_fully_signed:
  "fully_signed dbg32 toy_ext (ac_params (toy_channel i (sample_state v)))
    (ac_state (toy_channel i (sample_state v))) (ac_signatures (toy_channel i (sample_state v)))"
  by (simp add: fully_signed_def toy_channel_def toy_sig_valid [OF sample_state_wf] sample_params_def)

definition toy_system :: "u64 \<Rightarrow> bus \<Rightarrow> system" where
  "toy_system v bus = \<lparr>sy_channel = toy_channel 0 (sample_state v), sy_updates = [], sy_bus = bus\<rparr>"

lemma toy_withdraw_step:
  "chan_step dbg32 toy_ext (toy_system v bus) (toy_system v (bus @
     [ToFunder (WithdrawReqMsg \<lparr>wr_adj_req = adjudicator_request (toy_channel 0 (sample_state v))\<rparr>)]))"
  unfolding toy_system_def by (rule chan_step.withdrawal) (simp add: withdraw_def send_to_funder_def)

section \<open>Properties\<close>

text \<open>
  C11: \<open>check_valid_transition\<close> accepts a proposed state exactly when it continues the channel:
  same channel, the current state not final, the version one higher, the same assets, and for
  each asset the same total as an exact sum that fits 256 bits.
\<close>

theorem check_valid_transition_iff:
  assumes "u256_spec X" "state_wf 1 2 t"
  shows "check_valid_transition b X ch t = Ok () \<longleftrightarrow>
    st_id t = st_id (ac_state ch) \<and> \<not> st_is_final (ac_state ch) \<and>
    st_version t = st_version (ac_state ch) + 1 \<and>
    (profile b = Release \<or> st_version (ac_state ch) \<noteq> - 1) \<and>
    al_assets (st_outcome t) = al_assets (st_outcome (ac_state ch)) \<and>
    totals t = totals (ac_state ch) \<and> list_all (\<lambda>n. n < 2 ^ 256) (totals (ac_state ch))"
  using check_valid_transition_Ok [OF assms] by (simp add: valid_transition_def)

theorem check_valid_transition_iff_witness:
  "check_valid_transition dbg32 toy_ext (toy_channel 0 (sample_state 4)) (sample_state 5) = Ok () \<and>
   check_valid_transition dbg32 toy_ext (toy_channel 0 (sample_state 4)) (sample_state 6) \<noteq> Ok ()"
  using check_valid_transition_iff [OF toy_u256_spec sample_state_wf [of 5], of dbg32 "toy_channel 0 (sample_state 4)"]
    check_valid_transition_iff [OF toy_u256_spec sample_state_wf [of 6], of dbg32 "toy_channel 0 (sample_state 4)"]
  by (simp add: toy_channel_def sample_state_def dbg32_def)

text \<open>
  C1: everything a channel holds or sends is signed by both.  Starting from a channel whose
  state carries both signatures, after any sequence of calls and any messages from the other
  party, the current state still carries a valid signature of each participant, and so does
  every state ever handed to the watcher or the funder.
\<close>

theorem reachable_fully_signed:
  assumes "env_ok X" "channel_ok X ch" "fully_signed b X (ac_params ch) (ac_state ch) (ac_signatures ch)"
    "(chan_step b X)\<^sup>*\<^sup>* \<lparr>sy_channel = ch, sy_updates = [], sy_bus = []\<rparr> s"
  shows "fully_signed b X (ac_params (sy_channel s)) (ac_state (sy_channel s)) (ac_signatures (sy_channel s)) \<and>
    bus_ok b X (sy_bus s)"
  using chan.reachable_inv [OF assms(4)] assms(1-3) by (simp add: system_inv_def)

theorem reachable_fully_signed_witness:
  "fully_signed dbg32 toy_ext (sample_params 1) (sample_state 4) [toy_sig 7 (sample_state 4), toy_sig 9 (sample_state 4)]"
  using reachable_fully_signed [OF toy_env_ok toy_channel_ok [of 0 4] toy_fully_signed,
      of "toy_system 4 [ToFunder (WithdrawReqMsg \<lparr>wr_adj_req = adjudicator_request (toy_channel 0 (sample_state 4))\<rparr>)]"]
    toy_withdraw_step [of 4 "[]"]
  by (simp add: toy_system_def toy_channel_def r_into_rtranclp)

text \<open>
  C2: funds are conserved for the life of the channel.  However many updates are proposed,
  accepted, rejected and applied, and in whatever order, the channel identifier, the assets, the
  exact total of every asset and the parameters stay what they were.
\<close>

theorem reachable_funds_conserved:
  assumes "env_ok X" "channel_ok X ch" "fully_signed b X (ac_params ch) (ac_state ch) (ac_signatures ch)"
    "(chan_step b X)\<^sup>*\<^sup>* \<lparr>sy_channel = ch, sy_updates = [], sy_bus = []\<rparr> s"
  shows "st_id (ac_state (sy_channel s)) = st_id (ac_state ch) \<and>
    al_assets (st_outcome (ac_state (sy_channel s))) = al_assets (st_outcome (ac_state ch)) \<and>
    totals (ac_state (sy_channel s)) = totals (ac_state ch) \<and> ac_params (sy_channel s) = ac_params ch"
proof -
  let ?s0 = "\<lparr>sy_channel = ch, sy_updates = [], sy_bus = []\<rparr>"
  have "system_inv b X ?s0" using assms(1-3) by (simp add: system_inv_def)
  from chan.reachable_preorder [OF assms(4) this, of same_channel] have "same_channel ?s0 s"
    using same_channel_refl same_channel_trans step_same_channel by blast
  then show ?thesis by (simp add: same_channel_def same_funds_def)
qed

theorem reachable_funds_conserved_witness:
  "totals (ac_state (sy_channel (toy_system 4 [ToFunder (WithdrawReqMsg
      \<lparr>wr_adj_req = adjudicator_request (toy_channel 0 (sample_state 4))\<rparr>)]))) = [7]"
  using reachable_funds_conserved [OF toy_env_ok toy_channel_ok [of 0 4] toy_fully_signed,
      of "toy_system 4 [ToFunder (WithdrawReqMsg \<lparr>wr_adj_req = adjudicator_request (toy_channel 0 (sample_state 4))\<rparr>)]"]
    toy_withdraw_step [of 4 "[]"]
  by (simp add: toy_system_def toy_channel_def r_into_rtranclp sample_state_def)

text \<open>
  C10: versions move one at a time and a final state is final.  In a Debug build, any step from
  a reachable system leaves the channel state alone or replaces it by one whose version is
  exactly one higher, and it never replaces a final state, no matter which updates were pending
  when the channel became final.
\<close>

theorem reachable_final_is_final:
  assumes "profile b = Debug" "env_ok X" "channel_ok X ch"
    "fully_signed b X (ac_params ch) (ac_state ch) (ac_signatures ch)"
    "(chan_step b X)\<^sup>*\<^sup>* \<lparr>sy_channel = ch, sy_updates = [], sy_bus = []\<rparr> s" "chan_step b X s t"
  shows "ac_state (sy_channel t) = ac_state (sy_channel s) \<or>
    \<not> st_is_final (ac_state (sy_channel s)) \<and>
    unat (st_version (ac_state (sy_channel t))) = unat (st_version (ac_state (sy_channel s))) + 1"
proof -
  have "version_inv b X \<lparr>sy_channel = ch, sy_updates = [], sy_bus = []\<rparr>"
    using assms(1-4) by (simp add: version_inv_def system_inv_def)
  with assms(5) have "version_inv b X s" by (rule ver.reachable_inv)
  from version_inv_step [OF this assms(6)] show ?thesis by blast
qed

theorem reachable_final_is_final_witness:
  "\<exists>s t. chan_step dbg32 toy_ext s t \<and> (ac_state (sy_channel t) = ac_state (sy_channel s) \<or>
    \<not> st_is_final (ac_state (sy_channel s)) \<and>
    unat (st_version (ac_state (sy_channel t))) = unat (st_version (ac_state (sy_channel s))) + 1)"
  using reachable_final_is_final [OF _ toy_env_ok toy_channel_ok [of 0 4] toy_fully_signed,
      of "toy_system 4 []"] toy_withdraw_step [of 4 "[]"]
  by (fastforce simp: toy_system_def dbg32_def)

end
