(* ===== verification/Agreed.thy ===== *)
theory Agreed
  imports Active
begin

text \<open>
  The phases before a channel is active: the agreed-upon channel that collects the signatures
  on the initial state (\<open>src/channel/agreed_upon.rs\<close>), the signed channel that waits for the
  funding (\<open>src/channel/signed.rs\<close>), and the withdrawal authorizations
  (\<open>src/channel/withdrawal_auth.rs\<close>).  A transition that gives \<open>self\<close> back with its error
  returns the pair.
\<close>

section \<open>Signed channels (\<open>signed.rs\<close>)\<close>

datatype signed_channel = SignedChannel active_channel

definition SignedChannel_new ::
    "build \<Rightarrow> perun_client \<Rightarrow> part_idx \<Rightarrow> address \<Rightarrow> state \<Rightarrow> params \<Rightarrow> signature list \<Rightarrow> peers \<Rightarrow>
      ('e, signed_channel) res" where
  "SignedChannel_new b client part_idx withdraw_receiver init_state params signatures peers =
     bind_res (ActiveChannel_new b client part_idx withdraw_receiver init_state params signatures peers)
       (\<lambda>ch. Ok (SignedChannel ch))"

primrec mark_funded :: "signed_channel \<Rightarrow> active_channel" where
  "mark_funded (SignedChannel ch) = ch"

definition signed_channel_id :: "signed_channel \<Rightarrow> hash" where
  "signed_channel_id c = st_id (ac_state (mark_funded c))"

section \<open>Agreed-upon channels (\<open>agreed_upon.rs\<close>)\<close>

record agreed_upon_channel =
  ag_part_idx :: part_idx
  ag_withdraw_receiver :: address
  ag_client :: perun_client
  ag_funding_agreement :: balances
  ag_init_state :: state
  ag_params :: params
  ag_signatures :: "signature option list"
  ag_peers :: peers

datatype build_error =
    BE_MissingSignatureResponse part_idx
  | BE_AbiEncodeError error

definition AgreedUponChannel_new ::
    "perun_client \<Rightarrow> balances \<Rightarrow> part_idx \<Rightarrow> address \<Rightarrow> state \<Rightarrow> params \<Rightarrow> peers \<Rightarrow> agreed_upon_channel" where
  "AgreedUponChannel_new client funding_agreement part_idx withdraw_receiver init_state params peers =
     \<lparr>ag_part_idx = part_idx, ag_withdraw_receiver = withdraw_receiver, ag_client = client,
      ag_funding_agreement = funding_agreement, ag_init_state = init_state, ag_params = params,
      ag_signatures = replicate PARTICIPANTS None, ag_peers = peers\<rparr>"

definition sign :: "build \<Rightarrow> ext \<Rightarrow> (agreed_upon_channel \<times> bus, sign_error, unit) cmd" where
  "sign b X = (\<lambda>(c, bus).
     bindS (lift_res (index (ag_signatures c) (ag_part_idx c))) (\<lambda>s.
     case s of
       Some _ \<Rightarrow> fail SE_AlreadySigned
     | None \<Rightarrow>
         bindS (lift_res (map_err SE_AbiEncodeError (to_hash b X (State_sval X (ag_init_state c))))) (\<lambda>h.
         bindS (lift_res (sign_eth b X (cl_signer (ag_client c)) h)) (\<lambda>sig.
         bindS (modify_obj (\<lambda>c. c\<lparr>ag_signatures := (ag_signatures c)[ag_part_idx c := Some sig]\<rparr>)) (\<lambda>_.
         on_bus (broadcast_to_participants (ag_part_idx c) (ag_peers c)
           (ChannelUpdateAccepted \<lparr>lua_channel = st_id (ag_init_state c),
              lua_version = st_version (ag_init_state c), lua_sig = sig\<rparr>)))))) (c, bus))"

text \<open>\<open>iter().enumerate().find(|(_, &addr)| addr == signer)\<close>: the first index.\<close>

fun find_index :: "nat \<Rightarrow> ('a \<Rightarrow> bool) \<Rightarrow> 'a list \<Rightarrow> nat option" where
  "find_index i P [] = None"
| "find_index i P (x # xs) = (if P x then Some i else find_index (Suc i) P xs)"

definition add_signature ::
    "build \<Rightarrow> ext \<Rightarrow> ledger_channel_update_accepted \<Rightarrow> (agreed_upon_channel, add_signature_error, unit) cmd" where
  "add_signature b X msg c =
     (if lua_channel msg \<noteq> st_id (ag_init_state c) then fail AS_InvalidChannelID
      else if lua_version msg \<noteq> 0 then fail AS_InvalidVersionNumber
      else
        bindS (lift_res (map_err AS_AbiEncodeError (to_hash b X (State_sval X (ag_init_state c))))) (\<lambda>h.
        bindS (lift_res (map_err AS_RecoveryFailed (recover_signer b X h (lua_sig msg)))) (\<lambda>signer.
        bindS (lift_res (ok_or (AS_InvalidSignature signer)
                 (find_index 0 (\<lambda>addr. addr = signer) (pa_participants (ag_params c))))) (\<lambda>part_idx.
        bindS (lift_res (index (ag_signatures c) part_idx)) (\<lambda>s.
        case s of
          Some _ \<Rightarrow> fail AS_AlreadySigned
        | None \<Rightarrow> (\<lambda>c. (Ok (), c\<lparr>ag_signatures := (ag_signatures c)[part_idx := Some (lua_sig msg)]\<rparr>))))))) c"

definition build_signed ::
    "build \<Rightarrow> agreed_upon_channel \<Rightarrow> (bus, agreed_upon_channel \<times> build_error, signed_channel) cmd" where
  "build_signed b c =
     bindS (lift_res (map_err (\<lambda>e. (c, e))
       (collect_signatures 0 BE_MissingSignatureResponse (ag_signatures c)))) (\<lambda>signatures.
     bindS (\<lambda>bus. (Ok (), send_to_watcher (WatchRequest
              \<lparr>sl_params = ag_params c, sl_state = ag_init_state c, sl_sigs = signatures\<rparr>) bus)) (\<lambda>_.
     bindS (\<lambda>bus. (Ok (), send_to_funder (FundReq
              \<lparr>fr_part_idx = ag_part_idx c, fr_funding_agreement = ag_funding_agreement c,
               fr_params = ag_params c, fr_state = ag_init_state c\<rparr>) bus)) (\<lambda>_.
     lift_res (SignedChannel_new b (ag_client c) (ag_part_idx c) (ag_withdraw_receiver c)
       (ag_init_state c) (ag_params c) signatures (ag_peers c)))))"

section \<open>Withdrawal authorizations (\<open>withdrawal_auth.rs\<close>)\<close>

record withdrawal_auth =
  wd_channel_id :: hash
  wd_participant :: address
  wd_receiver :: address
  wd_amount :: u256

definition WithdrawalAuth_sval :: "ext \<Rightarrow> withdrawal_auth \<Rightarrow> sval" where
  "WithdrawalAuth_sval X w = SStruct ''WithdrawalAuth''
     [(''channel_id'', bytesN_sval (wd_channel_id w)),
      (''participant'', Address_sval (wd_participant w)),
      (''receiver'', Address_sval (wd_receiver w)),
      (''amount'', U256_sval X (wd_amount w))]"

definition make_withdrawal_auth ::
    "build \<Rightarrow> ext \<Rightarrow> signer \<Rightarrow> hash \<Rightarrow> params \<Rightarrow> address \<Rightarrow> part_idx \<Rightarrow> participant_balances \<Rightarrow>
      (error, signed_withdrawal_auth) res" where
  "make_withdrawal_auth b X signer channel_id params withdraw_receiver part_idx bals =
     bind_res (index (pa_participants params) part_idx) (\<lambda>participant.
     bind_res (index bals part_idx) (\<lambda>amount.
     bind_res (to_hash b X (WithdrawalAuth_sval X \<lparr>wd_channel_id = channel_id,
         wd_participant = participant, wd_receiver = withdraw_receiver, wd_amount = amount\<rparr>)) (\<lambda>h.
     bind_res (sign_eth b X signer h) (\<lambda>sig.
     Ok \<lparr>sw_sig = sig, sw_receiver = withdraw_receiver\<rparr>))))"

definition make_signed_withdrawal_auths ::
    "build \<Rightarrow> ext \<Rightarrow> signer \<Rightarrow> hash \<Rightarrow> params \<Rightarrow> state \<Rightarrow> address \<Rightarrow> part_idx \<Rightarrow>
      (error, signed_withdrawal_auth list) res" where
  "make_signed_withdrawal_auths b X signer channel_id params state withdraw_receiver part_idx =
     bind_res (debug_assert b (ASSETS = length (al_balances (st_outcome state)))) (\<lambda>_.
     zip_fill ASSETS SignedWithdrawalAuth_default
       (make_withdrawal_auth b X signer channel_id params withdraw_receiver part_idx)
       (al_balances (st_outcome state)))"

end
