(* ===== verification/Proposal.thy ===== *)
theory Proposal
  imports Agreed
begin

text \<open>
  The proposal phase: \<open>PerunClient\<close> of \<open>src/client.rs\<close> and \<open>ProposedChannel\<close> of
  \<open>src/channel/proposal.rs\<close>.
\<close>

section \<open>Data\<close>

datatype invalid_proposal =
    NoChallengeDurationSet
  | PeerParticipantCountMismatch

datatype already_accepted_error = AlreadyAcceptedError

datatype handle_accept_error =
    HA_InvalidProposalID
  | HA_AlreadyAccepted

datatype proposal_build_error =
    PB_AbiEncodeError error
  | PB_MissingAccResponse part_idx

record proposed_channel =
  pr_part_idx :: part_idx
  pr_withdraw_receiver :: address
  pr_client :: perun_client
  pr_proposal :: ledger_channel_proposal
  pr_responses :: "ledger_channel_proposal_acc option list"

section \<open>Proposed channels (\<open>proposal.rs\<close>)\<close>

definition ProposedChannel_new ::
    "perun_client \<Rightarrow> part_idx \<Rightarrow> address \<Rightarrow> ledger_channel_proposal \<Rightarrow> proposed_channel" where
  "ProposedChannel_new client part_idx withdraw_receiver prop =
     \<lparr>pr_part_idx = part_idx, pr_withdraw_receiver = withdraw_receiver, pr_client = client,
      pr_proposal = prop, pr_responses = [None]\<rparr>"

definition accept_proposal ::
    "build \<Rightarrow> bytes \<Rightarrow> address \<Rightarrow> (proposed_channel \<times> bus, already_accepted_error, unit) cmd" where
  "accept_proposal b nonce_share addr = (\<lambda>(c, bus).
     let acc = \<lparr>la_proposal_id = lp_proposal_id (pr_proposal c), la_nonce_share = nonce_share,
                la_participant = addr\<rparr> in
     bindS (lift_res (usize_sub b (pr_part_idx c) 1)) (\<lambda>i.
     bindS (lift_res (set_index (pr_responses c) i (Some acc))) (\<lambda>responses.
     bindS (modify_obj (\<lambda>c. c\<lparr>pr_responses := responses\<rparr>)) (\<lambda>_.
     on_bus (broadcast_to_participants (pr_part_idx c) (lp_peers (pr_proposal c))
       (ProposalAccepted acc))))) (c, bus))"

definition reject_proposal :: "proposed_channel \<Rightarrow> string \<Rightarrow> (bus, 'e, unit) cmd" where
  "reject_proposal c reason =
     broadcast_to_participants (pr_part_idx c) (lp_peers (pr_proposal c))
       (ProposalRejected (lp_proposal_id (pr_proposal c)) reason)"

definition proposal_participant_accepted ::
    "build \<Rightarrow> part_idx \<Rightarrow> ledger_channel_proposal_acc \<Rightarrow> (proposed_channel, handle_accept_error, unit) cmd" where
  "proposal_participant_accepted b part_idx msg c =
     (if la_proposal_id msg \<noteq> lp_proposal_id (pr_proposal c) then fail HA_InvalidProposalID
      else
        bindS (lift_res (usize_sub b part_idx 1)) (\<lambda>i.
        bindS (lift_res (index (pr_responses c) i)) (\<lambda>r.
        case r of
          Some _ \<Rightarrow> fail HA_AlreadyAccepted
        | None \<Rightarrow> (\<lambda>c. (Ok (), c\<lparr>pr_responses := (pr_responses c)[i := Some msg]\<rparr>))))) c"

text \<open>
  The loop of \<open>build\<close> over \<open>self.responses.iter().enumerate()\<close>: every response must be there;
  its address goes to \<open>participants[index + 1]\<close> and its nonce share to the hasher.
\<close>

primrec collect_responses ::
    "nat \<Rightarrow> ledger_channel_proposal_acc option list \<Rightarrow> address list \<Rightarrow> bytes \<Rightarrow>
      (proposal_build_error, address list \<times> bytes) res" where
  "collect_responses i [] participants hashed = Ok (participants, hashed)"
| "collect_responses i (r # rs) participants hashed = (case r of
     None \<Rightarrow> Err (PB_MissingAccResponse (i + 1))
   | Some res \<Rightarrow>
       bind_res (set_index participants (i + 1) (la_participant res)) (\<lambda>participants'.
       collect_responses (Suc i) rs participants' (hashed @ la_nonce_share res)))"

definition proposal_params ::
    "ext \<Rightarrow> ledger_channel_proposal \<Rightarrow> address list \<times> bytes \<Rightarrow> ('e, params) res" where
  "proposal_params X prop = (\<lambda>(participants, hashed).
     bind_res (unwrap (u256_from_big_endian X (sha3_256 X hashed))) (\<lambda>nonce.
     Ok \<lparr>pa_challenge_duration = lp_challenge_duration prop, pa_nonce = nonce,
         pa_participants = participants, pa_app = replicate 20 0, pa_ledger_channel = True,
         pa_virtual_channel = False\<rparr>))"

definition build_agreed ::
    "build \<Rightarrow> ext \<Rightarrow> proposed_channel \<Rightarrow> (proposed_channel \<times> proposal_build_error, agreed_upon_channel) res" where
  "build_agreed b X c =
     map_err (\<lambda>e. (c, e)) (
       bind_res (set_index (replicate PARTICIPANTS (bytesN_default 20)) 0 (lp_participant (pr_proposal c))) (\<lambda>participants.
       bind_res (collect_responses 0 (pr_responses c) participants (lp_nonce_share (pr_proposal c))) (\<lambda>r.
       bind_res (proposal_params X (pr_proposal c) r) (\<lambda>params.
       bind_res (map_err PB_AbiEncodeError (State_new b X params (lp_init_bals (pr_proposal c)))) (\<lambda>init_state.
       Ok (AgreedUponChannel_new (pr_client c) (lp_funding_agreement (pr_proposal c)) (pr_part_idx c)
             (pr_withdraw_receiver c) init_state params (lp_peers (pr_proposal c))))))))"

section \<open>The client (\<open>client.rs\<close>)\<close>

definition PerunClient_new :: "signer \<Rightarrow> perun_client" where
  "PerunClient_new s = \<lparr>cl_signer = s\<rparr>"

definition send_handshake_msg :: "bytes \<Rightarrow> bytes \<Rightarrow> bus \<Rightarrow> bus" where
  "send_handshake_msg sender recipient = send_to_participant sender recipient Auth"

definition check_valid_proposal ::
    "build \<Rightarrow> ledger_channel_proposal \<Rightarrow> (invalid_proposal, unit) res" where
  "check_valid_proposal b prop =
     bind_res (debug_assert_valid b (lp_init_bals prop)) (\<lambda>_.
     if lp_challenge_duration prop = 0 then Err NoChallengeDurationSet
     else
       bind_res (index (al_balances (lp_init_bals prop)) 0) (\<lambda>bals.
       if length (lp_peers prop) \<noteq> length bals then Err PeerParticipantCountMismatch else Ok ()))"

definition propose_channel ::
    "build \<Rightarrow> perun_client \<Rightarrow> ledger_channel_proposal \<Rightarrow> address \<Rightarrow>
      (bus, invalid_proposal, proposed_channel) cmd" where
  "propose_channel b client prop withdraw_receiver =
     bindS (lift_res (check_valid_proposal b prop)) (\<lambda>_.
     bindS (broadcast_to_participants 0 (lp_peers prop) (ChannelProposal prop)) (\<lambda>_.
     ret (ProposedChannel_new client 0 withdraw_receiver prop)))"

definition handle_proposal ::
    "perun_client \<Rightarrow> ledger_channel_proposal \<Rightarrow> address \<Rightarrow> (invalid_proposal, proposed_channel) res" where
  "handle_proposal client prop withdraw_receiver =
     Ok (ProposedChannel_new client 1 withdraw_receiver prop)"

end
