(* ===== verification/Opening.thy ===== *)
theory Opening
  imports Proposal Active_Steps
begin

text \<open>
  What the opening phases guarantee: the parameters and the initial state that both sides
  compute from the same proposal and acceptance, the signatures an agreed-upon channel holds,
  and that the channel it builds satisfies what the active phase relies on.
\<close>

section \<open>Proposals\<close>

text \<open>
  What the types fix of a proposal; the number of its peers, which is two in a proposal that
  passes the proposer's check, is not among it.
\<close>

definition proposal_ok :: "ledger_channel_proposal \<Rightarrow> bool" where
  "proposal_ok p \<longleftrightarrow> length (lp_proposal_id p) = 32 \<and> length (lp_nonce_share p) = 32 \<and>
     allocation_wf 1 2 (lp_init_bals p) \<and> length (lp_participant p) = 20"

definition proposal_wf :: "ledger_channel_proposal \<Rightarrow> bool" where
  "proposal_wf p \<longleftrightarrow> proposal_ok p \<and> length (lp_peers p) = 2"

lemma proposal_wf_ok: "proposal_wf p \<Longrightarrow> proposal_ok p"
  by (simp add: proposal_wf_def)

text \<open>The parameters and the state a proposal and an acceptance lead to.\<close>

definition opened_params :: "ext \<Rightarrow> ledger_channel_proposal \<Rightarrow> ledger_channel_proposal_acc \<Rightarrow> params" where
  "opened_params X p a = \<lparr>pa_challenge_duration = lp_challenge_duration p,
     pa_nonce = word_of_nat (be_val (sha3_256 X (lp_nonce_share p @ la_nonce_share a))),
     pa_participants = [lp_participant p, la_participant a], pa_app = replicate 20 0,
     pa_ledger_channel = True, pa_virtual_channel = False\<rparr>"

definition opened_state :: "ext \<Rightarrow> ledger_channel_proposal \<Rightarrow> ledger_channel_proposal_acc \<Rightarrow> state" where
  "opened_state X p a = \<lparr>st_id = keccak256 X (abi_encode (Params_abi (opened_params X p a))),
     st_version = 0, st_outcome = lp_init_bals p, st_app_data = (), st_is_final = False\<rparr>"

lemma opened_params_wf:
  "proposal_ok p \<Longrightarrow> proposal_acc_wf a \<Longrightarrow> params_wf 2 (opened_params X p a)"
  by (simp add: opened_params_def params_wf_def proposal_wf_def proposal_ok_def proposal_acc_wf_def)

lemma opened_state_wf:
  "env_ok X \<Longrightarrow> proposal_ok p \<Longrightarrow> state_wf 1 2 (opened_state X p a)"
  by (simp add: opened_state_def state_wf_def proposal_wf_def proposal_ok_def env_ok_def crypto_spec_def hash_spec_def)

lemma State_new_Ok:
  assumes "u256_spec X" "params_wf 2 p" "allocation_wf 1 2 al"
  shows "State_new b X p al = Ok \<lparr>st_id = keccak256 X (abi_encode (Params_abi p)), st_version = 0,
    st_outcome = al, st_app_data = (), st_is_final = False\<rparr>"
proof -
  obtain h x y where "al = \<lparr>al_assets = [\<lparr>as_holder = h\<rparr>], al_balances = [[x, y]], al_locked = ()\<rparr>"
    using assms(3) by (rule wf_1_2_cases)
  then have "(if profile b = Debug then
        bind_res (index (al_balances al) 0) (\<lambda>b0. debug_assert b (length (pa_participants p) = length b0))
      else Ok ()) = (Ok () :: (error, unit) res)"
    using assms(2) by (simp add: index_def params_wf_def)
  then show ?thesis
    by (simp add: State_new_def debug_assert_valid_wf [OF assms(3)] Params_channel_id_eq [OF assms(1,2)])
qed

lemma build_agreed_Ok:
  assumes "env_ok X" "proposal_ok (pr_proposal c)" "proposal_acc_wf a" "pr_responses c = [Some a]"
  shows "build_agreed b X c = Ok (AgreedUponChannel_new (pr_client c)
    (lp_funding_agreement (pr_proposal c)) (pr_part_idx c) (pr_withdraw_receiver c)
    (opened_state X (pr_proposal c) a) (opened_params X (pr_proposal c) a) (lp_peers (pr_proposal c)))"
proof -
  let ?p = "pr_proposal c"
  have spec: "u256_spec X" "length (sha3_256 X m) = 32" for m
    using assms(1) by (simp_all add: env_ok_def crypto_spec_def hash_spec_def)
  have collected: "collect_responses 0 [Some a] [lp_participant ?p, bytesN_default 20] (lp_nonce_share ?p)
      = Ok ([lp_participant ?p, la_participant a], lp_nonce_share ?p @ la_nonce_share a)"
    by (simp add: set_index_def)
  have params: "proposal_params X ?p ([lp_participant ?p, la_participant a], lp_nonce_share ?p @ la_nonce_share a)
      = (Ok (opened_params X ?p a) :: (proposal_build_error, params) res)"
    by (simp add: proposal_params_def u256_from_be_spec [OF spec(1)] spec(2) opened_params_def)
  have state: "State_new b X (opened_params X ?p a) (lp_init_bals ?p) = Ok (opened_state X ?p a)"
    using State_new_Ok [OF spec(1) opened_params_wf [OF assms(2,3)]] assms(2)
    by (simp add: opened_state_def proposal_wf_def proposal_ok_def)
  show ?thesis
    by (simp add: build_agreed_def assms(4) set_index_def PARTICIPANTS_def numeral_2_eq_2
        collected [simplified] params state)
qed

section \<open>Agreed-upon channels\<close>

definition agreed_ok :: "ext \<Rightarrow> agreed_upon_channel \<Rightarrow> bool" where
  "agreed_ok X c \<longleftrightarrow> state_wf 1 2 (ag_init_state c) \<and> st_version (ag_init_state c) = 0 \<and>
     params_wf 2 (ag_params c) \<and> ag_part_idx c < 2 \<and> length (ag_signatures c) = 2 \<and>
     signer_ok X (cl_signer (ag_client c)) \<and>
     pa_participants (ag_params c) ! ag_part_idx c = sg_addr (cl_signer (ag_client c))"

definition agreed_wf :: "ext \<Rightarrow> agreed_upon_channel \<Rightarrow> bool" where
  "agreed_wf X c \<longleftrightarrow> agreed_ok X c \<and> length (ag_peers c) = 2"

lemma agreed_wf_ok: "agreed_wf X c \<Longrightarrow> agreed_ok X c"
  by (simp add: agreed_wf_def)

definition agreed_inv :: "build \<Rightarrow> ext \<Rightarrow> agreed_upon_channel \<Rightarrow> bool" where
  "agreed_inv b X c \<longleftrightarrow> env_ok X \<and> agreed_ok X c \<and>
     (\<forall>i<2. \<forall>sig. ag_signatures c ! i = Some sig \<longrightarrow> sig_valid b X (ag_params c) (ag_init_state c) i sig)"

lemma find_index_SomeD:
  "find_index i P xs = Some j \<Longrightarrow> i \<le> j \<and> j - i < length xs \<and> P (xs ! (j - i))"
  by (induction i P xs rule: find_index.induct) (auto simp: nth_Cons' Suc_diff_le split: if_splits)

lemma sign_sends:
  assumes "env_ok X" "agreed_ok X c" "ag_signatures c ! ag_part_idx c = None"
  obtains sig where "length sig = 65" "sig_valid b X (ag_params c) (ag_init_state c) (ag_part_idx c) sig"
    "\<And>bus. sign b X (c, bus) = (if ag_part_idx c < length (ag_peers c) then Ok () else Panic,
       (c\<lparr>ag_signatures := (ag_signatures c)[ag_part_idx c := Some sig]\<rparr>,
        bus @ map (\<lambda>p. ToParticipant (ag_peers c ! ag_part_idx c) p
          (ChannelUpdateAccepted \<lparr>lua_channel = st_id (ag_init_state c), lua_version = 0, lua_sig = sig\<rparr>))
          (others (ag_part_idx c) (ag_peers c))))"
proof -
  have "state_wf 1 2 (ag_init_state c)" using assms(2) by (simp add: agreed_ok_def)
  with assms(1) obtain h where h: "to_hash b X (State_sval X (ag_init_state c)) = Ok h"
    by (rule state_hash_Ok)
  obtain sig where sig: "sign_eth b X (cl_signer (ag_client c)) h = (Ok sig :: (sign_error, signature) res)"
    "length sig = 65" "recover_signer b X h sig = Ok (sg_addr (cl_signer (ag_client c)))"
    using assms(1,2) by (auto simp: env_ok_def agreed_ok_def elim: sign_recover)
  have wf: "ag_part_idx c < 2" "length (ag_signatures c) = 2"
    "st_version (ag_init_state c) = 0" "length (pa_participants (ag_params c)) = 2"
    using assms(2) by (simp_all add: agreed_ok_def params_wf_def)
  have "sig_valid b X (ag_params c) (ag_init_state c) (ag_part_idx c) sig"
    using assms(2) sig h wf by (simp add: sig_valid_def agreed_ok_def)
  then show ?thesis
    using sig by (intro that [of sig])
      (simp_all add: sign_def index_def assms(3) wf h bindS_def modify_obj_def on_bus_def broadcast_outcome)
qed

lemma sign_valid:
  assumes "env_ok X" "agreed_wf X c" "ag_signatures c ! ag_part_idx c = None"
  obtains sig where "length sig = 65" "sig_valid b X (ag_params c) (ag_init_state c) (ag_part_idx c) sig"
    "\<And>bus. sign b X (c, bus) = (Ok (), (c\<lparr>ag_signatures := (ag_signatures c)[ag_part_idx c := Some sig]\<rparr>,
        bus @ [ToParticipant (ag_peers c ! ag_part_idx c) (ag_peers c ! (1 - ag_part_idx c))
          (ChannelUpdateAccepted \<lparr>lua_channel = st_id (ag_init_state c), lua_version = 0, lua_sig = sig\<rparr>)]))"
proof -
  have wf: "ag_part_idx c < 2" "length (ag_peers c) = 2" using assms(2) by (simp_all add: agreed_wf_def agreed_ok_def)
  from sign_sends [OF assms(1) agreed_wf_ok [OF assms(2)] assms(3)] obtain sig where
    "length sig = 65" "sig_valid b X (ag_params c) (ag_init_state c) (ag_part_idx c) sig"
    "\<And>bus. sign b X (c, bus) = (if ag_part_idx c < length (ag_peers c) then Ok () else Panic,
       (c\<lparr>ag_signatures := (ag_signatures c)[ag_part_idx c := Some sig]\<rparr>,
        bus @ map (\<lambda>p. ToParticipant (ag_peers c ! ag_part_idx c) p
          (ChannelUpdateAccepted \<lparr>lua_channel = st_id (ag_init_state c), lua_version = 0, lua_sig = sig\<rparr>))
          (others (ag_part_idx c) (ag_peers c))))"
    by blast
  then show ?thesis using wf by (intro that [of sig]) (simp_all add: others_pair)
qed

lemma sign_already:
  assumes "agreed_ok X c" "ag_signatures c ! ag_part_idx c \<noteq> None"
  shows "sign b X (c, bus) = (Err SE_AlreadySigned, (c, bus))"
  using assms by (auto simp: sign_def index_def agreed_ok_def)

lemma add_signature_Ok:
  assumes "env_ok X" "agreed_ok X c" "add_signature b X msg c = (Ok (), c')"
  obtains i where "i < 2" "ag_signatures c ! i = None"
    "sig_valid b X (ag_params c) (ag_init_state c) i (lua_sig msg)"
    "c' = c\<lparr>ag_signatures := (ag_signatures c)[i := Some (lua_sig msg)]\<rparr>"
proof -
  have "state_wf 1 2 (ag_init_state c)" using assms(2) by (simp add: agreed_ok_def)
  with assms(1) obtain h where h: "to_hash b X (State_sval X (ag_init_state c)) = Ok h"
    by (rule state_hash_Ok)
  from assms(3) obtain signer i where r: "recover_signer b X h (lua_sig msg) = Ok signer"
    "find_index 0 (\<lambda>a. a = signer) (pa_participants (ag_params c)) = Some i"
    "ag_signatures c ! i = None" "c' = c\<lparr>ag_signatures := (ag_signatures c)[i := Some (lua_sig msg)]\<rparr>"
    by (auto simp: add_signature_def bindS_lift_Ok_iff h simp del: bindS_lift split: if_splits option.splits)
  have "length (pa_participants (ag_params c)) = 2"
    using assms(2) by (simp add: agreed_ok_def params_wf_def)
  with find_index_SomeD [OF r(2)] h r show ?thesis
    by (intro that [of i]) (auto simp: sig_valid_def)
qed

lemma add_signature_not_Ok:
  "add_signature b X msg c = (r, c') \<Longrightarrow> r \<noteq> Ok () \<Longrightarrow> c' = c"
  by (auto simp: add_signature_def split: res.splits option.splits if_splits)

text \<open>The calls an application makes while the signatures come in.\<close>

inductive agreed_step :: "build \<Rightarrow> ext \<Rightarrow> agreed_upon_channel \<Rightarrow> agreed_upon_channel \<Rightarrow> bool" for b X where
  signing: "sign b X (c, bus) = (r, (c', bus')) \<Longrightarrow> agreed_step b X c c'"
| adding: "add_signature b X msg c = (r, c') \<Longrightarrow> agreed_step b X c c'"

lemma agreed_inv_sign:
  assumes "agreed_inv b X c" "i < 2" "sig_valid b X (ag_params c) (ag_init_state c) i sig"
  shows "agreed_inv b X (c\<lparr>ag_signatures := (ag_signatures c)[i := Some sig]\<rparr>)"
proof -
  have "xs[i := Some sig] ! k = (if k = i then Some sig else xs ! k)" if "k < length xs" for k xs
    using that by simp
  with assms show ?thesis by (auto simp: agreed_inv_def agreed_ok_def split: if_splits)
qed

lemma agreed_inv_step:
  assumes "agreed_inv b X c" "agreed_step b X c c'"
  shows "agreed_inv b X c'"
proof -
  have inv: "env_ok X" "agreed_ok X c" "ag_part_idx c < 2"
    using assms(1) by (simp_all add: agreed_inv_def agreed_ok_def)
  from assms(2) show ?thesis
  proof cases
    case (signing bus r bus')
    show ?thesis
    proof (cases "ag_signatures c ! ag_part_idx c = None")
      case True
      obtain sig r'' bus'' where "sig_valid b X (ag_params c) (ag_init_state c) (ag_part_idx c) sig"
        "sign b X (c, bus) = (r'', (c\<lparr>ag_signatures := (ag_signatures c)[ag_part_idx c := Some sig]\<rparr>, bus''))"
        using sign_sends [OF inv(1,2) True] by metis
      with signing agreed_inv_sign [OF assms(1) inv(3)] show ?thesis by auto
    next
      case False
      with signing sign_already [OF inv(2) False] assms(1) show ?thesis by auto
    qed
  next
    case (adding msg r)
    show ?thesis
    proof (cases "r = Ok ()")
      case True
      with adding obtain i where "i < 2" "sig_valid b X (ag_params c) (ag_init_state c) i (lua_sig msg)"
        "c' = c\<lparr>ag_signatures := (ag_signatures c)[i := Some (lua_sig msg)]\<rparr>"
        using add_signature_Ok [OF inv(1,2)] by metis
      with agreed_inv_sign [OF assms(1)] show ?thesis by simp
    next
      case False
      with adding add_signature_not_Ok [OF adding] assms(1) show ?thesis by simp
    qed
  qed
qed

interpretation agreed: invariant_system "agreed_step b X" "agreed_inv b X"
  by unfold_locales (rule agreed_inv_step)

lemma agreed_step_peers:
  assumes "agreed_step b X c c'"
  shows "ag_peers c' = ag_peers c"
  using assms
proof cases
  case (signing bus r bus')
  then show ?thesis
    by (auto simp: sign_def bindS_def modify_obj_def on_bus_def split: res.splits option.splits prod.splits)
next
  case (adding msg r)
  then show ?thesis by (auto simp: add_signature_def split: res.splits option.splits if_splits)
qed

lemma reachable_peers: "(agreed_step b X)\<^sup>*\<^sup>* c c' \<Longrightarrow> ag_peers c' = ag_peers c"
  by (induction rule: rtranclp_induct) (auto dest: agreed_step_peers)

section \<open>The signed channel\<close>

lemma ActiveChannel_new_Ok:
  assumes "agreed_ok X c"
  shows "SignedChannel_new b (ag_client c) (ag_part_idx c) (ag_withdraw_receiver c) (ag_init_state c)
    (ag_params c) sigs (ag_peers c) = Ok (SignedChannel \<lparr>ac_part_idx = ag_part_idx c,
      ac_withdraw_receiver = ag_withdraw_receiver c, ac_client = ag_client c,
      ac_state = ag_init_state c, ac_params = ag_params c, ac_signatures = sigs, ac_peers = ag_peers c\<rparr>)"
  using assms by (simp add: SignedChannel_new_def ActiveChannel_new_def agreed_ok_def params_wf_def)

definition opened_channel :: "agreed_upon_channel \<Rightarrow> active_channel" where
  "opened_channel c = \<lparr>ac_part_idx = ag_part_idx c, ac_withdraw_receiver = ag_withdraw_receiver c,
     ac_client = ag_client c, ac_state = ag_init_state c, ac_params = ag_params c,
     ac_signatures = map the (ag_signatures c), ac_peers = ag_peers c\<rparr>"

definition opening_requests :: "agreed_upon_channel \<Rightarrow> bus" where
  "opening_requests c =
     [ToWatcher (WatchRequest \<lparr>sl_params = ag_params c, sl_state = ag_init_state c,
        sl_sigs = map the (ag_signatures c)\<rparr>),
      ToFunder (FundReq \<lparr>fr_part_idx = ag_part_idx c, fr_funding_agreement = ag_funding_agreement c,
        fr_params = ag_params c, fr_state = ag_init_state c\<rparr>)]"

lemma build_signed_complete:
  assumes "agreed_ok X c" "None \<notin> set (ag_signatures c)"
  shows "build_signed b c bus = (Ok (SignedChannel (opened_channel c)), bus @ opening_requests c)"
proof -
  have "collect_signatures 0 BE_MissingSignatureResponse (ag_signatures c) = Ok (map the (ag_signatures c))"
    using assms(2) by (simp add: collect_signatures_Ok)
  then show ?thesis
    using ActiveChannel_new_Ok [OF assms(1)]
    by (simp add: build_signed_def bindS_def send_to_watcher_def send_to_funder_def
        opened_channel_def opening_requests_def)
qed

lemma build_signed_missing:
  assumes "length (ag_signatures c) = 2" "None \<in> set (ag_signatures c)"
  shows "build_signed b c bus =
    (Err (c, BE_MissingSignatureResponse (if ag_signatures c ! 0 = None then 0 else 1)), bus)"
proof -
  obtain x y where "ag_signatures c = [x, y]" using assms(1) by (rule length_2E)
  with assms(2) show ?thesis
    by (cases x; cases y) (auto simp: build_signed_def)
qed

lemma opened_channel_ok:
  assumes "agreed_inv b X c" "None \<notin> set (ag_signatures c)"
  shows "channel_ok X (opened_channel c)"
    "fully_signed b X (ac_params (opened_channel c)) (ac_state (opened_channel c)) (ac_signatures (opened_channel c))"
proof -
  have len: "length (ag_signatures c) = 2" using assms(1) by (simp add: agreed_inv_def agreed_ok_def)
  show "channel_ok X (opened_channel c)"
    using assms(1) by (simp add: channel_ok_def opened_channel_def agreed_inv_def agreed_ok_def)
  have "sig_valid b X (ag_params c) (ag_init_state c) i (the (ag_signatures c ! i))" if "i < 2" for i
  proof -
    have "ag_signatures c ! i \<noteq> None" using assms(2) len that nth_mem by metis
    then show ?thesis using assms(1) that by (auto simp: agreed_inv_def)
  qed
  then show "fully_signed b X (ac_params (opened_channel c)) (ac_state (opened_channel c))
      (ac_signatures (opened_channel c))"
    using len by (simp add: fully_signed_def opened_channel_def)
qed

lemma opened_channel_wf: "agreed_wf X c \<Longrightarrow> channel_wf X (opened_channel c)"
  by (simp add: agreed_wf_def agreed_ok_def channel_wf_def channel_ok_def opened_channel_def)

text \<open>
  C6: no channel opens without both signatures.  Whatever acceptance messages arrive and in
  whatever order the application calls \<open>sign\<close> and \<open>add_signature\<close>, \<open>build\<close> succeeds exactly when
  both signatures are there; then the channel it makes carries a valid signature of each
  participant on the initial state, meets what the active phase relies on, and the watcher and
  the funder have been told, in that order.  Otherwise it names the first missing signature,
  returns the channel and sends nothing.
\<close>

theorem build_needs_both_signatures:
  assumes "env_ok X" "agreed_wf X c0" "ag_signatures c0 = [None, None]" "(agreed_step b X)\<^sup>*\<^sup>* c0 c"
  shows "if None \<in> set (ag_signatures c)
    then build_signed b c bus =
      (Err (c, BE_MissingSignatureResponse (if ag_signatures c ! 0 = None then 0 else 1)), bus)
    else build_signed b c bus = (Ok (SignedChannel (opened_channel c)), bus @ opening_requests c) \<and>
      channel_wf X (opened_channel c) \<and>
      fully_signed b X (ag_params c) (ag_init_state c) (ac_signatures (opened_channel c))"
proof -
  have "agreed_inv b X c0"
    using assms(1-3) by (auto simp: agreed_inv_def agreed_wf_def less_2_cases_iff)
  with assms(4) have inv: "agreed_inv b X c" by (rule agreed.reachable_inv)
  have wf: "agreed_wf X c" "agreed_ok X c" "length (ag_signatures c) = 2"
    using inv reachable_peers [OF assms(4)] assms(2) by (simp_all add: agreed_inv_def agreed_wf_def agreed_ok_def)
  show ?thesis
    using build_signed_complete [OF wf(2)] build_signed_missing [OF wf(3)] opened_channel_ok(2) [OF inv]
      opened_channel_wf [OF wf(1)]
    by (simp add: opened_channel_def)
qed

definition toy_agreed :: "signature option list \<Rightarrow> agreed_upon_channel" where
  "toy_agreed sigs = \<lparr>ag_part_idx = 0, ag_withdraw_receiver = replicate 20 1,
     ag_client = \<lparr>cl_signer = toy_signer 7\<rparr>, ag_funding_agreement = [[3, 4]],
     ag_init_state = sample_state 0, ag_params = sample_params 1, ag_signatures = sigs,
     ag_peers = [[10], [11]]\<rparr>"

lemma toy_agreed_wf: "length sigs = 2 \<Longrightarrow> agreed_wf toy_ext (toy_agreed sigs)"
  using sample_state_wf [of 0] sample_params_wf [of 1] toy_signer_ok [of 7]
  by (simp add: agreed_wf_def agreed_ok_def toy_agreed_def sample_params_def toy_signer_def)
    (simp add: sample_state_def)

theorem build_needs_both_signatures_witness:
  "build_signed dbg32 (toy_agreed [None, None]) [] =
    (Err (toy_agreed [None, None], BE_MissingSignatureResponse 0), [])"
  using build_needs_both_signatures [OF toy_env_ok toy_agreed_wf, of "[None, None]" dbg32
      "toy_agreed [None, None]" "[]"]
  by (simp add: toy_agreed_def)

section \<open>Two honest clients\<close>

lemma find_index_pair: "x \<noteq> y \<Longrightarrow> j < 2 \<Longrightarrow> find_index 0 (\<lambda>a. a = [x, y] ! j) [x, y] = Some j"
  by (auto simp: less_2_cases_iff)

lemma add_signature_honest:
  assumes "agreed_wf X c" "j < 2" "ag_signatures c ! j = None"
    "pa_participants (ag_params c) ! 0 \<noteq> pa_participants (ag_params c) ! 1"
    "sig_valid b X (ag_params c) (ag_init_state c) j sig"
  shows "add_signature b X \<lparr>lua_channel = st_id (ag_init_state c), lua_version = 0, lua_sig = sig\<rparr> c
    = (Ok (), c\<lparr>ag_signatures := (ag_signatures c)[j := Some sig]\<rparr>)"
proof -
  obtain x y where xy: "pa_participants (ag_params c) = [x, y]"
    using assms(1) by (auto simp: agreed_wf_def agreed_ok_def params_wf_def elim: length_2E)
  moreover have "length (ag_signatures c) = 2" using assms(1) by (simp add: agreed_wf_def agreed_ok_def)
  moreover have "find_index 0 (\<lambda>a. a = [x, y] ! j) [x, y] = Some j"
    using assms(2,4) xy by (intro find_index_pair) simp_all
  ultimately show ?thesis
    using assms(2,3,5) by (auto simp: add_signature_def sig_valid_def index_def simp del: find_index.simps)
qed

lemma opened_agreed_ok:
  assumes "env_ok X" "proposal_ok p" "proposal_acc_wf a" "signer_ok X s" "i < 2"
    "[lp_participant p, la_participant a] ! i = sg_addr s"
  shows "agreed_ok X (AgreedUponChannel_new (PerunClient_new s) fa i r (opened_state X p a)
    (opened_params X p a) (lp_peers p))"
  using assms opened_state_wf [OF assms(1,2), of a] opened_params_wf [OF assms(2,3), of X]
  by (simp add: agreed_ok_def AgreedUponChannel_new_def PerunClient_new_def PARTICIPANTS_def)
    (simp add: opened_state_def opened_params_def)

lemma opened_agreed_wf:
  assumes "env_ok X" "proposal_wf p" "proposal_acc_wf a" "signer_ok X s" "i < 2"
    "[lp_participant p, la_participant a] ! i = sg_addr s"
  shows "agreed_wf X (AgreedUponChannel_new (PerunClient_new s) fa i r (opened_state X p a)
    (opened_params X p a) (lp_peers p))"
  using opened_agreed_ok [OF assms(1) proposal_wf_ok [OF assms(2)] assms(3-6)] assms(2)
  by (simp add: agreed_wf_def proposal_wf_def AgreedUponChannel_new_def)

text \<open>The two agreed-upon channels of a proposal and its acceptance, seen by participant \<open>i\<close>.\<close>

definition agreed_side :: "ext \<Rightarrow> ledger_channel_proposal \<Rightarrow> ledger_channel_proposal_acc \<Rightarrow> signer \<Rightarrow> nat \<Rightarrow>
    address \<Rightarrow> agreed_upon_channel" where
  "agreed_side X p a s i r = AgreedUponChannel_new (PerunClient_new s) (lp_funding_agreement p) i r
     (opened_state X p a) (opened_params X p a) (lp_peers p)"

lemma agreed_side_simps [simp]:
  "ag_signatures (agreed_side X p a s i r) = [None, None]" "ag_part_idx (agreed_side X p a s i r) = i"
  "ag_peers (agreed_side X p a s i r) = lp_peers p" "ag_params (agreed_side X p a s i r) = opened_params X p a"
  "ag_init_state (agreed_side X p a s i r) = opened_state X p a"
  by (simp_all add: agreed_side_def AgreedUponChannel_new_def PARTICIPANTS_def numeral_2_eq_2)

definition opening_msg :: "ext \<Rightarrow> ledger_channel_proposal \<Rightarrow> ledger_channel_proposal_acc \<Rightarrow> signature \<Rightarrow>
    ledger_channel_update_accepted" where
  "opening_msg X p a sig = \<lparr>lua_channel = st_id (opened_state X p a), lua_version = 0, lua_sig = sig\<rparr>"

lemma sign_side:
  assumes "env_ok X" "agreed_wf X (agreed_side X p a s i r)" "i < 2"
  obtains sig where "sig_valid b X (opened_params X p a) (opened_state X p a) i sig"
    "\<And>bus. sign b X (agreed_side X p a s i r, bus) =
      (Ok (), ((agreed_side X p a s i r)\<lparr>ag_signatures := [None, None][i := Some sig]\<rparr>,
        bus @ [ToParticipant (lp_peers p ! i) (lp_peers p ! (1 - i)) (ChannelUpdateAccepted (opening_msg X p a sig))]))"
proof -
  let ?c = "agreed_side X p a s i r"
  have "ag_signatures ?c ! ag_part_idx ?c = None" using assms(3) by (auto simp: less_2_cases_iff)
  from sign_valid [OF assms(1,2) this, of b] obtain sig where
    "sig_valid b X (ag_params ?c) (ag_init_state ?c) (ag_part_idx ?c) sig"
    "\<And>bus. sign b X (?c, bus) = (Ok (), (?c\<lparr>ag_signatures := (ag_signatures ?c)[ag_part_idx ?c := Some sig]\<rparr>,
      bus @ [ToParticipant (ag_peers ?c ! ag_part_idx ?c) (ag_peers ?c ! (1 - ag_part_idx ?c))
        (ChannelUpdateAccepted \<lparr>lua_channel = st_id (ag_init_state ?c), lua_version = 0, lua_sig = sig\<rparr>)]))"
    by metis
  then show ?thesis by (intro that [of sig]) (simp_all add: opening_msg_def)
qed

lemma exchange_signatures:
  assumes env: "env_ok X" and wf0: "agreed_wf X (agreed_side X p a s0 0 r0)"
    and wf1: "agreed_wf X (agreed_side X p a s1 1 r1)" and ne: "lp_participant p \<noteq> la_participant a"
  obtains sig0 sig1 c0 c1 where
    "sign b X (agreed_side X p a s0 0 r0, []) = (Ok (), (c0,
      [ToParticipant (lp_peers p ! 0) (lp_peers p ! 1) (ChannelUpdateAccepted (opening_msg X p a sig0))]))"
    "sign b X (agreed_side X p a s1 1 r1, []) = (Ok (), (c1,
      [ToParticipant (lp_peers p ! 1) (lp_peers p ! 0) (ChannelUpdateAccepted (opening_msg X p a sig1))]))"
    "add_signature b X (opening_msg X p a sig1) c0 =
      (Ok (), (agreed_side X p a s0 0 r0)\<lparr>ag_signatures := [Some sig0, Some sig1]\<rparr>)"
    "add_signature b X (opening_msg X p a sig0) c1 =
      (Ok (), (agreed_side X p a s1 1 r1)\<lparr>ag_signatures := [Some sig0, Some sig1]\<rparr>)"
    "sig_valid b X (opened_params X p a) (opened_state X p a) 0 sig0"
    "sig_valid b X (opened_params X p a) (opened_state X p a) 1 sig1"
proof -
  let ?a0 = "agreed_side X p a s0 0 r0" and ?a1 = "agreed_side X p a s1 1 r1"
  obtain sig0 where g0: "sig_valid b X (opened_params X p a) (opened_state X p a) 0 sig0"
    "sign b X (?a0, []) = (Ok (), (?a0\<lparr>ag_signatures := [None, None][0 := Some sig0]\<rparr>,
      [ToParticipant (lp_peers p ! 0) (lp_peers p ! (1 - 0)) (ChannelUpdateAccepted (opening_msg X p a sig0))]))"
    by (rule sign_side [OF env wf0, of b]) (simp, rule that, simp_all)
  obtain sig1 where g1: "sig_valid b X (opened_params X p a) (opened_state X p a) 1 sig1"
    "sign b X (?a1, []) = (Ok (), (?a1\<lparr>ag_signatures := [None, None][1 := Some sig1]\<rparr>,
      [ToParticipant (lp_peers p ! 1) (lp_peers p ! (1 - 1)) (ChannelUpdateAccepted (opening_msg X p a sig1))]))"
    by (rule sign_side [OF env wf1, of b]) (simp, rule that, simp_all)
  have ne': "pa_participants (opened_params X p a) ! 0 \<noteq> pa_participants (opened_params X p a) ! 1"
    using ne by (simp add: opened_params_def)
  have "agreed_wf X (?a0\<lparr>ag_signatures := [Some sig0, None]\<rparr>)"
    "agreed_wf X (?a1\<lparr>ag_signatures := [None, Some sig1]\<rparr>)"
    using wf0 wf1 by (simp_all add: agreed_wf_def agreed_ok_def)
  from add_signature_honest [OF this(1), of 1 b sig1] add_signature_honest [OF this(2), of 0 b sig0]
  show ?thesis
    using g0 g1 ne' by (intro that [of "?a0\<lparr>ag_signatures := [Some sig0, None]\<rparr>" sig0
          "?a1\<lparr>ag_signatures := [None, Some sig1]\<rparr>" sig1]) (simp_all add: opening_msg_def)
qed

subsection \<open>The proposal phase\<close>

lemma check_valid_proposal_eq:
  assumes "proposal_ok p"
  shows "check_valid_proposal b p =
    (if lp_challenge_duration p = 0 then Err NoChallengeDurationSet
     else if length (lp_peers p) \<noteq> 2 then Err PeerParticipantCountMismatch else Ok ())"
proof -
  have wf: "allocation_wf 1 2 (lp_init_bals p)" using assms by (simp add: proposal_ok_def)
  obtain h x y where "lp_init_bals p = \<lparr>al_assets = [\<lparr>as_holder = h\<rparr>], al_balances = [[x, y]], al_locked = ()\<rparr>"
    using wf by (rule wf_1_2_cases)
  then have "al_balances (lp_init_bals p) \<noteq> []" "length (al_balances (lp_init_bals p) ! 0) = 2" by simp_all
  then show ?thesis
    by (simp add: check_valid_proposal_def debug_assert_valid_wf [OF wf] index_def)
qed

lemma check_valid_proposal_Ok:
  assumes "proposal_wf p"
  shows "check_valid_proposal b p =
    (if lp_challenge_duration p = 0 then Err NoChallengeDurationSet else Ok ())"
  using check_valid_proposal_eq [OF proposal_wf_ok [OF assms]] assms by (simp add: proposal_wf_def)

lemma usize_sub_self: "usize_sub b n n = Ok 0"
  by (simp add: usize_sub_def)

lemma accept_proposal_sends:
  assumes "pr_part_idx c = 1" "pr_responses c = [r]"
  shows "accept_proposal b n addr (c, bus) =
    (let a = \<lparr>la_proposal_id = lp_proposal_id (pr_proposal c), la_nonce_share = n, la_participant = addr\<rparr>;
         peers = lp_peers (pr_proposal c)
     in (if 1 < length peers then Ok () else Panic, (c\<lparr>pr_responses := [Some a]\<rparr>,
          bus @ map (\<lambda>p. ToParticipant (peers ! 1) p (ProposalAccepted a)) (others 1 peers))))"
  by (simp add: accept_proposal_def Let_def assms usize_sub_self set_index_def bindS_def
      modify_obj_def on_bus_def broadcast_outcome)

lemma accept_proposal_responder:
  assumes "pr_part_idx c = 1" "length (lp_peers (pr_proposal c)) = 2" "pr_responses c = [r]"
  shows "accept_proposal b n addr (c, bus) =
    (let a = \<lparr>la_proposal_id = lp_proposal_id (pr_proposal c), la_nonce_share = n, la_participant = addr\<rparr>
     in (Ok (), (c\<lparr>pr_responses := [Some a]\<rparr>, bus @ [ToParticipant (lp_peers (pr_proposal c) ! 1)
          (lp_peers (pr_proposal c) ! 0) (ProposalAccepted a)])))"
  using accept_proposal_sends [OF assms(1,3), of b n addr bus] assms(2) by (simp add: Let_def others_pair)

text \<open>
  The proposer cannot accept.  The documentation of \<open>accept\<close> says that calling it on a
  channel one has proposed returns an error; with the guard commented out it panics in either
  build profile, before anything is recorded or sent.
\<close>

theorem proposer_accept_panics:
  assumes "pr_part_idx c = 0" "length (pr_responses c) = 1"
  shows "accept_proposal b nonce_share addr (c, bus) = (Panic, (c, bus))"
proof (cases "profile b")
  case Debug
  then have "usize_sub b 0 1 = (Panic :: (already_accepted_error, nat) res)" by (simp add: usize_sub_def)
  then show ?thesis by (simp add: accept_proposal_def Let_def assms(1))
next
  case Release
  have "1 < usize_limit b - 1" using usize_limit_ge [of b] by simp
  then have "usize_sub b 0 1 = (Ok (usize_limit b - 1) :: (already_accepted_error, nat) res)"
    using Release by (simp add: usize_sub_def)
  moreover have "\<not> usize_limit b - 1 < length (pr_responses c)"
    using assms(2) \<open>1 < usize_limit b - 1\<close> by simp
  ultimately show ?thesis by (simp add: accept_proposal_def Let_def assms(1) set_index_def)
qed

definition toy_proposal :: "u64 \<Rightarrow> ledger_channel_proposal" where
  "toy_proposal d = \<lparr>lp_proposal_id = replicate 32 1, lp_challenge_duration = d,
     lp_nonce_share = replicate 32 2, lp_init_bals = st_outcome (sample_state 0),
     lp_funding_agreement = [[3, 4]], lp_participant = replicate 20 7, lp_peers = [[10], [11]]\<rparr>"

lemma toy_proposal_wf: "proposal_wf (toy_proposal d)"
  using sample_state_wf [of 0] by (simp add: proposal_wf_def proposal_ok_def toy_proposal_def state_wf_def)

theorem proposer_accept_panics_witness:
  "fst (accept_proposal dbg32 (replicate 32 3) (replicate 20 7)
     (ProposedChannel_new (PerunClient_new (toy_signer 7)) 0 (replicate 20 1) (toy_proposal 60), [])) = Panic"
  using proposer_accept_panics [of "ProposedChannel_new (PerunClient_new (toy_signer 7)) 0 (replicate 20 1) (toy_proposal 60)"
      dbg32 "replicate 32 3" "replicate 20 7" "[]"]
  by (simp add: ProposedChannel_new_def)

text \<open>
  C35: the validity check guards one side only.  \<open>propose_channel\<close> sends a proposal to the peer exactly
  when its challenge duration is not zero and it names two peers, and otherwise reports which is wrong
  and sends nothing.  \<open>handle_proposal\<close> has no check and makes a channel of every proposal it
  receives; accepting it records the acceptance, is sent to all the peers it names but the second, and
  panics when it names fewer than two.
\<close>

theorem proposal_check_one_sided:
  assumes "proposal_ok p"
  shows "propose_channel b cl p r bus =
      (if lp_challenge_duration p = 0 then (Err NoChallengeDurationSet, bus)
       else if length (lp_peers p) \<noteq> 2 then (Err PeerParticipantCountMismatch, bus)
       else (Ok (ProposedChannel_new cl 0 r p),
         bus @ [ToParticipant (lp_peers p ! 0) (lp_peers p ! 1) (ChannelProposal p)])) \<and>
    handle_proposal cl p r = Ok (ProposedChannel_new cl 1 r p) \<and>
    (let a = \<lparr>la_proposal_id = lp_proposal_id p, la_nonce_share = n, la_participant = addr\<rparr> in
     accept_proposal b n addr (ProposedChannel_new cl 1 r p, bus) =
      (if 1 < length (lp_peers p) then Ok () else Panic,
       ((ProposedChannel_new cl 1 r p)\<lparr>pr_responses := [Some a]\<rparr>,
        bus @ map (\<lambda>q. ToParticipant (lp_peers p ! 1) q (ProposalAccepted a)) (others 1 (lp_peers p)))))"
proof (intro conjI)
  show "propose_channel b cl p r bus =
      (if lp_challenge_duration p = 0 then (Err NoChallengeDurationSet, bus)
       else if length (lp_peers p) \<noteq> 2 then (Err PeerParticipantCountMismatch, bus)
       else (Ok (ProposedChannel_new cl 0 r p),
         bus @ [ToParticipant (lp_peers p ! 0) (lp_peers p ! 1) (ChannelProposal p)]))"
    by (simp add: propose_channel_def bindS_def check_valid_proposal_eq [OF assms] broadcast_pair)
  show "handle_proposal cl p r = Ok (ProposedChannel_new cl 1 r p)"
    by (simp add: handle_proposal_def)
  show "let a = \<lparr>la_proposal_id = lp_proposal_id p, la_nonce_share = n, la_participant = addr\<rparr> in
     accept_proposal b n addr (ProposedChannel_new cl 1 r p, bus) =
      (if 1 < length (lp_peers p) then Ok () else Panic,
       ((ProposedChannel_new cl 1 r p)\<lparr>pr_responses := [Some a]\<rparr>,
        bus @ map (\<lambda>q. ToParticipant (lp_peers p ! 1) q (ProposalAccepted a)) (others 1 (lp_peers p))))"
    using accept_proposal_sends [of "ProposedChannel_new cl 1 r p" None b n addr bus]
    by (simp add: ProposedChannel_new_def Let_def)
qed

theorem proposal_check_one_sided_witness:
  "propose_channel dbg32 (PerunClient_new (toy_signer 7)) (toy_proposal 0) (replicate 20 1) []
    = (Err NoChallengeDurationSet, []) \<and>
   handle_proposal (PerunClient_new (toy_signer 9)) (toy_proposal 0) (replicate 20 1)
    = Ok (ProposedChannel_new (PerunClient_new (toy_signer 9)) 1 (replicate 20 1) (toy_proposal 0)) \<and>
   fst (accept_proposal dbg32 (replicate 32 3) (replicate 20 9) (ProposedChannel_new (PerunClient_new (toy_signer 9)) 1
     (replicate 20 1) ((toy_proposal 0)\<lparr>lp_peers := [[10]]\<rparr>), [])) = Panic"
proof -
  note ok = proposal_wf_ok [OF toy_proposal_wf [of 0]]
  then have "proposal_ok ((toy_proposal 0)\<lparr>lp_peers := [[10]]\<rparr>)" by (simp add: proposal_ok_def)
  from proposal_check_one_sided [OF this, of dbg32 "PerunClient_new (toy_signer 9)" "replicate 20 1" "[]"
      "replicate 32 3" "replicate 20 9"]
    proposal_check_one_sided [OF ok, of dbg32 "PerunClient_new (toy_signer 7)" "replicate 20 1" "[]"]
  show ?thesis by (simp add: toy_proposal_def handle_proposal_def Let_def)
qed

subsection \<open>The whole opening\<close>

definition acc_of :: "ledger_channel_proposal \<Rightarrow> bytes \<Rightarrow> signer \<Rightarrow> ledger_channel_proposal_acc" where
  "acc_of p n s = \<lparr>la_proposal_id = lp_proposal_id p, la_nonce_share = n, la_participant = sg_addr s\<rparr>"

lemma acc_of_wf:
  assumes "env_ok X" "proposal_ok p" "signer_ok X s" "length n = 32"
  shows "proposal_acc_wf (acc_of p n s)"
proof -
  have "length (sg_addr s) = 20"
    using assms(1,3) Address_from_vk_length by (auto simp: signer_ok_def env_ok_def crypto_spec_def)
  then show ?thesis using assms(2,4) by (simp add: acc_of_def proposal_acc_wf_def proposal_wf_def proposal_ok_def)
qed

lemma proposal_phase:
  fixes s0 s1 :: signer and r0 r1 :: address
  assumes env: "env_ok X" and p: "proposal_wf p" "lp_challenge_duration p \<noteq> 0"
    and acc: "proposal_acc_wf (acc_of p n s1)"
  defines "c0 \<equiv> ProposedChannel_new (PerunClient_new s0) 0 r0 p"
    and "c1 \<equiv> ProposedChannel_new (PerunClient_new s1) 1 r1 p"
  shows "propose_channel b (PerunClient_new s0) p r0 [] =
      (Ok c0, [ToParticipant (lp_peers p ! 0) (lp_peers p ! 1) (ChannelProposal p)])"
    "accept_proposal b n (sg_addr s1) (c1, []) = (Ok (), (c1\<lparr>pr_responses := [Some (acc_of p n s1)]\<rparr>,
      [ToParticipant (lp_peers p ! 1) (lp_peers p ! 0) (ProposalAccepted (acc_of p n s1))]))"
    "proposal_participant_accepted b 1 (acc_of p n s1) c0 =
      (Ok (), c0\<lparr>pr_responses := [Some (acc_of p n s1)]\<rparr>)"
    "build_agreed b X (c0\<lparr>pr_responses := [Some (acc_of p n s1)]\<rparr>) = Ok (agreed_side X p (acc_of p n s1) s0 0 r0)"
    "build_agreed b X (c1\<lparr>pr_responses := [Some (acc_of p n s1)]\<rparr>) = Ok (agreed_side X p (acc_of p n s1) s1 1 r1)"
proof -
  have peers: "length (lp_peers p) = 2" using p(1) by (simp add: proposal_wf_def proposal_ok_def)
  show "propose_channel b (PerunClient_new s0) p r0 [] =
      (Ok c0, [ToParticipant (lp_peers p ! 0) (lp_peers p ! 1) (ChannelProposal p)])"
    using p(2) peers check_valid_proposal_Ok [OF p(1), of b]
    by (simp add: propose_channel_def bindS_def broadcast_pair c0_def)
  show "accept_proposal b n (sg_addr s1) (c1, []) = (Ok (), (c1\<lparr>pr_responses := [Some (acc_of p n s1)]\<rparr>,
      [ToParticipant (lp_peers p ! 1) (lp_peers p ! 0) (ProposalAccepted (acc_of p n s1))]))"
    using accept_proposal_responder [of c1 None b n "sg_addr s1" "[]"] peers
    by (simp add: c1_def ProposedChannel_new_def acc_of_def Let_def)
  show "proposal_participant_accepted b 1 (acc_of p n s1) c0 =
      (Ok (), c0\<lparr>pr_responses := [Some (acc_of p n s1)]\<rparr>)"
    by (simp add: proposal_participant_accepted_def c0_def ProposedChannel_new_def acc_of_def
        usize_sub_self [of b 1, simplified] index_def)
  show "build_agreed b X (c0\<lparr>pr_responses := [Some (acc_of p n s1)]\<rparr>) = Ok (agreed_side X p (acc_of p n s1) s0 0 r0)"
    "build_agreed b X (c1\<lparr>pr_responses := [Some (acc_of p n s1)]\<rparr>) = Ok (agreed_side X p (acc_of p n s1) s1 1 r1)"
    using build_agreed_Ok [OF env _ acc] proposal_wf_ok [OF p(1)]
    by (simp_all add: agreed_side_def c0_def c1_def ProposedChannel_new_def)
qed

text \<open>A side with both signatures builds its channel.\<close>

lemma build_side:
  fixes s :: signer and r :: address
  assumes "env_ok X" "agreed_wf X (agreed_side X p a s i r)"
    "sig_valid b X (opened_params X p a) (opened_state X p a) 0 sig0"
    "sig_valid b X (opened_params X p a) (opened_state X p a) 1 sig1"
  defines "c \<equiv> (agreed_side X p a s i r)\<lparr>ag_signatures := [Some sig0, Some sig1]\<rparr>"
  shows "build_signed b c [] = (Ok (SignedChannel (opened_channel c)), opening_requests c)"
    "channel_wf X (opened_channel c)"
    "fully_signed b X (opened_params X p a) (opened_state X p a) [sig0, sig1]"
proof -
  have wf: "agreed_wf X c" using assms(2) by (simp add: c_def agreed_wf_def agreed_ok_def)
  have inv: "agreed_inv b X c"
    using assms(1,3,4) agreed_wf_ok [OF wf] by (auto simp: agreed_inv_def c_def less_2_cases_iff)
  have "None \<notin> set (ag_signatures c)" by (simp add: c_def)
  from build_signed_complete [OF agreed_wf_ok [OF wf] this, of b "[]"] opened_channel_ok(2) [OF inv this] opened_channel_wf [OF wf]
  show "build_signed b c [] = (Ok (SignedChannel (opened_channel c)), opening_requests c)"
    "channel_wf X (opened_channel c)"
    "fully_signed b X (opened_params X p a) (opened_state X p a) [sig0, sig1]"
    by (simp_all add: c_def opened_channel_def)
qed

text \<open>
  C8: two honest clients open the same channel.  From a proposal with a challenge duration and
  two participants with different addresses, delivering the messages each side sends to the
  other, every call of the opening succeeds: proposing, handling, accepting, building,
  signing, adding the peer's signature and building again.  Both end with active channels that
  have the same parameters, the same initial state (version 0, the proposed balances) and the
  same two valid signatures, each told its own watcher and funder.
\<close>

theorem honest_opening:
  assumes env: "env_ok X" and p: "proposal_wf p" "lp_challenge_duration p \<noteq> 0"
    and s0: "signer_ok X s0" "lp_participant p = sg_addr s0"
    and s1: "signer_ok X s1" "sg_addr s0 \<noteq> sg_addr s1" and n: "length n = 32"
  shows "\<exists>c0 c1 c0' c1' acc a0 a1 a0s a1s m0 m1 a0' a1' ch0 ch1 reqs0 reqs1.
    propose_channel b (PerunClient_new s0) p r0 [] =
      (Ok c0, [ToParticipant (lp_peers p ! 0) (lp_peers p ! 1) (ChannelProposal p)]) \<and>
    handle_proposal (PerunClient_new s1) p r1 = Ok c1 \<and>
    accept_proposal b n (sg_addr s1) (c1, []) =
      (Ok (), (c1', [ToParticipant (lp_peers p ! 1) (lp_peers p ! 0) (ProposalAccepted acc)])) \<and>
    proposal_participant_accepted b 1 acc c0 = (Ok (), c0') \<and>
    build_agreed b X c0' = Ok a0 \<and> build_agreed b X c1' = Ok a1 \<and>
    sign b X (a0, []) =
      (Ok (), (a0s, [ToParticipant (lp_peers p ! 0) (lp_peers p ! 1) (ChannelUpdateAccepted m0)])) \<and>
    sign b X (a1, []) =
      (Ok (), (a1s, [ToParticipant (lp_peers p ! 1) (lp_peers p ! 0) (ChannelUpdateAccepted m1)])) \<and>
    add_signature b X m1 a0s = (Ok (), a0') \<and> add_signature b X m0 a1s = (Ok (), a1') \<and>
    build_signed b a0' [] = (Ok (SignedChannel ch0), reqs0) \<and>
    build_signed b a1' [] = (Ok (SignedChannel ch1), reqs1) \<and>
    channel_wf X ch0 \<and> channel_wf X ch1 \<and> ac_part_idx ch0 = 0 \<and> ac_part_idx ch1 = 1 \<and>
    ac_state ch0 = ac_state ch1 \<and> ac_params ch0 = ac_params ch1 \<and>
    ac_signatures ch0 = ac_signatures ch1 \<and> ac_peers ch0 = ac_peers ch1 \<and>
    st_version (ac_state ch0) = 0 \<and> st_outcome (ac_state ch0) = lp_init_bals p \<and>
    fully_signed b X (ac_params ch0) (ac_state ch0) (ac_signatures ch0) \<and>
    reqs0 = opening_requests a0' \<and> reqs1 = opening_requests a1'"
proof -
  let ?acc = "acc_of p n s1"
  let ?a0 = "agreed_side X p ?acc s0 0 r0" and ?a1 = "agreed_side X p ?acc s1 1 r1"
  have acc: "proposal_acc_wf ?acc" using env proposal_wf_ok [OF p(1)] s1(1) n by (rule acc_of_wf)
  have wf0: "agreed_wf X ?a0" unfolding agreed_side_def
    using opened_agreed_wf [OF env p(1) acc s0(1), of 0] s0(2) by simp
  have wf1: "agreed_wf X ?a1" unfolding agreed_side_def
    using opened_agreed_wf [OF env p(1) acc s1(1), of 1] by (simp add: acc_of_def)
  have ne: "lp_participant p \<noteq> la_participant ?acc" using s0(2) s1(2) by (simp add: acc_of_def)
  obtain sig0 sig1 d0 d1 where x:
    "sign b X (?a0, []) = (Ok (), (d0, [ToParticipant (lp_peers p ! 0) (lp_peers p ! 1)
      (ChannelUpdateAccepted (opening_msg X p ?acc sig0))]))"
    "sign b X (?a1, []) = (Ok (), (d1, [ToParticipant (lp_peers p ! 1) (lp_peers p ! 0)
      (ChannelUpdateAccepted (opening_msg X p ?acc sig1))]))"
    "add_signature b X (opening_msg X p ?acc sig1) d0 = (Ok (), ?a0\<lparr>ag_signatures := [Some sig0, Some sig1]\<rparr>)"
    "add_signature b X (opening_msg X p ?acc sig0) d1 = (Ok (), ?a1\<lparr>ag_signatures := [Some sig0, Some sig1]\<rparr>)"
    and v: "sig_valid b X (opened_params X p ?acc) (opened_state X p ?acc) 0 sig0"
    "sig_valid b X (opened_params X p ?acc) (opened_state X p ?acc) 1 sig1"
    using env wf0 wf1 ne by (rule exchange_signatures)
  have same: "ac_state (opened_channel (?a0\<lparr>ag_signatures := s\<rparr>)) = opened_state X p ?acc"
    "ac_params (opened_channel (?a0\<lparr>ag_signatures := s\<rparr>)) = opened_params X p ?acc"
    "ac_state (opened_channel (?a1\<lparr>ag_signatures := s\<rparr>)) = opened_state X p ?acc"
    "ac_params (opened_channel (?a1\<lparr>ag_signatures := s\<rparr>)) = opened_params X p ?acc"
    "ac_signatures (opened_channel (?a0\<lparr>ag_signatures := s\<rparr>)) = map the s"
    "ac_signatures (opened_channel (?a1\<lparr>ag_signatures := s\<rparr>)) = map the s"
    "ac_peers (opened_channel (?a0\<lparr>ag_signatures := s\<rparr>)) = lp_peers p"
    "ac_peers (opened_channel (?a1\<lparr>ag_signatures := s\<rparr>)) = lp_peers p"
    "ac_part_idx (opened_channel (?a0\<lparr>ag_signatures := s\<rparr>)) = 0"
    "ac_part_idx (opened_channel (?a1\<lparr>ag_signatures := s\<rparr>)) = 1"
    "st_version (opened_state X p ?acc) = 0" "st_outcome (opened_state X p ?acc) = lp_init_bals p" for s
    by (simp_all add: opened_channel_def opened_state_def)
  have handle: "handle_proposal (PerunClient_new s1) p r1 = Ok (ProposedChannel_new (PerunClient_new s1) 1 r1 p)"
    by (simp add: handle_proposal_def)
  note phase = proposal_phase [OF env p acc]
  note b0 = build_side [OF env wf0 v] and b1 = build_side [OF env wf1 v]
  show ?thesis
    by (intro exI conjI, rule phase(1), rule handle, rule phase(2), rule phase(3), rule phase(4),
        rule phase(5), rule x(1), rule x(2), rule x(3), rule x(4), rule b0(1), rule b1(1),
        rule b0(2), rule b1(2)) (simp_all only: same list.map option.sel b0(3) refl simp_thms)
qed

theorem honest_opening_witness:
  "\<exists>a ch0 ch1 reqs0 reqs1 a'. build_signed dbg32 a [] = (Ok (SignedChannel ch0), reqs0) \<and>
    build_signed dbg32 a' [] = (Ok (SignedChannel ch1), reqs1) \<and> ac_state ch0 = ac_state ch1 \<and>
    fully_signed dbg32 toy_ext (ac_params ch0) (ac_state ch0) (ac_signatures ch0)"
proof -
  have ok: "lp_challenge_duration (toy_proposal 60) \<noteq> 0" "length (replicate 32 (3 :: u8)) = 32"
    "lp_participant (toy_proposal 60) = sg_addr (toy_signer 7)" "sg_addr (toy_signer 7) \<noteq> sg_addr (toy_signer 9)"
    by (simp_all add: toy_proposal_def toy_signer_def)
  show ?thesis
    using honest_opening [OF toy_env_ok toy_proposal_wf ok(1) toy_signer_ok ok(3) toy_signer_ok ok(4,2),
        of dbg32 "replicate 20 1" "replicate 20 1"] by blast
qed

end
