(* ===== verification/Protocol.thy ===== *)
theory Protocol
  imports Opening
begin

text \<open>
  Runs of the protocol between two honest participants: one payment, from the proposed update
  to the new state on both sides.
\<close>

section \<open>Mirrored channels\<close>

text \<open>The two ends of one channel.\<close>

definition mirrored :: "active_channel \<Rightarrow> active_channel \<Rightarrow> bool" where
  "mirrored c d \<longleftrightarrow> ac_state c = ac_state d \<and> ac_params c = ac_params d \<and> ac_peers c = ac_peers d \<and>
     ac_signatures c = ac_signatures d \<and> ac_part_idx d = 1 - ac_part_idx c"

text \<open>The signatures of participant \<open>i\<close> and the other one, in channel order.\<close>

definition both :: "nat \<Rightarrow> 'a \<Rightarrow> 'a \<Rightarrow> 'a list" where
  "both i x y = (if i = 0 then [x, y] else [y, x])"

lemma two_signatures:
  assumes "i < 2"
  shows "(replicate PARTICIPANTS None)[i := Some x, 1 - i := Some y] = map Some (both i x y)"
    "(replicate PARTICIPANTS None)[1 - i := Some y, i := Some x] = map Some (both (1 - i) y x)"
    "both (1 - i) y x = both i x y"
    "((replicate PARTICIPANTS None)[i := Some x]) ! (1 - i) = None"
proof -
  have none: "replicate PARTICIPANTS None = [None, None]" by (simp add: PARTICIPANTS_def numeral_2_eq_2)
  have "i = 0 \<or> i = 1" using assms by auto
  then show "(replicate PARTICIPANTS None)[i := Some x, 1 - i := Some y] = map Some (both i x y)"
    "(replicate PARTICIPANTS None)[1 - i := Some y, i := Some x] = map Some (both (1 - i) y x)"
    "both (1 - i) y x = both i x y" "((replicate PARTICIPANTS None)[i := Some x]) ! (1 - i) = None"
    unfolding none both_def by auto
qed

lemma apply_signed:
  assumes "ensure_valid_channel b u ch = Ok ()" "cu_signatures u = map Some sigs"
  shows "apply_update b u (ch, bus) = (Ok (),
    (ch\<lparr>ac_state := cu_new_state u, ac_signatures := sigs\<rparr>,
     bus @ [ToWatcher (WatchRequest \<lparr>sl_params = ac_params ch, sl_state = cu_new_state u, sl_sigs = sigs\<rparr>)]))"
  using assms by (auto simp: apply_update_Ok Let_def make_watch_info_def comp_def)

lemma fresh_update_valid_channel:
  "valid_transition b (ac_state ch) t \<Longrightarrow> cu_channel_id u = st_id (ac_state ch) \<Longrightarrow> cu_new_state u = t \<Longrightarrow>
    ensure_valid_channel b u ch = Ok ()"
  by (auto simp: ensure_valid_channel_Ok valid_transition_def)

lemma fresh_update_simps [simp]:
  "cu_channel_id (fresh_update ch t i sig) = st_id (ac_state ch)"
  "cu_new_state (fresh_update ch t i sig) = t"
  "cu_signatures (fresh_update ch t i sig) = (replicate PARTICIPANTS None)[i := Some sig]"
  by (simp_all add: fresh_update_def)

text \<open>The receiving end: it handles and accepts a valid update of the other participant.\<close>

lemma honest_acceptor:
  assumes "env_ok X" "channel_wf X d" "state_wf 1 2 t" "valid_transition b (ac_state d) t"
    "ac_part_idx d = 1 - i" "i < 2" "sig_valid b X (ac_params d) t i sig"
  obtains sig' where "sig_valid b X (ac_params d) t (1 - i) sig'"
    "handle_update b X d \<lparr>lu_state = t, lu_actor_idx = i, lu_sig = sig\<rparr> = Ok (fresh_update d t i sig)"
    "accept b X d (fresh_update d t i sig, []) =
      (Ok (), ((fresh_update d t i sig)\<lparr>cu_signatures := map Some (both i sig sig')\<rparr>,
        [ToParticipant (ac_peers d ! (1 - i)) (ac_peers d ! i) (ChannelUpdateAccepted
          \<lparr>lua_channel = st_id (ac_state d), lua_version = st_version t, lua_sig = sig'\<rparr>)]))"
proof -
  let ?v = "fresh_update d t i sig"
  have handle: "handle_update b X d \<lparr>lu_state = t, lu_actor_idx = i, lu_sig = sig\<rparr> = Ok ?v"
    using handle_update_Ok [OF assms(1) channel_wf_ok [OF assms(2)], of "\<lparr>lu_state = t, lu_actor_idx = i, lu_sig = sig\<rparr>" b] assms by simp
  have ens: "ensure_valid_channel b ?v d = Ok ()"
    by (rule fresh_update_valid_channel [of b d t]) (simp_all add: assms(4))
  obtain sig' where "sig_valid b X (ac_params d) (cu_new_state ?v) (ac_part_idx d) sig'"
    "accept b X d (?v, []) = (Ok (), (?v\<lparr>cu_signatures := (cu_signatures ?v)[ac_part_idx d := Some sig']\<rparr>,
      [] @ [ToParticipant (ac_peers d ! ac_part_idx d) (ac_peers d ! (1 - ac_part_idx d)) (ChannelUpdateAccepted
        \<lparr>lua_channel = cu_channel_id ?v, lua_version = st_version (cu_new_state ?v), lua_sig = sig'\<rparr>)]))"
    using accept_valid [OF assms(1,2) _ ens] assms(3,5) two_signatures(4) [OF assms(6), of sig]
    by (metis fresh_update_simps(2,3) length_list_update length_replicate PARTICIPANTS_def)
  moreover have "1 - (1 - i) = i" using assms(6) by auto
  ultimately show ?thesis
    using handle assms(5) two_signatures(1) [OF assms(6), of sig sig'] by (intro that [of sig']) simp_all
qed

text \<open>The proposing end: it takes the acceptance, and both signatures are there.\<close>

lemma honest_proposer:
  assumes "env_ok X" "state_wf 1 2 t" "valid_transition b (ac_state c) t" "i < 2"
    "sig_valid b X (ac_params c) t (1 - i) sig'"
  shows "participant_accepted b X c (1 - i)
      \<lparr>lua_channel = st_id (ac_state c), lua_version = st_version t, lua_sig = sig'\<rparr> (fresh_update c t i sig)
    = (Ok (), (fresh_update c t i sig)\<lparr>cu_signatures := map Some (both i sig sig')\<rparr>)"
proof -
  let ?u = "fresh_update c t i sig"
  have "ensure_valid_channel b ?u c = Ok ()"
    by (rule fresh_update_valid_channel [of b c t]) (simp_all add: assms(3))
  then show ?thesis
    using participant_accepted_Ok [OF assms(1), of ?u b c "1 - i"] assms(2,4,5)
      two_signatures(1) [OF assms(4), of sig sig'] two_signatures(4) [OF assms(4), of sig]
    by (simp add: PARTICIPANTS_def)
qed

lemma apply_fresh_signed:
  assumes "valid_transition b (ac_state c) t"
  shows "apply_update b ((fresh_update c t i sig)\<lparr>cu_signatures := map Some sigs\<rparr>) (c, bus) =
    (Ok (), (c\<lparr>ac_state := t, ac_signatures := sigs\<rparr>,
      bus @ [ToWatcher (WatchRequest \<lparr>sl_params = ac_params c, sl_state = t, sl_sigs = sigs\<rparr>)]))"
  using assms by (subst apply_signed [where sigs = sigs]) (auto intro: fresh_update_valid_channel)

text \<open>
  C7: two honest participants agree on a payment.  Between the two ends of a channel, for any
  state that continues it, either side may propose: delivering the messages, \<open>update\<close>,
  \<open>handle_update\<close>, \<open>accept\<close>, \<open>participant_accepted\<close> and \<open>apply\<close> on both sides all succeed, both
  ends then hold the new state with the same two valid signatures, are mirrored again, and each
  has handed exactly that signed state to its watcher.
\<close>

theorem honest_update:
  assumes env: "env_ok X" and c: "channel_wf X c" and d: "channel_wf X d" and m: "mirrored c d"
    and t: "state_wf 1 2 t" "valid_transition b (ac_state c) t"
  shows "\<exists>u msg v v' acc u' sigs.
    update b X c t [] = (Ok u, [ToParticipant (ac_peers c ! ac_part_idx c) (ac_peers c ! ac_part_idx d)
      (ChannelUpdate msg)]) \<and>
    handle_update b X d msg = Ok v \<and>
    accept b X d (v, []) = (Ok (), (v', [ToParticipant (ac_peers c ! ac_part_idx d)
      (ac_peers c ! ac_part_idx c) (ChannelUpdateAccepted acc)])) \<and>
    participant_accepted b X c (ac_part_idx d) acc u = (Ok (), u') \<and>
    (let c' = c\<lparr>ac_state := t, ac_signatures := sigs\<rparr>; d' = d\<lparr>ac_state := t, ac_signatures := sigs\<rparr>;
         req = ToWatcher (WatchRequest \<lparr>sl_params = ac_params c, sl_state = t, sl_sigs = sigs\<rparr>) in
     apply_update b u' (c, []) = (Ok (), (c', [req])) \<and>
     apply_update b v' (d, []) = (Ok (), (d', [req])) \<and>
     mirrored c' d' \<and> fully_signed b X (ac_params c) t sigs)"
proof -
  let ?i = "ac_part_idx c"
  have i: "?i < 2" and di: "ac_part_idx d = 1 - ?i" using c m by (simp_all add: channel_wf_def channel_ok_def mirrored_def)
  have same: "ac_state d = ac_state c" "ac_params d = ac_params c" "ac_peers d = ac_peers c"
    using m by (simp_all add: mirrored_def)
  obtain sig where s: "sig_valid b X (ac_params c) t ?i sig"
    "update b X c t [] = (Ok (fresh_update c t ?i sig), [] @ [ToParticipant (ac_peers c ! ?i) (ac_peers c ! (1 - ?i))
       (ChannelUpdate \<lparr>lu_state = t, lu_actor_idx = ?i, lu_sig = sig\<rparr>)])"
    using update_valid [OF env c t] by metis
  have dt: "valid_transition b (ac_state d) t" "sig_valid b X (ac_params d) t ?i sig"
    using t(2) s(1) by (simp_all add: same)
  obtain sig' where s': "sig_valid b X (ac_params d) t (1 - ?i) sig'"
    and handle: "handle_update b X d \<lparr>lu_state = t, lu_actor_idx = ?i, lu_sig = sig\<rparr> = Ok (fresh_update d t ?i sig)"
    and acc: "accept b X d (fresh_update d t ?i sig, []) =
      (Ok (), ((fresh_update d t ?i sig)\<lparr>cu_signatures := map Some (both ?i sig sig')\<rparr>,
        [ToParticipant (ac_peers d ! (1 - ?i)) (ac_peers d ! ?i) (ChannelUpdateAccepted
          \<lparr>lua_channel = st_id (ac_state d), lua_version = st_version t, lua_sig = sig'\<rparr>)]))"
    using env d t(1) dt(1) di i dt(2) by (rule honest_acceptor)
  have valid: "sig_valid b X (ac_params c) t (1 - ?i) sig'" using s' by (simp add: same)
  have signed: "fully_signed b X (ac_params c) t (both ?i sig sig')"
    using s(1) valid i by (auto simp: fully_signed_def both_def less_2_cases_iff)
  have mirror: "mirrored (c\<lparr>ac_state := t, ac_signatures := both ?i sig sig'\<rparr>)
      (d\<lparr>ac_state := t, ac_signatures := both ?i sig sig'\<rparr>)"
    using m by (simp add: mirrored_def)
  note upd = s(2) [unfolded append_Nil, folded di]
  note accepted = honest_proposer [OF env t i valid, of sig]
  show ?thesis
    unfolding Let_def
    by (intro exI conjI, rule upd, rule handle, rule acc [folded di, unfolded same],
        rule accepted [folded di], rule apply_fresh_signed [OF t(2), of _ _ _ "[]", unfolded append_Nil],
        rule apply_fresh_signed [OF dt(1), of _ _ _ "[]", unfolded append_Nil same(2)], rule mirror, rule signed)
qed

theorem honest_update_witness:
  "\<exists>u msg. update dbg32 toy_ext (toy_channel 0 (sample_state 4)) (sample_state 5) [] =
      (Ok u, [ToParticipant [10] [11] (ChannelUpdate msg)]) \<and>
    (\<exists>v. handle_update dbg32 toy_ext (toy_channel 1 (sample_state 4)) msg = Ok v)"
proof -
  have m: "mirrored (toy_channel 0 (sample_state 4)) (toy_channel 1 (sample_state 4))"
    by (simp add: mirrored_def toy_channel_def)
  have v: "valid_transition dbg32 (ac_state (toy_channel 0 (sample_state 4))) (sample_state 5)"
    by (simp add: valid_transition_def toy_channel_def sample_state_def dbg32_def)
  have wf: "channel_wf toy_ext (toy_channel 0 (sample_state 4))" "channel_wf toy_ext (toy_channel 1 (sample_state 4))"
    by (rule toy_channel_wf, simp)+
  have peers: "ac_peers (toy_channel 0 (sample_state 4)) ! ac_part_idx (toy_channel 0 (sample_state 4)) = [10]"
    "ac_peers (toy_channel 0 (sample_state 4)) ! ac_part_idx (toy_channel 1 (sample_state 4)) = [11]"
    by (simp_all add: toy_channel_def)
  show ?thesis
    using honest_update [OF toy_env_ok wf m sample_state_wf v] unfolding peers by blast
qed

end
