(* ===== verification/Withdrawal.thy ===== *)
theory Withdrawal
  imports Agreed Active_Facts
begin

text \<open>
  Facts about the withdrawal authorizations of \<open>src/channel/withdrawal_auth.rs\<close>: what is
  signed, and that the encodings of the payloads determine their kind and their fields.
\<close>

definition WithdrawalAuth_abi :: "withdrawal_auth \<Rightarrow> abi" where
  "WithdrawalAuth_abi w = ATuple
     [AStatic (wd_channel_id w), AStatic (replicate 12 0 @ wd_participant w),
      AStatic (replicate 12 0 @ wd_receiver w), AStatic (uint256 (unat (wd_amount w)))]"

definition withdrawal_wf :: "withdrawal_auth \<Rightarrow> bool" where
  "withdrawal_wf w \<longleftrightarrow> length (wd_channel_id w) = 32 \<and> length (wd_participant w) = 20 \<and>
     length (wd_receiver w) = 20"

lemma abi_of_WithdrawalAuth:
  "u256_spec X \<Longrightarrow> abi_of (WithdrawalAuth_sval X w) = Some (WithdrawalAuth_abi w)"
  by (simp add: WithdrawalAuth_sval_def WithdrawalAuth_abi_def)

lemma WithdrawalAuth_layout:
  assumes "withdrawal_wf w"
  shows "abi_encode (WithdrawalAuth_abi w) = concat (map uint256
    [be_val (wd_channel_id w), be_val (wd_participant w), be_val (wd_receiver w), unat (wd_amount w)])"
proof -
  have "uint256 (be_val (wd_channel_id w)) = wd_channel_id w"
    using assms be_bytes_be_val [of "wd_channel_id w"] by (simp add: withdrawal_wf_def uint256_def)
  then show ?thesis
    using assms by (simp add: WithdrawalAuth_abi_def withdrawal_wf_def layout_simps pad32_address
        pad32_full [of "wd_channel_id w"])
qed

lemma WithdrawalAuth_lens_fit: "lens_fit b (WithdrawalAuth_sval X w)"
  by (simp add: WithdrawalAuth_sval_def)

lemma WithdrawalAuth_fits: "withdrawal_wf w \<Longrightarrow> length (abi_enc (WithdrawalAuth_abi w)) < usize_limit b"
proof -
  assume "withdrawal_wf w"
  then have "length (abi_encode (WithdrawalAuth_abi w)) = 128"
    by (simp only: WithdrawalAuth_layout length_concat_uint256 list.size) simp
  then show ?thesis using usize_limit_ge [of b] by (simp add: abi_encode_eq split: if_splits)
qed

lemma WithdrawalAuth_encoding_inj:
  assumes "withdrawal_wf v" "withdrawal_wf w"
  shows "abi_encode (WithdrawalAuth_abi v) = abi_encode (WithdrawalAuth_abi w) \<longleftrightarrow> v = w"
proof -
  have bnd: "be_val (wd_channel_id v) < 256 ^ 32" "be_val (wd_channel_id w) < 256 ^ 32"
    "be_val (wd_participant v) < 256 ^ 32" "be_val (wd_participant w) < 256 ^ 32"
    "be_val (wd_receiver v) < 256 ^ 32" "be_val (wd_receiver w) < 256 ^ 32"
    by (rule be_val_bound, use assms in \<open>simp add: withdrawal_wf_def\<close>)+
  have "abi_encode (WithdrawalAuth_abi v) = abi_encode (WithdrawalAuth_abi w) \<longleftrightarrow>
      be_val (wd_channel_id v) = be_val (wd_channel_id w) \<and> be_val (wd_participant v) = be_val (wd_participant w) \<and>
      be_val (wd_receiver v) = be_val (wd_receiver w) \<and> unat (wd_amount v) = unat (wd_amount w)"
    unfolding WithdrawalAuth_layout [OF assms(1)] WithdrawalAuth_layout [OF assms(2)]
    by (subst concat_uint256_inj) (use bnd in \<open>simp_all add: unat_slot_bound [simplified]\<close>)
  also have "\<dots> \<longleftrightarrow> v = w"
    using assms by (cases v; cases w) (auto simp: withdrawal_wf_def be_val_inj word_unat_eq_iff)
  finally show ?thesis .
qed

lemma WithdrawalAuth_hash_eq:
  assumes "u256_spec X" "withdrawal_wf w"
  shows "to_hash b X (WithdrawalAuth_sval X w) = Ok (keccak256 X (abi_encode (WithdrawalAuth_abi w)))"
  by (rule to_hash_abi [OF abi_of_WithdrawalAuth WithdrawalAuth_lens_fit WithdrawalAuth_fits])
    (fact assms)+

lemma withdrawal_auth_signed:
  assumes "env_ok X" "params_wf 2 p" "length cid = 32" "length receiver = 20" "length bals = 2" "i < 2"
    "signer_ok X s"
  obtains sig where
    "make_withdrawal_auth b X s cid p receiver i bals = Ok \<lparr>sw_sig = sig, sw_receiver = receiver\<rparr>"
    "\<exists>h. to_hash b X (WithdrawalAuth_sval X \<lparr>wd_channel_id = cid, wd_participant = pa_participants p ! i,
        wd_receiver = receiver, wd_amount = bals ! i\<rparr>) = Ok h \<and>
      recover_signer b X h sig = Ok (sg_addr s)"
proof -
  let ?w = "\<lparr>wd_channel_id = cid, wd_participant = pa_participants p ! i, wd_receiver = receiver,
    wd_amount = bals ! i\<rparr>"
  have "withdrawal_wf ?w"
    using assms by (simp add: withdrawal_wf_def params_wf_def list_all_length)
  then have h: "to_hash b X (WithdrawalAuth_sval X ?w) = Ok (keccak256 X (abi_encode (WithdrawalAuth_abi ?w)))"
    using assms(1) by (intro WithdrawalAuth_hash_eq) (simp_all add: env_ok_def)
  obtain sig where "sign_eth b X s (keccak256 X (abi_encode (WithdrawalAuth_abi ?w))) = (Ok sig :: (error, signature) res)"
    "recover_signer b X (keccak256 X (abi_encode (WithdrawalAuth_abi ?w))) sig = Ok (sg_addr s)"
    using assms(1,7) by (auto simp: env_ok_def elim: sign_recover)
  with h assms show ?thesis
    by (intro that [of sig]) (auto simp: make_withdrawal_auth_def index_def params_wf_def)
qed

text \<open>
  C30: the withdrawal authorization covers what the contract checks.  For a well-formed
  two-party state, \<open>make_signed_withdrawal_auths\<close> yields exactly one authorization per asset,
  for the given receiver, and its signature recovers to the signer on the hash of the channel
  identifier, the participant, the receiver and that participant's balance of the asset.
\<close>

theorem withdrawal_auths_cover:
  assumes "env_ok X" "params_wf 2 p" "state_wf 1 2 st" "length cid = 32" "length receiver = 20" "i < 2"
    "signer_ok X s"
  shows "\<exists>sig h. make_signed_withdrawal_auths b X s cid p st receiver i = Ok [\<lparr>sw_sig = sig, sw_receiver = receiver\<rparr>] \<and>
    to_hash b X (WithdrawalAuth_sval X \<lparr>wd_channel_id = cid, wd_participant = pa_participants p ! i,
      wd_receiver = receiver, wd_amount = al_balances (st_outcome st) ! 0 ! i\<rparr>) = Ok h \<and>
    recover_signer b X h sig = Ok (sg_addr s)"
proof -
  obtain a x y where st: "st_outcome st = \<lparr>al_assets = [\<lparr>as_holder = a\<rparr>], al_balances = [[x, y]], al_locked = ()\<rparr>"
    using assms(3) by (rule state_1_2_cases)
  have "length [x, y] = 2" by simp
  then obtain sig where "make_withdrawal_auth b X s cid p receiver i [x, y] = Ok \<lparr>sw_sig = sig, sw_receiver = receiver\<rparr>"
    "\<exists>h. to_hash b X (WithdrawalAuth_sval X \<lparr>wd_channel_id = cid, wd_participant = pa_participants p ! i,
        wd_receiver = receiver, wd_amount = [x, y] ! i\<rparr>) = Ok h \<and> recover_signer b X h sig = Ok (sg_addr s)"
    using withdrawal_auth_signed [OF assms(1,2,4,5) _ assms(6,7)] by metis
  then show ?thesis
    by (auto simp: make_signed_withdrawal_auths_def st ASSETS_def)
qed

theorem withdrawal_auths_cover_witness:
  "\<exists>sig. make_signed_withdrawal_auths \<lparr>profile = Debug, ptr_width = W32\<rparr> toy_ext (toy_signer 7) (replicate 32 1)
    (sample_params 1) (sample_state 4) (replicate 20 5) 0 = Ok [\<lparr>sw_sig = sig, sw_receiver = replicate 20 5\<rparr>]"
proof -
  have "env_ok toy_ext" by (simp add: env_ok_def toy_u256_spec toy_crypto_spec)
  from withdrawal_auths_cover [OF this sample_params_wf [of 1] sample_state_wf [of 4] _ _ _ toy_signer_ok [of 7],
      of "replicate 32 1" "replicate 20 5" 0 "\<lparr>profile = Debug, ptr_width = W32\<rparr>"]
  show ?thesis by auto
qed

text \<open>
  C31: what is hashed for the contract determines what it stands for.  The serializer succeeds on all
  parameters of a two-party channel and on all withdrawal authorizations; two sets of parameters
  write the same slots only if they agree in every field (challenge duration, nonce, participants,
  app and the two flags), two authorizations only if they agree in channel, participant, receiver and
  amount; and the slots of a state, of parameters and of an authorization are never the same.
\<close>

theorem payloads_binding:
  assumes "u256_spec X" "state_wf 1 2 st" "params_wf 2 p" "params_wf 2 q" "withdrawal_wf v" "withdrawal_wf w"
  shows "fst (to_writer b (Params_sval X p) (Slots [])) = Ok () \<and>
    (to_writer b (Params_sval X p) (Slots []) = to_writer b (Params_sval X q) (Slots []) \<longleftrightarrow> p = q) \<and>
    fst (to_writer b (WithdrawalAuth_sval X v) (Slots [])) = Ok () \<and>
    (to_writer b (WithdrawalAuth_sval X v) (Slots []) = to_writer b (WithdrawalAuth_sval X w) (Slots []) \<longleftrightarrow> v = w) \<and>
    to_writer b (State_sval X st) (Slots []) \<noteq> to_writer b (Params_sval X p) (Slots []) \<and>
    to_writer b (State_sval X st) (Slots []) \<noteq> to_writer b (WithdrawalAuth_sval X v) (Slots []) \<and>
    to_writer b (Params_sval X p) (Slots []) \<noteq> to_writer b (WithdrawalAuth_sval X v) (Slots [])"
proof -
  have st: "to_writer b (State_sval X st) (Slots []) = (Ok (), Slots (slots_of (abi_encode (State_abi st))))"
    using to_writer_internal_abi [OF abi_of_State State_lens_fit State_fits, OF assms(1,2,2), of b True "[]"]
    by (simp add: to_writer_def)
  have params: "to_writer b (Params_sval X p) (Slots []) = (Ok (), Slots (slots_of (abi_encode (Params_abi p))))"
    if "params_wf 2 p" for p
    using to_writer_internal_abi [OF abi_of_Params Params_lens_fit Params_fits, OF assms(1) that that, of b True "[]"]
    by (simp add: to_writer_def)
  have auth: "to_writer b (WithdrawalAuth_sval X w) (Slots []) = (Ok (), Slots (slots_of (abi_encode (WithdrawalAuth_abi w))))"
    if "withdrawal_wf w" for w
    using to_writer_internal_abi [OF abi_of_WithdrawalAuth WithdrawalAuth_lens_fit WithdrawalAuth_fits,
        OF assms(1) that, of b True "[]"]
    by (simp add: to_writer_def)
  have "length (abi_encode (State_abi st)) = 576" "length (abi_encode (Params_abi p)) = 320"
    "length (abi_encode (WithdrawalAuth_abi v)) = 128"
    using assms by (simp_all only: State_layout Params_layout WithdrawalAuth_layout
        length_concat_uint256 list.size) simp_all
  moreover have "slots_of x = slots_of y \<longleftrightarrow> x = y" for x y
    by (metis concat_slots_of)
  ultimately show ?thesis
    using Params_encoding_inj [OF assms(3,4)] WithdrawalAuth_encoding_inj [OF assms(5,6)]
    by (auto simp: st params [OF assms(3)] params [OF assms(4)] auth [OF assms(5)] auth [OF assms(6)])
qed

theorem payloads_binding_witness:
  "to_writer \<lparr>profile = Debug, ptr_width = W32\<rparr> (Params_sval toy_ext (sample_params 1)) (Slots []) \<noteq>
     to_writer \<lparr>profile = Debug, ptr_width = W32\<rparr> (Params_sval toy_ext (sample_params 2)) (Slots []) \<and>
   to_writer \<lparr>profile = Debug, ptr_width = W32\<rparr> (State_sval toy_ext (sample_state 4)) (Slots []) \<noteq>
     to_writer \<lparr>profile = Debug, ptr_width = W32\<rparr> (Params_sval toy_ext (sample_params 1)) (Slots [])"
proof -
  have w: "withdrawal_wf \<lparr>wd_channel_id = replicate 32 1, wd_participant = replicate 20 7,
      wd_receiver = replicate 20 5, wd_amount = 3\<rparr>" by (simp add: withdrawal_wf_def)
  have ne: "sample_params 1 \<noteq> sample_params 2" by (simp add: sample_params_def)
  show ?thesis
    using payloads_binding [OF toy_u256_spec sample_state_wf sample_params_wf sample_params_wf w w] ne by blast
qed

end
