(* ===== verification/Demo_Channel.thy ===== *)
theory Demo_Channel
  imports Protocol Opening
begin

text \<open>
  The mid-level channel of the embedded demo (\<open>cortex-m-demo/src/channel.rs\<close>): one value that
  walks through all the phases of a channel, with the type errors of the low-level interface
  turned into run-time errors.  Its state is the phase and the bus of the client behind it.
\<close>

section \<open>Data\<close>

datatype channel_inner =
    Proposed proposed_channel
  | AgreedUpon agreed_upon_channel
  | Signed signed_channel bool bool
  | Active active_channel "channel_update option"
  | TemporaryInvalidState
  | Closing active_channel
  | ForceClosing
  | Closed

datatype demo_error =
    DE_InvalidState
  | DE_HandleAccept handle_accept_error
  | DE_Rejected string
  | DE_ProposalBuild proposal_build_error
  | DE_Signing sign_error
  | DE_AddSignature add_signature_error
  | DE_Build build_error
  | DE_ProposeUpdate propose_update_error
  | DE_HandleUpdate handle_update_error
  | DE_Accept accept_error
  | DE_ApplyUpdate apply_error
  | DE_NotEnoughFunds
  | DE_Closed

section \<open>Operations\<close>

definition Channel_new :: "proposed_channel \<Rightarrow> channel_inner" where
  "Channel_new c = Proposed c"

definition Channel_new_agreed_upon :: "agreed_upon_channel \<Rightarrow> channel_inner" where
  "Channel_new_agreed_upon c = AgreedUpon c"

definition is_closed :: "channel_inner \<Rightarrow> bool" where
  "is_closed inner = (case inner of Closed \<Rightarrow> True | _ \<Rightarrow> False)"

text \<open>
  \<open>progress\<close> moves the phase out, leaves \<open>TemporaryInvalidState\<close> in its place, and writes back
  what the transition returns, with or without an error; a panic leaves the placeholder.
\<close>

type_synonym transition = "(bus, channel_inner \<times> demo_error, channel_inner) cmd"

definition progress ::
    "(channel_inner \<Rightarrow> transition) \<Rightarrow> (channel_inner \<times> bus, demo_error, unit) cmd" where
  "progress f = (\<lambda>(inner, bus). case f inner bus of
     (Ok ch, bus') \<Rightarrow> (Ok (), (ch, bus'))
   | (Err (ch, e), bus') \<Rightarrow> (Err e, (ch, bus'))
   | (Panic, bus') \<Rightarrow> (Panic, (TemporaryInvalidState, bus')))"

text \<open>
  The state \<open>update\<close> proposes.  The funds that are checked are those at index 1, whoever the
  participant is; \<open>+=\<close> and \<open>-=\<close> panic on overflow.
\<close>

definition payment_state ::
    "build \<Rightarrow> ext \<Rightarrow> active_channel \<Rightarrow> u256 \<Rightarrow> bool \<Rightarrow> (demo_error, state) res" where
  "payment_state b X ch amount is_final =
     bind_res (make_next_state b (ac_state ch)) (\<lambda>new_state.
     bind_res (index (al_balances (st_outcome new_state)) 0) (\<lambda>bals.
     bind_res (index bals 1) (\<lambda>funds.
     if funds < amount then Err DE_NotEnoughFunds
     else
       bind_res (usize_sub b 1 (ac_part_idx ch)) (\<lambda>other.
       bind_res (index bals other) (\<lambda>theirs.
       bind_res (unwrap (u256_add X theirs amount)) (\<lambda>theirs'.
       bind_res (set_index bals other theirs') (\<lambda>bals1.
       bind_res (index bals1 (ac_part_idx ch)) (\<lambda>ours.
       bind_res (unwrap (u256_sub X ours amount)) (\<lambda>ours'.
       bind_res (set_index bals1 (ac_part_idx ch) ours') (\<lambda>bals2.
       Ok (new_state\<lparr>st_outcome := (st_outcome new_state)\<lparr>al_balances :=
             (al_balances (st_outcome new_state))[0 := bals2]\<rparr>, st_is_final := is_final\<rparr>)))))))))))"

definition channel_update_op ::
    "build \<Rightarrow> ext \<Rightarrow> u256 \<Rightarrow> bool \<Rightarrow> (channel_inner \<times> bus, demo_error, unit) cmd" where
  "channel_update_op b X amount is_final = (\<lambda>(inner, bus). case inner of
     Active ch upd \<Rightarrow> (case payment_state b X ch amount is_final of
       Ok new_state \<Rightarrow> (case update b X ch new_state bus of
           (Ok u, bus') \<Rightarrow> (Ok (), (Active ch (Some u), bus'))
         | (Err e, bus') \<Rightarrow> (Err (DE_ProposeUpdate e), (inner, bus'))
         | (Panic, bus') \<Rightarrow> (Panic, (inner, bus')))
     | Err e \<Rightarrow> (Err e, (inner, bus))
     | Panic \<Rightarrow> (Panic, (inner, bus)))
   | TemporaryInvalidState \<Rightarrow> (Panic, (inner, bus))
   | _ \<Rightarrow> (Err DE_InvalidState, (inner, bus)))"

definition force_close_transition :: "channel_inner \<Rightarrow> transition" where
  "force_close_transition inner = (case inner of
     Active ch upd \<Rightarrow> (\<lambda>bus. case force_close ch bus of
         (Ok _, bus') \<Rightarrow> (Ok ForceClosing, bus')
       | (Err e, bus') \<Rightarrow> (Err (Active ch upd, DE_Signing e), bus')
       | (Panic, bus') \<Rightarrow> (Panic, bus'))
   | TemporaryInvalidState \<Rightarrow> crash
   | _ \<Rightarrow> fail (inner, DE_InvalidState))"

definition channel_force_close :: "(channel_inner \<times> bus, demo_error, unit) cmd" where
  "channel_force_close = progress force_close_transition"

fun watcher_transition :: "watcher_reply_message \<Rightarrow> channel_inner \<Rightarrow> transition" where
  "watcher_transition (Ack _ _) (Signed ch _ funded) =
     (if funded then ret (Active (mark_funded ch) None) else ret (Signed ch True funded))"
| "watcher_transition (Ack _ _) (Active ch upd) = ret (Active ch upd)"
| "watcher_transition (DisputeNotification _) (Active _ _) = ret Closed"
| "watcher_transition (Ack _ _) (Closing _) = ret Closed"
| "watcher_transition (DisputeNotification _) (Closing _) = ret Closed"
| "watcher_transition (DisputeAck _) ForceClosing = ret Closed"
| "watcher_transition (DisputeNotification _) ForceClosing = ret ForceClosing"
| "watcher_transition (DisputeNotification _) Closed = ret Closed"
| "watcher_transition _ ForceClosing = fail (ForceClosing, DE_Closed)"
| "watcher_transition _ TemporaryInvalidState = crash"
| "watcher_transition _ inner = fail (inner, DE_InvalidState)"

definition process_watcher_reply ::
    "watcher_reply_message \<Rightarrow> (channel_inner \<times> bus, demo_error, unit) cmd" where
  "process_watcher_reply msg = progress (watcher_transition msg)"

fun funder_transition :: "funder_reply_message \<Rightarrow> channel_inner \<Rightarrow> transition" where
  "funder_transition (Funded _) (Signed ch watching _) =
     (if watching then ret (Active (mark_funded ch) None) else ret (Signed ch watching True))"
| "funder_transition _ (Closing ch) = fail (Closing ch, DE_Closed)"
| "funder_transition _ ForceClosing = fail (ForceClosing, DE_Closed)"
| "funder_transition _ Closed = fail (Closed, DE_Closed)"
| "funder_transition _ TemporaryInvalidState = crash"
| "funder_transition _ inner = fail (inner, DE_InvalidState)"

definition process_funder_reply ::
    "funder_reply_message \<Rightarrow> (channel_inner \<times> bus, demo_error, unit) cmd" where
  "process_funder_reply msg = progress (funder_transition msg)"

text \<open>The arms of \<open>process_participant_msg\<close> that do more than rename the phase.\<close>

definition proposal_accepted_arm ::
    "build \<Rightarrow> ext \<Rightarrow> ledger_channel_proposal_acc \<Rightarrow> proposed_channel \<Rightarrow> transition" where
  "proposal_accepted_arm b X msg ch bus = (case proposal_participant_accepted b 1 msg ch of
     (Err e, ch') \<Rightarrow> (Err (Proposed ch', DE_HandleAccept e), bus)
   | (Panic, _) \<Rightarrow> (Panic, bus)
   | (Ok _, ch') \<Rightarrow> (case build_agreed b X ch' of
         Err (ch'', e) \<Rightarrow> (Err (Proposed ch'', DE_ProposalBuild e), bus)
       | Panic \<Rightarrow> (Panic, bus)
       | Ok ag \<Rightarrow> (case sign b X (ag, bus) of
             (Ok _, (ag', bus')) \<Rightarrow> (Ok (AgreedUpon ag'), bus')
           | (Err e, (ag', bus')) \<Rightarrow> (Panic, bus')
           | (Panic, (ag', bus')) \<Rightarrow> (Panic, bus'))))"

definition signature_arm ::
    "build \<Rightarrow> ext \<Rightarrow> ledger_channel_update_accepted \<Rightarrow> agreed_upon_channel \<Rightarrow> transition" where
  "signature_arm b X msg ch bus = (case add_signature b X msg ch of
     (Err e, ch') \<Rightarrow> (Err (AgreedUpon ch', DE_AddSignature e), bus)
   | (Panic, _) \<Rightarrow> (Panic, bus)
   | (Ok _, ch') \<Rightarrow> (case build_signed b ch' bus of
         (Ok sc, bus') \<Rightarrow> (Ok (Signed sc False False), bus')
       | (Err (ch'', e), bus') \<Rightarrow> (Err (AgreedUpon ch'', DE_Build e), bus')
       | (Panic, bus') \<Rightarrow> (Panic, bus')))"

definition after_apply :: "active_channel \<Rightarrow> channel_update \<Rightarrow> channel_inner" where
  "after_apply ch u = (if st_is_final (cu_new_state u) then Closing ch else Active ch None)"

definition remote_update_arm ::
    "build \<Rightarrow> ext \<Rightarrow> ledger_channel_update \<Rightarrow> active_channel \<Rightarrow> transition" where
  "remote_update_arm b X msg ch bus = (case handle_update b X ch msg of
     Err e \<Rightarrow> (Err (Active ch None, DE_HandleUpdate e), bus)
   | Panic \<Rightarrow> (Panic, bus)
   | Ok u \<Rightarrow> (case accept b X ch (u, bus) of
         (Err e, (_, bus1)) \<Rightarrow> (Err (Active ch None, DE_Accept e), bus1)
       | (Panic, (_, bus1)) \<Rightarrow> (Panic, bus1)
       | (Ok _, (u', bus1)) \<Rightarrow> (case apply_update b u' (ch, bus1) of
             (Err e, (ch', bus2)) \<Rightarrow> (Err (Active ch' None, DE_ApplyUpdate e), bus2)
           | (Panic, (_, bus2)) \<Rightarrow> (Panic, bus2)
           | (Ok _, (ch', bus2)) \<Rightarrow> (Ok (after_apply ch' u'), bus2))))"

definition update_accepted_arm ::
    "build \<Rightarrow> ext \<Rightarrow> ledger_channel_update_accepted \<Rightarrow> active_channel \<Rightarrow> channel_update \<Rightarrow> transition" where
  "update_accepted_arm b X msg ch u bus = (case usize_sub b 1 (ac_part_idx ch) of
     Ok other \<Rightarrow> (case participant_accepted b X ch other msg u of
         (Err e, u') \<Rightarrow> (Err (Active ch (Some u'), DE_AddSignature e), bus)
       | (Panic, _) \<Rightarrow> (Panic, bus)
       | (Ok _, u') \<Rightarrow> (case apply_update b u' (ch, bus) of
             (Ok _, (ch', bus')) \<Rightarrow> (Ok (after_apply ch' u'), bus')
           | (Err e, (ch', bus')) \<Rightarrow> (Err (Active ch' (Some u'), DE_ApplyUpdate e), bus')
           | (Panic, (_, bus')) \<Rightarrow> (Panic, bus')))
   | Err (e :: demo_error) \<Rightarrow> (Panic, bus)
   | Panic \<Rightarrow> (Panic, bus))"

fun participant_transition ::
    "build \<Rightarrow> ext \<Rightarrow> participant_message \<Rightarrow> channel_inner \<Rightarrow> transition" where
  "participant_transition b X (ProposalAccepted msg) (Proposed ch) = proposal_accepted_arm b X msg ch"
| "participant_transition b X (ProposalRejected _ reason) (Proposed ch) =
     fail (Proposed ch, DE_Rejected reason)"
| "participant_transition b X (ChannelUpdateAccepted msg) (AgreedUpon ch) = signature_arm b X msg ch"
| "participant_transition b X (ChannelUpdateRejected _ _ reason) (AgreedUpon ch) =
     fail (AgreedUpon ch, DE_Rejected reason)"
| "participant_transition b X (ChannelUpdate msg) (Active ch None) = remote_update_arm b X msg ch"
| "participant_transition b X (ChannelUpdateAccepted msg) (Active ch (Some u)) =
     update_accepted_arm b X msg ch u"
| "participant_transition b X (ChannelUpdateRejected _ _ _) (Active ch (Some u)) = ret (Active ch None)"
| "participant_transition b X _ (Closing ch) = fail (Closing ch, DE_Closed)"
| "participant_transition b X _ ForceClosing = fail (ForceClosing, DE_Closed)"
| "participant_transition b X _ Closed = fail (Closed, DE_Closed)"
| "participant_transition b X _ TemporaryInvalidState = crash"
| "participant_transition b X _ inner = fail (inner, DE_InvalidState)"

definition process_participant_msg ::
    "build \<Rightarrow> ext \<Rightarrow> participant_message \<Rightarrow> (channel_inner \<times> bus, demo_error, unit) cmd" where
  "process_participant_msg b X msg = progress (participant_transition b X msg)"

end
