(* ===== verification/Demo_Steps.thy ===== *)
theory Demo_Steps
  imports Demo_Channel
begin

text \<open>
  The mid-level channel of the demo in operation: every call and every message that arrives is
  a step, on every outcome.  The guarantees of the low-level interface carry over: whatever the
  phase, what the channel holds and sends is signed by both participants.  Phases are ordered,
  and a channel never moves back.
\<close>

section \<open>Steps\<close>

text \<open>What the Rust types fix of a message.\<close>

definition participant_msg_wf :: "participant_message \<Rightarrow> bool" where
  "participant_msg_wf m = (case m of
     ProposalAccepted a \<Rightarrow> proposal_acc_wf a
   | ChannelUpdate u \<Rightarrow> state_wf 1 2 (lu_state u)
   | _ \<Rightarrow> True)"

inductive demo_step :: "build \<Rightarrow> ext \<Rightarrow> channel_inner \<times> bus \<Rightarrow> channel_inner \<times> bus \<Rightarrow> bool" for b X where
  updating: "channel_update_op b X amount is_final s = (r, s') \<Longrightarrow> demo_step b X s s'"
| force_closing: "channel_force_close s = (r, s') \<Longrightarrow> demo_step b X s s'"
| watcher_reply: "process_watcher_reply w s = (r, s') \<Longrightarrow> demo_step b X s s'"
| funder_reply: "process_funder_reply f s = (r, s') \<Longrightarrow> demo_step b X s s'"
| participant_msg: "participant_msg_wf m \<Longrightarrow> process_participant_msg b X m s = (r, s') \<Longrightarrow>
    demo_step b X s s'"

section \<open>The invariant\<close>

definition open_ok :: "build \<Rightarrow> ext \<Rightarrow> active_channel \<Rightarrow> bool" where
  "open_ok b X ch \<longleftrightarrow> channel_ok X ch \<and>
     fully_signed b X (ac_params ch) (ac_state ch) (ac_signatures ch)"

definition proposed_ok :: "ext \<Rightarrow> proposed_channel \<Rightarrow> bool" where
  "proposed_ok X c \<longleftrightarrow> pr_part_idx c = 0 \<and> proposal_ok (pr_proposal c) \<and>
     signer_ok X (cl_signer (pr_client c)) \<and>
     lp_participant (pr_proposal c) = sg_addr (cl_signer (pr_client c)) \<and>
     (pr_responses c = [None] \<or> (\<exists>a. pr_responses c = [Some a] \<and> proposal_acc_wf a))"

definition inner_inv :: "build \<Rightarrow> ext \<Rightarrow> channel_inner \<Rightarrow> bool" where
  "inner_inv b X inner = (case inner of
     Proposed c \<Rightarrow> proposed_ok X c
   | AgreedUpon c \<Rightarrow> agreed_inv b X c
   | Signed sc _ _ \<Rightarrow> open_ok b X (mark_funded sc)
   | Active ch upd \<Rightarrow> open_ok b X ch \<and> (case upd of None \<Rightarrow> True | Some u \<Rightarrow> update_inv b X ch u)
   | Closing ch \<Rightarrow> open_ok b X ch
   | _ \<Rightarrow> True)"

definition demo_inv :: "build \<Rightarrow> ext \<Rightarrow> channel_inner \<times> bus \<Rightarrow> bool" where
  "demo_inv b X s \<longleftrightarrow> env_ok X \<and> inner_inv b X (fst s) \<and> bus_ok b X (snd s)"

text \<open>The invariant of a transition's result; a panic leaves nothing but the bus.\<close>

definition result_inv :: "build \<Rightarrow> ext \<Rightarrow> (channel_inner \<times> demo_error, channel_inner) res \<times> bus \<Rightarrow> bool" where
  "result_inv b X = (\<lambda>(r, bus). bus_ok b X bus \<and>
     (case r of Ok inner \<Rightarrow> inner_inv b X inner | Err (inner, e) \<Rightarrow> inner_inv b X inner | Panic \<Rightarrow> True))"

lemma inner_inv_simps [simp]:
  "inner_inv b X (Proposed c) = proposed_ok X c"
  "inner_inv b X (AgreedUpon ag) = agreed_inv b X ag"
  "inner_inv b X (Signed sc w f) = open_ok b X (mark_funded sc)"
  "inner_inv b X (Active ch None) = open_ok b X ch"
  "inner_inv b X (Active ch (Some u)) \<longleftrightarrow> open_ok b X ch \<and> update_inv b X ch u"
  "inner_inv b X (Closing ch) = open_ok b X ch"
  "inner_inv b X TemporaryInvalidState" "inner_inv b X ForceClosing" "inner_inv b X Closed"
  by (simp_all add: inner_inv_def)

lemma result_inv_simps [simp]:
  "result_inv b X (Ok inner, bus) \<longleftrightarrow> bus_ok b X bus \<and> inner_inv b X inner"
  "result_inv b X (Err (inner, e), bus) \<longleftrightarrow> bus_ok b X bus \<and> inner_inv b X inner"
  "result_inv b X (Panic, bus) \<longleftrightarrow> bus_ok b X bus"
  by (auto simp: result_inv_def)

lemma progress_inv:
  assumes "\<And>inner bus. demo_inv b X (inner, bus) \<Longrightarrow> result_inv b X (f inner bus)"
    "demo_inv b X s" "progress f s = (r, s')"
  shows "demo_inv b X s'"
proof -
  obtain inner bus where s: "s = (inner, bus)" by (cases s)
  from assms(1) [of inner bus] assms(2,3) s show ?thesis
    by (auto simp: progress_def demo_inv_def split: prod.splits res.splits)
qed

lemma demo_system_inv:
  assumes "env_ok X" "open_ok b X ch" "list_all (update_inv b X ch) us" "bus_ok b X bus"
  shows "system_inv b X \<lparr>sy_channel = ch, sy_updates = us, sy_bus = bus\<rparr>"
  using assms by (simp add: system_inv_def open_ok_def)

lemma inner_inv_Active: "inner_inv b X (Active ch upd) \<Longrightarrow> open_ok b X ch"
  by (cases upd) simp_all

section \<open>Every step keeps the invariant\<close>

lemma force_close_transition_inv:
  "demo_inv b X (inner, bus) \<Longrightarrow> result_inv b X (force_close_transition inner bus)"
  by (cases inner)
    (auto simp: force_close_transition_def demo_inv_def sends msg_ok_def open_ok_def
      dest: inner_inv_Active)

lemma watcher_transition_inv:
  "demo_inv b X (inner, bus) \<Longrightarrow> result_inv b X (watcher_transition w inner bus)"
  by (cases "(w, inner)" rule: watcher_transition.cases) (auto simp: demo_inv_def)

lemma funder_transition_inv:
  "demo_inv b X (inner, bus) \<Longrightarrow> result_inv b X (funder_transition w inner bus)"
  by (cases "(w, inner)" rule: funder_transition.cases) (auto simp: demo_inv_def)

lemma payment_state_wf:
  assumes "payment_state b X ch amount is_final = Ok t" "state_wf 1 2 (ac_state ch)"
  shows "state_wf 1 2 t"
proof -
  obtain h x y where "st_outcome (ac_state ch) = \<lparr>al_assets = [\<lparr>as_holder = h\<rparr>], al_balances = [[x, y]], al_locked = ()\<rparr>"
    "length h = 20" "length (st_id (ac_state ch)) = 32"
    using assms(2) unfolding state_wf_def by (metis wf_1_2_cases)
  with assms(1) show ?thesis
    by (auto simp: payment_state_def make_next_state_def bind_res_Ok_iff state_wf_def allocation_wf_def
        split: if_splits nat.splits)
qed

lemma channel_update_op_inv:
  assumes "demo_inv b X s" "channel_update_op b X amount is_final s = (r, s')"
  shows "demo_inv b X s'"
proof (cases "\<exists>ch upd bus t. s = (Active ch upd, bus) \<and> payment_state b X ch amount is_final = Ok t")
  case True
  then obtain ch upd bus t where s: "s = (Active ch upd, bus)" "payment_state b X ch amount is_final = Ok t"
    by blast
  have inv: "env_ok X" "open_ok b X ch" "bus_ok b X bus"
    using assms(1) s by (auto simp: demo_inv_def dest: inner_inv_Active)
  have t: "state_wf 1 2 t"
    using payment_state_wf [OF s(2)] inv(2) by (simp add: open_ok_def channel_wf_def channel_ok_def)
  obtain q bus' where u: "update b X ch t bus = (q, bus')" by (cases "update b X ch t bus")
  have "system_inv b X \<lparr>sy_channel = ch, sy_updates = [], sy_bus = bus\<rparr>"
    using inv by (intro demo_system_inv) simp_all
  from system_inv_update [OF this t u] have "bus_ok b X bus'" "\<forall>v. q = Ok v \<longrightarrow> update_inv b X ch v"
    by (simp_all add: system_inv_def)
  with assms s u inv show ?thesis
    by (auto simp: channel_update_op_def demo_inv_def split: res.splits)
next
  case False
  then have "s' = s" using assms(2)
    by (cases s) (auto simp: channel_update_op_def split: channel_inner.splits res.splits)
  with assms(1) show ?thesis by simp
qed

lemma proposal_accepted_arm_inv:
  assumes "env_ok X" "proposed_ok X c" "proposal_acc_wf a" "bus_ok b X bus"
  shows "result_inv b X (proposal_accepted_arm b X a c bus)"
proof (cases "la_proposal_id a = lp_proposal_id (pr_proposal c) \<and> pr_responses c = [None]")
  case True
  let ?c = "c\<lparr>pr_responses := [Some a]\<rparr>"
  let ?ag = "AgreedUponChannel_new (PerunClient_new (cl_signer (pr_client c))) (lp_funding_agreement (pr_proposal c))
    0 (pr_withdraw_receiver c) (opened_state X (pr_proposal c) a) (opened_params X (pr_proposal c) a)
    (lp_peers (pr_proposal c))"
  have acc: "proposal_participant_accepted b 1 a c = (Ok (), ?c)"
    using True by (simp add: proposal_participant_accepted_def usize_sub_def index_def)
  have c: "pr_part_idx c = 0" "proposal_ok (pr_proposal c)" "signer_ok X (cl_signer (pr_client c))"
    "lp_participant (pr_proposal c) = sg_addr (cl_signer (pr_client c))"
    using assms(2) by (simp_all add: proposed_ok_def)
  have "pr_client c = PerunClient_new (cl_signer (pr_client c))" by (simp add: PerunClient_new_def)
  then have agreed: "build_agreed b X ?c = Ok ?ag"
    using build_agreed_Ok [OF assms(1), of ?c a b] c assms(3) by simp
  have wf: "agreed_ok X ?ag" using c assms by (intro opened_agreed_ok) simp_all
  have inv: "agreed_inv b X ?ag"
    using wf assms(1) by (auto simp: agreed_inv_def AgreedUponChannel_new_def PARTICIPANTS_def less_2_cases_iff)
  have none: "ag_signatures ?ag ! ag_part_idx ?ag = None"
    by (simp add: AgreedUponChannel_new_def PARTICIPANTS_def)
  obtain ag' r p ps m where sign: "sign b X (?ag, bus) = (r, (ag', bus @ map (\<lambda>q. ToParticipant p q m) ps))"
    using sign_sends [OF assms(1) wf none] by metis
  have "agreed_inv b X ag'" using inv by (rule agreed_inv_step) (rule agreed_step.signing [OF sign])
  then show ?thesis using acc agreed sign assms(4) by (cases r) (simp_all add: proposal_accepted_arm_def)
next
  case False
  then have "proposal_participant_accepted b 1 a c =
      (Err (if la_proposal_id a \<noteq> lp_proposal_id (pr_proposal c) then HA_InvalidProposalID else HA_AlreadyAccepted), c)"
    using assms(2) by (auto simp: proposal_participant_accepted_def usize_sub_def proposed_ok_def index_def)
  then show ?thesis using assms by (simp add: proposal_accepted_arm_def)
qed

lemma signature_arm_inv:
  assumes "agreed_inv b X c" "bus_ok b X bus"
  shows "result_inv b X (signature_arm b X m c bus)"
proof -
  obtain r c' where add: "add_signature b X m c = (r, c')" by (cases "add_signature b X m c")
  have inv: "agreed_inv b X c'" using assms(1) by (rule agreed_inv_step) (rule agreed_step.adding [OF add])
  then have wf: "agreed_ok X c'" "length (ag_signatures c') = 2" by (simp_all add: agreed_inv_def agreed_wf_def agreed_ok_def)
  have "result_inv b X (case build_signed b c' bus of
      (Ok sc, bus') \<Rightarrow> (Ok (Signed sc False False), bus')
    | (Err (ch'', e), bus') \<Rightarrow> (Err (AgreedUpon ch'', DE_Build e), bus') | (Panic, bus') \<Rightarrow> (Panic, bus'))"
  proof (cases "None \<in> set (ag_signatures c')")
    case True
    then show ?thesis using build_signed_missing [OF wf(2) True] inv assms(2) by simp
  next
    case False
    then show ?thesis
      using build_signed_complete [OF wf(1) False] opened_channel_ok [OF inv False] assms(2)
      by (simp add: open_ok_def opening_requests_def msg_ok_def watch_requested_def opened_channel_def)
  qed
  then show ?thesis
    using add inv assms(2) by (cases r) (simp_all add: signature_arm_def)
qed

lemma apply_arm_inv:
  assumes "env_ok X" "open_ok b X ch" "update_inv b X ch u" "bus_ok b X bus"
    "apply_update b u (ch, bus) = (r, (ch', bus'))"
  shows "open_ok b X ch'" "update_inv b X ch' u" "bus_ok b X bus'" "inner_inv b X (after_apply ch' u)"
proof -
  have "system_inv b X \<lparr>sy_channel = ch, sy_updates = [u], sy_bus = bus\<rparr>"
    using assms by (intro demo_system_inv) simp_all
  from system_inv_apply [OF this _ assms(5)]
  have "system_inv b X \<lparr>sy_channel = ch', sy_updates = [u], sy_bus = bus'\<rparr>" by simp
  then show "open_ok b X ch'" "update_inv b X ch' u" "bus_ok b X bus'"
    by (simp_all add: system_inv_def open_ok_def)
  then show "inner_inv b X (after_apply ch' u)" by (simp add: after_apply_def)
qed

lemma remote_update_arm_inv:
  assumes "env_ok X" "open_ok b X ch" "state_wf 1 2 (lu_state m)" "bus_ok b X bus"
  shows "result_inv b X (remote_update_arm b X m ch bus)"
proof (cases "handle_update b X ch m")
  case (Ok u)
  have sys: "system_inv b X \<lparr>sy_channel = ch, sy_updates = [], sy_bus = bus\<rparr>"
    using assms by (intro demo_system_inv) simp_all
  have u: "update_inv b X ch u" using sys assms(3) Ok by (rule system_inv_handle)
  obtain r u' bus1 where acc: "accept b X ch (u, bus) = (r, (u', bus1))"
    by (cases "accept b X ch (u, bus)") auto
  from system_inv_accept [OF sys u acc] have u': "update_inv b X ch u'" "bus_ok b X bus1" by simp_all
  obtain r2 ch' bus2 where app: "apply_update b u' (ch, bus1) = (r2, (ch', bus2))"
    by (cases "apply_update b u' (ch, bus1)") auto
  from apply_arm_inv [OF assms(1,2) u' app] u' assms(2) show ?thesis
    using Ok acc app by (cases r; cases r2) (simp_all add: remote_update_arm_def)
qed (use assms in \<open>simp_all add: remote_update_arm_def\<close>)

lemma update_accepted_arm_inv:
  assumes "env_ok X" "open_ok b X ch" "update_inv b X ch u" "bus_ok b X bus"
  shows "result_inv b X (update_accepted_arm b X m ch u bus)"
proof (cases "usize_sub b 1 (ac_part_idx ch) :: (demo_error, nat) res")
  case (Ok other)
  obtain r u' where acc: "participant_accepted b X ch other m u = (r, u')"
    by (cases "participant_accepted b X ch other m u")
  have u': "update_inv b X ch u'" using assms(1,3) acc by (rule update_inv_accepted)
  obtain r2 ch' bus' where app: "apply_update b u' (ch, bus) = (r2, (ch', bus'))"
    by (cases "apply_update b u' (ch, bus)") auto
  from apply_arm_inv [OF assms(1,2) u' assms(4) app] u' assms(2,4) show ?thesis
    using Ok acc app by (cases r; cases r2) (simp_all add: update_accepted_arm_def)
qed (use assms in \<open>simp_all add: update_accepted_arm_def\<close>)

lemma participant_transition_inv:
  assumes "participant_msg_wf m" "demo_inv b X (inner, bus)"
  shows "result_inv b X (participant_transition b X m inner bus)"
  using assms
  by (cases "(b, X, m, inner)" rule: participant_transition.cases)
    (auto simp: demo_inv_def participant_msg_wf_def
      intro: proposal_accepted_arm_inv signature_arm_inv remote_update_arm_inv update_accepted_arm_inv
      dest: inner_inv_Active)

lemma demo_inv_step:
  assumes "demo_inv b X s" "demo_step b X s s'"
  shows "demo_inv b X s'"
  using assms(2)
proof cases
  case (updating amount is_final r)
  with assms(1) show ?thesis by (rule channel_update_op_inv)
next
  case (force_closing r)
  then show ?thesis unfolding channel_force_close_def
    by (rule progress_inv [OF _ assms(1), rotated]) (rule force_close_transition_inv)
next
  case (watcher_reply w r)
  then show ?thesis unfolding process_watcher_reply_def
    by (rule progress_inv [OF _ assms(1), rotated]) (rule watcher_transition_inv)
next
  case (funder_reply f r)
  then show ?thesis unfolding process_funder_reply_def
    by (rule progress_inv [OF _ assms(1), rotated]) (rule funder_transition_inv)
next
  case (participant_msg m r)
  then show ?thesis unfolding process_participant_msg_def
    using participant_transition_inv [OF participant_msg(1)] by (intro progress_inv [OF _ assms(1)])
qed

interpretation demo: invariant_system "demo_step b X" "demo_inv b X"
  by unfold_locales (rule demo_inv_step)

section \<open>The funds behind a channel\<close>

text \<open>The total of every asset, from the proposal on, as long as the phase holds a channel.\<close>

definition funds_of :: "channel_inner \<Rightarrow> nat list option" where
  "funds_of inner = (case inner of
     Proposed c \<Rightarrow> Some (map amounts (al_balances (lp_init_bals (pr_proposal c))))
   | AgreedUpon c \<Rightarrow> Some (totals (ag_init_state c))
   | Signed sc _ _ \<Rightarrow> Some (totals (ac_state (mark_funded sc)))
   | Active ch _ \<Rightarrow> Some (totals (ac_state ch))
   | Closing ch \<Rightarrow> Some (totals (ac_state ch))
   | _ \<Rightarrow> None)"

lemma funds_of_simps [simp]:
  "funds_of (Proposed c) = Some (map amounts (al_balances (lp_init_bals (pr_proposal c))))"
  "funds_of (AgreedUpon ag) = Some (totals (ag_init_state ag))"
  "funds_of (Signed sc w f) = Some (totals (ac_state (mark_funded sc)))"
  "funds_of (Active ch upd) = Some (totals (ac_state ch))"
  "funds_of (Closing ch) = Some (totals (ac_state ch))"
  "funds_of TemporaryInvalidState = None" "funds_of ForceClosing = None" "funds_of Closed = None"
  by (simp_all add: funds_of_def)

definition keeps_funds :: "channel_inner \<Rightarrow> channel_inner \<Rightarrow> bool" where
  "keeps_funds inner inner' \<longleftrightarrow> funds_of inner' = None \<or> funds_of inner' = funds_of inner"

definition result_funds :: "channel_inner \<Rightarrow> (channel_inner \<times> demo_error, channel_inner) res \<times> bus \<Rightarrow> bool" where
  "result_funds inner = (\<lambda>(r, bus).
     case r of Ok inner' \<Rightarrow> keeps_funds inner inner' | Err (inner', e) \<Rightarrow> keeps_funds inner inner' | Panic \<Rightarrow> True)"

lemma result_funds_simps [simp]:
  "result_funds inner (Ok inner', bus) \<longleftrightarrow> keeps_funds inner inner'"
  "result_funds inner (Err (inner', e), bus) \<longleftrightarrow> keeps_funds inner inner'"
  "result_funds inner (Panic, bus)"
  by (simp_all add: result_funds_def)

lemma keeps_funds_refl [simp]: "keeps_funds inner inner"
  by (simp add: keeps_funds_def)

lemma progress_funds:
  assumes "result_funds inner (f inner bus)" "progress f (inner, bus) = (r, s')"
  shows "keeps_funds inner (fst s')"
  using assms by (auto simp: progress_def keeps_funds_def split: prod.splits res.splits)

lemma force_close_funds: "result_funds inner (force_close_transition inner bus)"
  by (cases inner) (auto simp: force_close_transition_def force_close_def keeps_funds_def)

lemma watcher_funds: "result_funds inner (watcher_transition w inner bus)"
  by (cases "(w, inner)" rule: watcher_transition.cases) (auto simp: keeps_funds_def)

lemma funder_funds: "result_funds inner (funder_transition w inner bus)"
  by (cases "(w, inner)" rule: funder_transition.cases) (auto simp: keeps_funds_def)

lemma proposal_accepted_funds: "result_funds (Proposed c) (proposal_accepted_arm b X a c bus)"
proof -
  have acc: "pr_proposal c' = pr_proposal c" if "proposal_participant_accepted b i a c = (r, c')" for i r c'
    using that by (auto simp: proposal_participant_accepted_def split: if_splits res.splits option.splits)
  have built: "st_outcome (ag_init_state ag) = lp_init_bals (pr_proposal c')" if "build_agreed b X c' = Ok ag" for c' ag
    using that by (auto simp: build_agreed_def State_new_def bind_res_Ok_iff AgreedUponChannel_new_def)
  have given_back: "c'' = c'" if "build_agreed b X c' = Err (c'', e)" for c' c'' e
    using that by (auto simp: build_agreed_def map_err_Err_iff)
  have signed: "ag_init_state ag' = ag_init_state ag" if "sign b X (ag, bus) = (r, (ag', bus'))" for ag r ag' bus'
    using that by (auto simp: sign_def bindS_def modify_obj_def on_bus_def split: res.splits option.splits prod.splits)
  show ?thesis
    unfolding proposal_accepted_arm_def
    by (auto simp: keeps_funds_def split: prod.split res.split dest!: acc built given_back signed)
qed

lemma signature_funds: "result_funds (AgreedUpon c) (signature_arm b X m c bus)"
proof -
  have add: "ag_init_state c' = ag_init_state c" if "add_signature b X m c = (r, c')" for r c'
    using that by (auto simp: add_signature_def split: if_splits res.splits option.splits)
  have built: "ac_state (mark_funded sc) = ag_init_state c'" if "build_signed b c' bus = (Ok sc, bus')" for c' sc bus'
    using that by (auto simp: build_signed_def bindS_lift_Ok_iff bindS_Ok_iff SignedChannel_new_def
        ActiveChannel_new_def bind_res_Ok_iff simp del: bindS_lift)
  have given_back: "c'' = c'" if "build_signed b c' bus = (Err (c'', e), bus')" for c' c'' e bus'
    using that by (auto simp: build_signed_def bindS_def SignedChannel_new_def ActiveChannel_new_def
        map_err_Err_iff debug_assert_def split: res.splits if_splits)
  show ?thesis
    unfolding signature_arm_def
    by (auto simp: keeps_funds_def split: prod.split res.split dest!: add built given_back)
qed

lemma apply_funds:
  assumes "env_ok X" "open_ok b X ch" "update_inv b X ch u" "bus_ok b X bus"
    "apply_update b u (ch, bus) = (r, (ch', bus'))"
  shows "totals (ac_state ch') = totals (ac_state ch)"
proof -
  have "system_inv b X \<lparr>sy_channel = ch, sy_updates = [u], sy_bus = bus\<rparr>"
    using assms by (intro demo_system_inv) simp_all
  from system_inv_apply [OF this _ assms(5)] show ?thesis by (simp add: same_funds_def)
qed

lemma after_apply_funds: "funds_of (after_apply ch u) = Some (totals (ac_state ch))"
  by (simp add: after_apply_def)

lemma remote_update_funds:
  assumes "env_ok X" "open_ok b X ch" "state_wf 1 2 (lu_state m)" "bus_ok b X bus"
  shows "result_funds (Active ch None) (remote_update_arm b X m ch bus)"
proof (cases "handle_update b X ch m")
  case (Ok u)
  have sys: "system_inv b X \<lparr>sy_channel = ch, sy_updates = [], sy_bus = bus\<rparr>"
    using assms by (intro demo_system_inv) simp_all
  have u: "update_inv b X ch u" using sys assms(3) Ok by (rule system_inv_handle)
  obtain r u' bus1 where acc: "accept b X ch (u, bus) = (r, (u', bus1))"
    by (cases "accept b X ch (u, bus)") auto
  from system_inv_accept [OF sys u acc] have u': "update_inv b X ch u'" "bus_ok b X bus1" by simp_all
  obtain r2 ch' bus2 where app: "apply_update b u' (ch, bus1) = (r2, (ch', bus2))"
    by (cases "apply_update b u' (ch, bus1)") auto
  from apply_funds [OF assms(1,2) u' app] show ?thesis
    using Ok acc app by (cases r; cases r2) (simp_all add: remote_update_arm_def keeps_funds_def after_apply_funds)
qed (simp_all add: remote_update_arm_def)

lemma update_accepted_funds:
  assumes "env_ok X" "open_ok b X ch" "update_inv b X ch u" "bus_ok b X bus"
  shows "result_funds (Active ch (Some u)) (update_accepted_arm b X m ch u bus)"
proof (cases "usize_sub b 1 (ac_part_idx ch) :: (demo_error, nat) res")
  case (Ok other)
  obtain r u' where acc: "participant_accepted b X ch other m u = (r, u')"
    by (cases "participant_accepted b X ch other m u")
  have u': "update_inv b X ch u'" using assms(1,3) acc by (rule update_inv_accepted)
  obtain r2 ch' bus' where app: "apply_update b u' (ch, bus) = (r2, (ch', bus'))"
    by (cases "apply_update b u' (ch, bus)") auto
  from apply_funds [OF assms(1,2) u' assms(4) app] show ?thesis
    using Ok acc app by (cases r; cases r2) (simp_all add: update_accepted_arm_def keeps_funds_def after_apply_funds)
qed (simp_all add: update_accepted_arm_def)

lemma participant_funds:
  assumes "participant_msg_wf m" "demo_inv b X (inner, bus)"
  shows "result_funds inner (participant_transition b X m inner bus)"
  using assms
  by (cases "(b, X, m, inner)" rule: participant_transition.cases)
    (auto simp: demo_inv_def participant_msg_wf_def keeps_funds_def
      intro: proposal_accepted_funds signature_funds remote_update_funds update_accepted_funds)

lemma step_keeps_funds:
  assumes "demo_inv b X s" "demo_step b X s t"
  shows "keeps_funds (fst s) (fst t)"
proof -
  obtain inner bus where s: "s = (inner, bus)" by (cases s)
  from assms(2) have "keeps_funds inner (fst t)"
    unfolding s
  proof cases
    case (updating amount is_final r)
    then show ?thesis
      by (auto simp: channel_update_op_def keeps_funds_def split: channel_inner.splits res.splits prod.splits)
  next
    case (force_closing r)
    with progress_funds [of inner "force_close_transition" bus, OF force_close_funds] show ?thesis by (simp add: channel_force_close_def)
  next
    case (watcher_reply w r)
    with progress_funds [of inner "watcher_transition w" bus, OF watcher_funds] show ?thesis by (simp add: process_watcher_reply_def)
  next
    case (funder_reply f r)
    with progress_funds [of inner "funder_transition f" bus, OF funder_funds] show ?thesis by (simp add: process_funder_reply_def)
  next
    case (participant_msg m r)
    with progress_funds [of inner "participant_transition b X m" bus, OF participant_funds] assms(1) s show ?thesis
      by (simp add: process_participant_msg_def)
  qed
  then show ?thesis by (simp add: s)
qed

lemma reachable_keeps_funds:
  assumes "(demo_step b X)\<^sup>*\<^sup>* s t" "demo_inv b X s"
  shows "keeps_funds (fst s) (fst t)"
  using assms
  by (rule demo.reachable_preorder [where R = "\<lambda>s t. keeps_funds (fst s) (fst t)"])
    (auto simp: keeps_funds_def dest: step_keeps_funds)

end
