(* ===== verification/Demo_Props.thy ===== *)
theory Demo_Props
  imports Demo_Steps
begin

text \<open>
  Properties of the demo's mid-level channel: what it holds and sends is signed by both
  participants in every phase, the phases only move forward, what a payment does, and how a
  message from the other party can make it panic.
\<close>

section \<open>Phases\<close>

datatype phase =
    P_Proposed | P_AgreedUpon | P_Signed | P_Active | P_Closing | P_ForceClosing | P_Closed | P_Invalid

primrec phase_rank :: "phase \<Rightarrow> nat" where
  "phase_rank P_Proposed = 0"
| "phase_rank P_AgreedUpon = 1"
| "phase_rank P_Signed = 2"
| "phase_rank P_Active = 3"
| "phase_rank P_Closing = 4"
| "phase_rank P_ForceClosing = 5"
| "phase_rank P_Closed = 6"
| "phase_rank P_Invalid = 7"

lemma phase_rank_inj: "phase_rank p = phase_rank q \<Longrightarrow> p = q"
  by (cases p; cases q) simp_all

instantiation phase :: linorder
begin

definition less_eq_phase :: "phase \<Rightarrow> phase \<Rightarrow> bool" where
  "less_eq_phase p q \<longleftrightarrow> phase_rank p \<le> phase_rank q"

definition less_phase :: "phase \<Rightarrow> phase \<Rightarrow> bool" where
  "less_phase p q \<longleftrightarrow> phase_rank p < phase_rank q"

instance
  by standard (auto simp: less_eq_phase_def less_phase_def intro: phase_rank_inj)

end

primrec phase_of :: "channel_inner \<Rightarrow> phase" where
  "phase_of (Proposed c) = P_Proposed"
| "phase_of (AgreedUpon c) = P_AgreedUpon"
| "phase_of (Signed c w f) = P_Signed"
| "phase_of (Active c u) = P_Active"
| "phase_of TemporaryInvalidState = P_Invalid"
| "phase_of (Closing c) = P_Closing"
| "phase_of ForceClosing = P_ForceClosing"
| "phase_of Closed = P_Closed"

lemma phase_of_invalid [simp]: "phase_of inner = P_Invalid \<longleftrightarrow> inner = TemporaryInvalidState"
  by (cases inner) simp_all

text \<open>A transition does not go back, and what it hands over is a proper phase.\<close>

definition forward :: "phase \<Rightarrow> (channel_inner \<times> demo_error, channel_inner) res \<times> bus \<Rightarrow> bool" where
  "forward p = (\<lambda>(r, bus). case r of
     Ok inner \<Rightarrow> p \<le> phase_of inner \<and> inner \<noteq> TemporaryInvalidState
   | Err (inner, e) \<Rightarrow> p \<le> phase_of inner \<and> inner \<noteq> TemporaryInvalidState
   | Panic \<Rightarrow> True)"

lemma forward_simps [simp]:
  "forward p (Ok inner, bus) \<longleftrightarrow> p \<le> phase_of inner \<and> inner \<noteq> TemporaryInvalidState"
  "forward p (Err (inner, e), bus) \<longleftrightarrow> p \<le> phase_of inner \<and> inner \<noteq> TemporaryInvalidState"
  "forward p (Panic, bus)"
  by (simp_all add: forward_def)

lemma force_close_forward: "forward (phase_of inner) (force_close_transition inner bus)"
  by (cases inner) (auto simp: force_close_transition_def force_close_def less_eq_phase_def)

lemma watcher_forward: "forward (phase_of inner) (watcher_transition w inner bus)"
  by (cases "(w, inner)" rule: watcher_transition.cases) (auto simp: less_eq_phase_def)

lemma funder_forward: "forward (phase_of inner) (funder_transition w inner bus)"
  by (cases "(w, inner)" rule: funder_transition.cases) (auto simp: less_eq_phase_def)

lemma after_apply_forward: "P_Active \<le> phase_of (after_apply ch u)" "after_apply ch u \<noteq> TemporaryInvalidState"
  by (simp_all add: after_apply_def less_eq_phase_def)

lemma participant_forward: "forward (phase_of inner) (participant_transition b X m inner bus)"
  by (cases "(b, X, m, inner)" rule: participant_transition.cases)
    (auto simp: less_eq_phase_def proposal_accepted_arm_def signature_arm_def remote_update_arm_def
      update_accepted_arm_def after_apply_def split: res.split prod.split)

lemma progress_forward:
  assumes "\<And>bus. forward (phase_of inner) (f inner bus)" "progress f (inner, bus) = (r, (inner', bus'))"
  shows "phase_of inner \<le> phase_of inner'" "inner' = TemporaryInvalidState \<longleftrightarrow> r = Panic"
proof -
  have "p \<le> P_Invalid" for p by (cases p) (simp_all add: less_eq_phase_def)
  with assms(1) [of bus] assms(2) show "phase_of inner \<le> phase_of inner'"
    "inner' = TemporaryInvalidState \<longleftrightarrow> r = Panic"
    by (auto simp: progress_def split: prod.splits res.splits)
qed

lemma update_op_phase:
  "channel_update_op b X amount is_final (inner, bus) = (r, (inner', bus')) \<Longrightarrow> phase_of inner' = phase_of inner"
  by (auto simp: channel_update_op_def split: channel_inner.splits res.splits prod.splits)

lemma step_forward:
  assumes "demo_step b X s t"
  shows "phase_of (fst s) \<le> phase_of (fst t)"
proof -
  obtain inner bus inner' bus' where s: "s = (inner, bus)" "t = (inner', bus')" by (cases s; cases t)
  from assms have "phase_of inner \<le> phase_of inner'"
    unfolding s
  proof cases
    case (updating amount is_final r)
    then show ?thesis using update_op_phase [OF updating] by simp
  next
    case (force_closing r)
    then show ?thesis
      using progress_forward(1) [of inner "force_close_transition", OF force_close_forward] by (simp add: channel_force_close_def)
  next
    case (watcher_reply w r)
    then show ?thesis
      using progress_forward(1) [of inner "watcher_transition w", OF watcher_forward] by (simp add: process_watcher_reply_def)
  next
    case (funder_reply f r)
    then show ?thesis
      using progress_forward(1) [of inner "funder_transition f", OF funder_forward] by (simp add: process_funder_reply_def)
  next
    case (participant_msg m r)
    then show ?thesis
      using progress_forward(1) [of inner "participant_transition b X m", OF participant_forward] by (simp add: process_participant_msg_def)
  qed
  then show ?thesis by (simp add: s)
qed

lemma reachable_forward: "(demo_step b X)\<^sup>*\<^sup>* s t \<Longrightarrow> phase_of (fst s) \<le> phase_of (fst t)"
  by (induction rule: rtranclp_induct) (auto intro: order_trans step_forward)

lemma service_reply_no_panic:
  assumes "inner \<noteq> TemporaryInvalidState"
  shows "fst (process_watcher_reply w (inner, bus)) \<noteq> Panic" "fst (process_funder_reply f (inner, bus)) \<noteq> Panic"
  using assms
  by (cases "(w, inner)" rule: watcher_transition.cases; simp add: process_watcher_reply_def progress_def)
    (use assms in \<open>cases "(f, inner)" rule: funder_transition.cases; simp add: process_funder_reply_def progress_def\<close>)

section \<open>Payments\<close>

lemma payment_state_eq:
  assumes "u256_spec X" "make_next_state b (ac_state ch) = (Ok n :: (demo_error, state) res)"
    "al_balances (st_outcome (ac_state ch)) = [[x, y]]" "ac_part_idx ch < 2"
    "unat x + unat y < 2 ^ 256"
  shows "payment_state b X ch amount is_final =
    (let own = if ac_part_idx ch = 0 then x else y;
         paid = if ac_part_idx ch = 0 then [x - amount, y + amount] else [x + amount, y - amount] in
     if y < amount then Err DE_NotEnoughFunds
     else if own < amount then Panic
     else Ok (n\<lparr>st_outcome := (st_outcome n)\<lparr>al_balances := [paid]\<rparr>, st_is_final := is_final\<rparr>))"
proof -
  have n: "st_outcome n = st_outcome (ac_state ch)"
    using assms(2) by (auto simp: make_next_state_def bind_res_Ok_iff)
  have fits: "unat x + unat amount < 2 ^ 256" if "\<not> y < amount"
    using that assms(5) by (simp add: not_less word_le_nat_alt)
  have fits': "unat y + unat amount < 2 ^ 256" if "\<not> x < amount"
    using that assms(5) by (simp add: not_less word_le_nat_alt)
  note eval = payment_state_def assms(2) n assms(3) index_def set_index_def usize_sub_def u256_spec_def
    bind_res_Panic_iff not_less
  consider "ac_part_idx ch = 0" | "ac_part_idx ch = Suc 0" using assms(4) by linarith
  then show ?thesis
  proof cases
    case 1
    then show ?thesis using assms(1) fits' by (auto simp: eval)
  next
    case 2
    then show ?thesis using assms(1) fits by (auto simp: eval)
  qed
qed

lemma moved_amount:
  fixes x y a :: u256
  assumes "a \<le> x" "unat x + unat y < 2 ^ 256"
  shows "unat (x - a) + unat (y + a) = unat x + unat y"
proof -
  have "unat a \<le> unat x" using assms(1) by (simp add: word_le_nat_alt)
  moreover have "unat (y + a) = unat y + unat a" using calculation assms(2) by (simp add: unat_plus_if')
  ultimately show ?thesis using assms(1) by (simp add: unat_sub)
qed

text \<open>The state a payment proposes continues the channel.\<close>

lemma payment_valid:
  assumes "al_balances (st_outcome s) = [[x, y]]" "unat x + unat y < 2 ^ 256" "\<not> st_is_final s"
    "st_version s \<noteq> - 1" "make_next_state b s = (Ok n :: (demo_error, state) res)"
    "own = (if i = 0 then x else y)" "a \<le> own"
    "paid = (if i = 0 then [x - a, y + a] else [x + a, y - a])"
  shows "valid_transition b s (n\<lparr>st_outcome := (st_outcome n)\<lparr>al_balances := [paid]\<rparr>, st_is_final := f\<rparr>)"
proof -
  have n: "st_id n = st_id s" "st_version n = st_version s + 1" "st_outcome n = st_outcome s"
    using assms(5) by (auto simp: make_next_state_def bind_res_Ok_iff u64_add_one_Ok)
  have "amounts paid = unat x + unat y"
    using assms(2,6-8) moved_amount [of a x y] moved_amount [of a y x] by (auto simp: add.commute)
  with assms n show ?thesis by (simp add: valid_transition_def)
qed

lemma next_state_Ok:
  assumes "st_version s \<noteq> - 1"
  obtains n where "make_next_state b s = (Ok n :: ('e, state) res)" "st_version n = st_version s + 1"
proof -
  have "u64_add b (st_version s) 1 = (Ok (st_version s + 1) :: ('e, u64) res)"
    using assms by (simp only: u64_add_one_Ok simp_thms)
  then show ?thesis using that [OF _ state.select_convs(2)] by (simp add: make_next_state_def)
qed

section \<open>Properties\<close>

text \<open>
  C33: what a payment of the demo does.  The guard compares the amount with the balance of
  participant 1, whoever pays: within it, the payment is proposed, moves the amount from the own
  balance to the other one and keeps the total, unless the own balance is smaller, which panics
  (this is possible for participant 0 only, whose own balance is never looked at).
\<close>

theorem payment_outcome:
  assumes "env_ok X" "channel_wf X ch" "al_balances (st_outcome (ac_state ch)) = [[x, y]]"
    "unat x + unat y < 2 ^ 256" "\<not> st_is_final (ac_state ch)" "st_version (ac_state ch) \<noteq> - 1"
  shows "let i = ac_part_idx ch; own = if i = 0 then x else y;
      paid = if i = 0 then [x - amount, y + amount] else [x + amount, y - amount];
      result = channel_update_op b X amount is_final (Active ch upd, bus) in
    if y < amount then result = (Err DE_NotEnoughFunds, (Active ch upd, bus))
    else if own < amount then result = (Panic, (Active ch upd, bus))
    else \<exists>u m. result = (Ok (), (Active ch (Some u), bus @
          [ToParticipant (ac_peers ch ! i) (ac_peers ch ! (1 - i)) (ChannelUpdate m)])) \<and>
        lu_state m = cu_new_state u \<and> al_balances (st_outcome (cu_new_state u)) = [paid] \<and>
        st_is_final (cu_new_state u) = is_final \<and>
        st_version (cu_new_state u) = st_version (ac_state ch) + 1 \<and>
        totals (cu_new_state u) = totals (ac_state ch)"
proof -
  let ?i = "ac_part_idx ch"
  let ?own = "if ?i = 0 then x else y"
  let ?paid = "if ?i = 0 then [x - amount, y + amount] else [x + amount, y - amount]"
  obtain n where n: "make_next_state b (ac_state ch) = (Ok n :: (demo_error, state) res)"
    "st_version n = st_version (ac_state ch) + 1" using assms(6) by (rule next_state_Ok)
  let ?t = "n\<lparr>st_outcome := (st_outcome n)\<lparr>al_balances := [?paid]\<rparr>, st_is_final := is_final\<rparr>"
  have spec: "u256_spec X" "?i < 2" "state_wf 1 2 (ac_state ch)"
    using assms(1,2) by (simp_all add: env_ok_def channel_wf_def channel_ok_def)
  note eq = payment_state_eq [OF spec(1) n(1) assms(3) spec(2) assms(4), unfolded Let_def]
  show ?thesis
  proof (cases "y < amount \<or> ?own < amount")
    case True
    then show ?thesis by (auto simp: Let_def channel_update_op_def eq)
  next
    case False
    then have pay: "payment_state b X ch amount is_final = Ok ?t" by (simp add: eq)
    have wf: "state_wf 1 2 ?t" by (rule payment_state_wf [OF pay spec(3)])
    have valid: "valid_transition b (ac_state ch) ?t"
      using False by (intro payment_valid [OF assms(3-6) n(1) refl _ refl]) (simp add: not_less)
    obtain sig where "update b X ch ?t bus = (Ok (fresh_update ch ?t ?i sig),
        bus @ [ToParticipant (ac_peers ch ! ?i) (ac_peers ch ! (1 - ?i))
          (ChannelUpdate \<lparr>lu_state = ?t, lu_actor_idx = ?i, lu_sig = sig\<rparr>)])"
      using update_valid [OF assms(1,2) wf valid] by metis
    moreover have "totals ?t = totals (ac_state ch)" using valid by (simp add: valid_transition_def)
    ultimately show ?thesis
      using False n(2) by (auto simp: Let_def channel_update_op_def pay)
  qed
qed

theorem payment_outcome_witness:
  "channel_update_op dbg32 toy_ext 4 False (Active (toy_channel 0 (sample_state 6)) None, []) =
    (Panic, (Active (toy_channel 0 (sample_state 6)) None, []))"
  using payment_outcome [OF toy_env_ok toy_channel_wf [of 0 6], of 3 4 4 dbg32 False None "[]"]
  by (simp add: Let_def toy_channel_def sample_state_def)

text \<open>
  C12: a channel of the demo is safe from the proposal to the end.  Starting from a proposal
  under the client's own address, with any number of peers, after any calls and any messages from the
  watcher, the funder and the other party: a channel that is signed, active or closing holds a state with
  a valid signature of each participant, every state ever sent to the watcher or registered with
  the funder is so signed, a funding request goes out only after the watcher was given the same
  parameters and state with both signatures, and the total of every asset is what the proposal said.
\<close>

theorem demo_safe:
  assumes "env_ok X" "signer_ok X s" "proposal_ok p" "lp_participant p = sg_addr s"
    "(demo_step b X)\<^sup>*\<^sup>* (Channel_new (ProposedChannel_new (PerunClient_new s) 0 r p), []) (inner, bus)"
  shows "bus_ok b X bus \<and>
    (case inner of
       Signed sc _ _ \<Rightarrow> open_ok b X (mark_funded sc)
     | Active ch _ \<Rightarrow> open_ok b X ch
     | Closing ch \<Rightarrow> open_ok b X ch
     | _ \<Rightarrow> True) \<and>
    funds_of inner \<in> {None, Some (map amounts (al_balances (lp_init_bals p)))}"
proof -
  let ?s0 = "(Channel_new (ProposedChannel_new (PerunClient_new s) 0 r p), []) :: channel_inner \<times> bus"
  have inv: "demo_inv b X ?s0"
    using assms(1-4)
    by (simp add: demo_inv_def Channel_new_def proposed_ok_def ProposedChannel_new_def PerunClient_new_def)
  have "demo_inv b X (inner, bus)" using assms(5) inv by (rule demo.reachable_inv)
  moreover have "keeps_funds (fst ?s0) inner" using reachable_keeps_funds [OF assms(5) inv] by simp
  ultimately show ?thesis
    by (auto simp: demo_inv_def keeps_funds_def Channel_new_def ProposedChannel_new_def
        split: channel_inner.split dest: inner_inv_Active)
qed

definition toy_acc :: ledger_channel_proposal_acc where
  "toy_acc = \<lparr>la_proposal_id = replicate 32 1, la_nonce_share = replicate 32 3, la_participant = replicate 20 9\<rparr>"

theorem demo_safe_witness:
  "bus_ok dbg32 toy_ext (snd (snd (process_participant_msg dbg32 toy_ext (ProposalAccepted toy_acc)
     (Channel_new (ProposedChannel_new (PerunClient_new (toy_signer 7)) 0 [] (toy_proposal 5)), []))))"
proof -
  let ?s = "(Channel_new (ProposedChannel_new (PerunClient_new (toy_signer 7)) 0 [] (toy_proposal 5)), []) :: channel_inner \<times> bus"
  obtain r inner bus where step: "process_participant_msg dbg32 toy_ext (ProposalAccepted toy_acc) ?s = (r, (inner, bus))"
    by (cases "process_participant_msg dbg32 toy_ext (ProposalAccepted toy_acc) ?s") auto
  have "participant_msg_wf (ProposalAccepted toy_acc)"
    by (simp add: participant_msg_wf_def toy_acc_def proposal_acc_wf_def)
  from demo_step.participant_msg [OF this step] have "(demo_step dbg32 toy_ext)\<^sup>*\<^sup>* ?s (inner, bus)" by simp
  from demo_safe [OF toy_env_ok toy_signer_ok proposal_wf_ok [OF toy_proposal_wf] _ this] step show ?thesis
    by (simp add: toy_proposal_def toy_signer_def)
qed

text \<open>
  C32: the phases of the demo move forward.  Any sequence of steps leads to the same or a later
  phase, so a closed channel never reopens; and the placeholder \<open>TemporaryInvalidState\<close> is left
  behind by a message exactly when handling it panics, which a watcher or funder reply never
  does to a channel in a proper phase.
\<close>

theorem demo_phases:
  assumes "(demo_step b X)\<^sup>*\<^sup>* (inner0, bus0) (inner, bus)" "inner \<noteq> TemporaryInvalidState"
    "process_participant_msg b X m (inner, bus) = (r, (inner1, bus1))"
    "process_watcher_reply w (inner, bus) = (r2, (inner2, bus2))"
    "process_funder_reply f (inner, bus) = (r3, (inner3, bus3))"
  shows "phase_of inner0 \<le> phase_of inner \<and> (is_closed inner0 \<longrightarrow> is_closed inner) \<and>
    (inner1 = TemporaryInvalidState \<longleftrightarrow> r = Panic) \<and> r2 \<noteq> Panic \<and> inner2 \<noteq> TemporaryInvalidState \<and>
    r3 \<noteq> Panic \<and> inner3 \<noteq> TemporaryInvalidState"
proof -
  have forward: "phase_of inner0 \<le> phase_of inner" using reachable_forward [OF assms(1)] by simp
  then have "is_closed inner0 \<longrightarrow> is_closed inner"
    using assms(2) by (cases inner0; cases inner) (simp_all add: is_closed_def less_eq_phase_def)
  moreover have "inner1 = TemporaryInvalidState \<longleftrightarrow> r = Panic"
    using assms(3) progress_forward(2) [of inner "participant_transition b X m", OF participant_forward]
    by (simp add: process_participant_msg_def)
  moreover have "inner2 = TemporaryInvalidState \<longleftrightarrow> r2 = Panic"
    using assms(4) progress_forward(2) [of inner "watcher_transition w", OF watcher_forward]
    by (simp add: process_watcher_reply_def)
  moreover have "inner3 = TemporaryInvalidState \<longleftrightarrow> r3 = Panic"
    using assms(5) progress_forward(2) [of inner "funder_transition f", OF funder_forward]
    by (simp add: process_funder_reply_def)
  ultimately show ?thesis
    using forward service_reply_no_panic [OF assms(2)] assms(4,5) by (metis fst_conv)
qed

theorem demo_phases_witness:
  "P_ForceClosing \<le> phase_of Closed \<and> fst (process_funder_reply (Funded []) (Closed, [])) \<noteq> Panic"
proof -
  have "process_watcher_reply (DisputeAck []) (ForceClosing, []) = (Ok (), (Closed, []))"
    by (simp add: process_watcher_reply_def progress_def)
  then have "(demo_step dbg32 toy_ext)\<^sup>*\<^sup>* (ForceClosing, []) (Closed, [])"
    by (intro r_into_rtranclp demo_step.watcher_reply)
  from demo_phases [OF this, of Auth _ _ _ "Ack [] 0" _ _ _ "Funded []"] show ?thesis
    by (simp add: process_participant_msg_def process_watcher_reply_def process_funder_reply_def progress_def)
qed

text \<open>
  C40: a message of the other party can panic the demo.  On an active channel without a pending
  update, an otherwise valid update message whose \<open>actor_idx\<close> is no participant panics as soon as
  its signature recovers to any address; so does one whose signature bytes the curve library
  refuses to parse, and in a Debug build one whose last signature byte is below 27.  Each leaves
  the channel in \<open>TemporaryInvalidState\<close>, where every further message panics.
\<close>

theorem remote_update_panics:
  assumes "env_ok X" "channel_wf X ch" "state_wf 1 2 t" "valid_transition b (ac_state ch) t"
    "(\<exists>h a. 2 \<le> k \<and> to_hash b X (State_sval X t) = Ok h \<and> recover_signer b X h sig = Ok a) \<or>
     (\<exists>v. u8_sub b (sig ! 64) 27 = (Ok v :: (sig_error, u8) res) \<and> sig_from_bytes X (sig[64 := v]) = None) \<or>
     profile b = Debug \<and> sig ! 64 < 27"
  shows "process_participant_msg b X (ChannelUpdate \<lparr>lu_state = t, lu_actor_idx = k, lu_sig = sig\<rparr>)
      (Active ch None, bus) = (Panic, (TemporaryInvalidState, bus)) \<and>
    (\<forall>m. fst (process_participant_msg b X m (TemporaryInvalidState, bus)) = Panic)"
proof -
  let ?m = "\<lparr>lu_state = t, lu_actor_idx = k, lu_sig = sig\<rparr>"
  have check: "check_valid_transition b X ch t = Ok ()"
    using assms(1,3,4) by (simp add: check_valid_transition_Ok env_ok_def)
  obtain h where h: "to_hash b X (State_sval X t) = Ok h" using assms(1,3) by (rule state_hash_Ok)
  have parts: "length (pa_participants (ac_params ch)) = 2"
    using assms(2) by (simp add: channel_wf_def channel_ok_def params_wf_def)
  have "recover_signer b X h sig = Panic \<or> (\<exists>a. 2 \<le> k \<and> recover_signer b X h sig = Ok a)"
    using assms(5) h recover_signer_small_v [of b sig X h] by (auto simp: recover_signer_def)
  then have "handle_update b X ch ?m = Panic"
    by (auto simp: handle_update_def check h parts index_def)
  then show ?thesis
    by (simp add: process_participant_msg_def progress_def remote_update_arm_def)
qed

theorem remote_update_panics_witness:
  "process_participant_msg dbg32 toy_ext (ChannelUpdate \<lparr>lu_state = sample_state 5, lu_actor_idx = 0,
      lu_sig = replicate 65 0\<rparr>) (Active (toy_channel 1 (sample_state 4)) None, []) =
    (Panic, (TemporaryInvalidState, []))"
proof -
  have v: "valid_transition dbg32 (ac_state (toy_channel 1 (sample_state 4))) (sample_state 5)"
    by (simp add: valid_transition_def toy_channel_def sample_state_def dbg32_def)
  have wf: "channel_wf toy_ext (toy_channel 1 (sample_state 4))" by (rule toy_channel_wf) simp
  have "profile dbg32 = Debug \<and> replicate 65 (0 :: u8) ! 64 < 27" by (simp add: dbg32_def)
  then show ?thesis
    using remote_update_panics [OF toy_env_ok wf sample_state_wf v, of 0 "replicate 65 0" "[]"] by blast
qed

end
