(* ===== verification/Framed.thy ===== *)
theory Framed
  imports Active
begin

text \<open>
  The interface between the sender's frames of \<open>wire/encoding.rs\<close> and a receiver: the locale
  \<open>framed_receiver\<close> says that a receiver which is ready takes exactly one frame off its stream and
  returns its body.  Its client lemma gives the order of delivery over repeated receives; the
  embedded demo and the host example interpret it.  Also the messages as they are received, and the
  sending of what a call of the channel code hands to its bus.
\<close>

text \<open>\<open>n\<close> receives one after the other: their results and the state they leave.\<close>

primrec polls :: "('w \<Rightarrow> ('e, 'm) res \<times> 'w) \<Rightarrow> nat \<Rightarrow> 'w \<Rightarrow> ('e, 'm) res list \<times> 'w" where
  "polls recv 0 w = ([], w)"
| "polls recv (Suc n) w =
     (let (r, w') = recv w; (rs, w'') = polls recv n w' in (r # rs, w''))"

lemma polls_Suc: "recv w = (r, w') \<Longrightarrow>
    polls recv (Suc n) w = (r # fst (polls recv n w'), snd (polls recv n w'))"
  by (simp add: split_beta)

definition framed :: "bytes \<Rightarrow> bytes" where
  "framed body = be_bytes 2 (length body) @ body"

lemma frame_framed: "frame body = Ok buf \<longleftrightarrow> length body < 2 ^ 16 \<and> buf = framed body"
  by (simp add: frame_Ok framed_def)

lemma framed_parts:
  assumes "length body < 2 ^ 16"
  shows "be_val (take 2 (framed body @ rest)) = length body" "drop 2 (framed body @ rest) = body @ rest"
    "length (framed body @ rest) = 2 + length body + length rest"
  using assms by (simp_all add: framed_def be_val_be_bytes)

lemma unframe_parts:
  "unframe bs = Some (body, rest) \<longleftrightarrow> bs = framed body @ rest \<and> length body < 2 ^ 16"
proof
  assume "unframe bs = Some (body, rest)"
  then have l: "2 \<le> length bs" "length body = be_val (take 2 bs)" and d: "drop 2 bs = body @ rest"
    by (auto simp: unframe_def Let_def simp del: drop_drop split: if_splits)
  have n: "length (take 2 bs) = 2" using l by simp
  have "take 2 bs = be_bytes 2 (length body)"
    using be_bytes_be_val [of "take 2 bs"] unfolding n l(2) by simp
  moreover have "length body < 2 ^ 16"
    using be_val_less [of "take 2 bs"] unfolding n l(2) by simp
  ultimately show "bs = framed body @ rest \<and> length body < 2 ^ 16"
    using d by (metis append_take_drop_id append_assoc framed_def)
next
  assume "bs = framed body @ rest \<and> length body < 2 ^ 16"
  then have b: "bs = framed body @ rest" "length body < 2 ^ 16" by auto
  then have "frame body = (Ok (framed body) :: (unit, bytes) res)" by (simp add: frame_framed)
  then show "unframe bs = Some (body, rest)" using b(1) unframe_frame by metis
qed

locale framed_receiver =
  fixes recv :: "'w \<Rightarrow> ('e, bytes option) res \<times> 'w"
    and stream :: "'w \<Rightarrow> bytes" and ready :: "'w \<Rightarrow> bool" and max_body :: nat
  assumes recv_frame: "ready w \<Longrightarrow> stream w = framed body @ rest \<Longrightarrow> body \<noteq> [] \<Longrightarrow>
      length body \<le> max_body \<Longrightarrow> \<exists>w'. recv w = (Ok (Some body), w') \<and> stream w' = rest"
begin

lemma recv_frames:
  assumes "stream w = concat (map framed bodies) @ rest"
    "\<And>body. body \<in> set bodies \<Longrightarrow> body \<noteq> [] \<and> length body \<le> max_body"
    "\<And>k. k < length bodies \<Longrightarrow> ready (snd (polls recv k w))"
  shows "\<exists>w'. polls recv (length bodies) w = (map (\<lambda>body. Ok (Some body)) bodies, w') \<and> stream w' = rest"
  using assms
proof (induction bodies arbitrary: w)
  case (Cons body bodies)
  have "ready w" using Cons.prems(3) [of 0] by simp
  then obtain w1 where w1: "recv w = (Ok (Some body), w1)"
    "stream w1 = concat (map framed bodies) @ rest"
    using recv_frame [of w body "concat (map framed bodies) @ rest"] Cons.prems(1,2) by auto
  have "ready (snd (polls recv k w1))" if "k < length bodies" for k
    using Cons.prems(3) [of "Suc k"] that polls_Suc [of recv w, OF w1(1)] by simp
  then show ?case
    using Cons.IH [of w1] Cons.prems(2) w1 polls_Suc [of recv w, OF w1(1)] by auto
qed simp

end

section \<open>Received messages\<close>

type_synonym decode_error = string

text \<open>
  The \<open>oneof\<close> of \<open>perunwire::Envelope\<close> as it is received: what the library itself can send, and the
  kinds it knows only by name.  A decoded message may lack its payload.
\<close>

datatype envelope_msg =
    PingMsg | PongMsg | ShutdownMsg
  | Sendable w_envelope_msg
  | SubChannelProposalMsg | SubChannelProposalAccMsg
  | VirtualChannelProposalMsg | VirtualChannelProposalAccMsg
  | VirtualChannelFundingProposalMsg | VirtualChannelSettlementProposalMsg
  | ChannelSyncMsg

record envelope =
  env_sender :: bytes
  env_recipient :: bytes
  env_msg :: "envelope_msg option"

text \<open>
  The \<open>oneof\<close> of \<open>perunwire::Message\<close>, from the remote funder and watcher: the requests the library
  sends, and the replies with the fields of \<open>perun-remote.proto\<close> (\<open>FundResp\<close> carries an optional
  error, the watcher's replies a success flag).
\<close>

datatype service_msg =
    ServiceRequest w_message
  | FundResp "string option"
  | RegisterResp | WithdrawResp
  | StartWatchingLedgerChannelResp
  | StopWatchingReq | StopWatchingResp
  | WatchRequestMsg
  | WatchResponse bytes u64 bool
  | ForceCloseResponse bytes bool
  | DisputeNotificationMsg bytes

section \<open>Sending through a byte bus\<close>

text \<open>
  The client's bus is the protocol buffer layer over a \<open>BytesBus\<close>, given by what it does with one
  buffer.  A call of the channel code on an object of type \<open>'c\<close> is run on an empty bus; what it
  handed to the bus is encoded and delivered in that order.  A panic of the encoder or of the byte
  bus is a panic of the call; what the object then looks like is of no consequence, since a panic
  ends the program.
\<close>

primrec deliver_all :: "(bytes_bus_msg \<Rightarrow> ('w, 'e, unit) cmd) \<Rightarrow> bytes_bus \<Rightarrow> ('w, 'e, unit) cmd" where
  "deliver_all deliver [] = ret ()"
| "deliver_all deliver (m # ms) = bindS (deliver m) (\<lambda>_. deliver_all deliver ms)"

definition on_wire ::
    "build \<Rightarrow> ext \<Rightarrow> prost \<Rightarrow> (bytes_bus_msg \<Rightarrow> ('w, 'e, unit) cmd) \<Rightarrow> ('c \<times> bus, 'e, 'a) cmd \<Rightarrow> ('c \<times> 'w, 'e, 'a) cmd" where
  "on_wire b X P deliver m = (\<lambda>(c, w). case m (c, []) of (r, (c', msgs)) \<Rightarrow>
     (case pb_send_all b X P msgs [] of (enc :: ('e, unit) res, bufs) \<Rightarrow>
     (case deliver_all deliver bufs w of (sent, w') \<Rightarrow>
       (if sent = Ok () \<and> enc = Ok () then r else Panic, (c', w')))))"

end
