(* ===== verification/Demo_Net.thy ===== *)
theory Demo_Net
  imports Demo_Channel Framed
begin

text \<open>
  The network side of the embedded demo: the byte bus over TCP sockets of
  \<open>cortex-m-demo/src/bus.rs\<close> and the framed receive \<open>try_recv\<close> of \<open>application.rs\<close>.  The TCP stack
  (\<open>smoltcp\<close>), the random generator (\<open>StdRng\<close>) and the protocol buffer decoder (\<open>prost\<close>) are
  parameters; \<open>tcp_spec\<close> states what the stack documents of a socket's receive buffer.
\<close>

section \<open>The TCP stack\<close>

text \<open>
  The methods of \<open>TcpSocket\<close> that the demo calls, on the socket behind a handle of an interface in
  state \<open>'w\<close>.  \<open>recv\<close> shows its closure a window of received bytes and removes as many of them as
  the closure returns; here it returns the window.
\<close>

type_synonym socket_handle = nat
type_synonym net_error = string
type_synonym endpoint = "bytes \<times> u16"

record 'w tcp =
  tcp_is_active :: "socket_handle \<Rightarrow> 'w \<Rightarrow> bool"
  tcp_is_open :: "socket_handle \<Rightarrow> 'w \<Rightarrow> bool"
  tcp_is_listening :: "socket_handle \<Rightarrow> 'w \<Rightarrow> bool"
  tcp_can_recv :: "socket_handle \<Rightarrow> 'w \<Rightarrow> bool"
  tcp_may_recv :: "socket_handle \<Rightarrow> 'w \<Rightarrow> bool"
  tcp_may_send :: "socket_handle \<Rightarrow> 'w \<Rightarrow> bool"
  tcp_recv_queue :: "socket_handle \<Rightarrow> 'w \<Rightarrow> nat"
  tcp_recv_capacity :: "socket_handle \<Rightarrow> 'w \<Rightarrow> nat"
  tcp_peek_slice :: "socket_handle \<Rightarrow> nat \<Rightarrow> 'w \<Rightarrow> net_error + bytes"
  tcp_recv :: "socket_handle \<Rightarrow> (bytes \<Rightarrow> nat) \<Rightarrow> ('w, net_error, bytes) cmd"
  tcp_recv_slice :: "socket_handle \<Rightarrow> nat \<Rightarrow> ('w, net_error, bytes) cmd"
  tcp_send_slice :: "socket_handle \<Rightarrow> bytes \<Rightarrow> ('w, net_error, nat) cmd"
  tcp_connect :: "socket_handle \<Rightarrow> endpoint \<Rightarrow> u16 \<Rightarrow> ('w, net_error, unit) cmd"
  tcp_listen :: "socket_handle \<Rightarrow> u16 \<Rightarrow> ('w, net_error, unit) cmd"
  tcp_close :: "socket_handle \<Rightarrow> 'w \<Rightarrow> 'w"
  tcp_abort :: "socket_handle \<Rightarrow> 'w \<Rightarrow> 'w"

text \<open>\<open>socket.recv(f)\<close>: the closure returns how much to remove and a result.\<close>

definition socket_recv :: "'w tcp \<Rightarrow> socket_handle \<Rightarrow> (bytes \<Rightarrow> nat \<times> 'a) \<Rightarrow> ('w, net_error, 'a) cmd" where
  "socket_recv T h f = bindS (tcp_recv T h (\<lambda>x. fst (f x))) (\<lambda>x. ret (snd (f x)))"

section \<open>Errors of the application\<close>

datatype app_error =
    AE_Network net_error
  | AE_InvalidProposal invalid_proposal
  | AE_ProstDecode decode_error
  | AE_EnvelopeHasNoMsg
  | AE_UnexpectedMsg
  | AE_ConversionError conversion_error
  | AE_ChannelError demo_error
  | AE_InvalidState
  | AE_MessageLargerThanRxBuffer nat
  | AE_ProposalBuildError proposal_build_error
  | AE_SignError sign_error

text \<open>The \<open>From\<close> conversion that \<open>?\<close> applies to the error of a command.\<close>

definition cmd_err :: "('e \<Rightarrow> 'f) \<Rightarrow> ('s, 'e, 'a) cmd \<Rightarrow> ('s, 'f, 'a) cmd" where
  "cmd_err g m = (\<lambda>s. case m s of (r, s') \<Rightarrow> (map_err g r, s'))"

lemma cmd_err_apply [simp]: "m s = (r, s') \<Longrightarrow> cmd_err g m s = (map_err g r, s')"
  by (simp add: cmd_err_def)

lemma cmd_err_Ok_iff: "cmd_err g m s = (Ok x, s') \<longleftrightarrow> m s = (Ok x, s')"
  by (auto simp: cmd_err_def split: prod.splits)

section \<open>Sending (\<open>bus.rs\<close>)\<close>

record socket_bus =
  sb_participant_handle :: socket_handle
  sb_service_handle :: socket_handle

definition bus_send :: "'w tcp \<Rightarrow> socket_handle \<Rightarrow> bytes \<Rightarrow> ('w, 'e, unit) cmd" where
  "bus_send T h msg w = (case tcp_send_slice T h msg w of
     (Ok count_written, w') \<Rightarrow> if count_written \<noteq> length msg then (Panic, w') else (Ok (), w')
   | (Err e, w') \<Rightarrow> (Panic, w')
   | (Panic, w') \<Rightarrow> (Panic, w'))"

definition sb_send_to_watcher :: "'w tcp \<Rightarrow> socket_bus \<Rightarrow> bytes \<Rightarrow> ('w, 'e, unit) cmd" where
  "sb_send_to_watcher T sb msg = bus_send T (sb_service_handle sb) msg"

definition sb_send_to_funder :: "'w tcp \<Rightarrow> socket_bus \<Rightarrow> bytes \<Rightarrow> ('w, 'e, unit) cmd" where
  "sb_send_to_funder T sb msg = bus_send T (sb_service_handle sb) msg"

definition sb_send_to_participant ::
    "'w tcp \<Rightarrow> socket_bus \<Rightarrow> bytes \<Rightarrow> bytes \<Rightarrow> bytes \<Rightarrow> ('w, 'e, unit) cmd" where
  "sb_send_to_participant T sb sender recipient msg = bus_send T (sb_participant_handle sb) msg"

definition sb_deliver :: "'w tcp \<Rightarrow> socket_bus \<Rightarrow> bytes_bus_msg \<Rightarrow> ('w, 'e, unit) cmd" where
  "sb_deliver T sb m = (case m of
     BytesToWatcher buf \<Rightarrow> sb_send_to_watcher T sb buf
   | BytesToFunder buf \<Rightarrow> sb_send_to_funder T sb buf
   | BytesToParticipant s r buf \<Rightarrow> sb_send_to_participant T sb s r buf)"

text \<open>The client's bus of the demo is the protocol buffer layer over the sockets.\<close>

definition on_sockets ::
    "build \<Rightarrow> ext \<Rightarrow> prost \<Rightarrow> 'w tcp \<Rightarrow> socket_bus \<Rightarrow> ('c \<times> bus, 'e, 'a) cmd \<Rightarrow> ('c \<times> 'w, 'e, 'a) cmd" where
  "on_sockets b X P T sb = on_wire b X P (sb_deliver T sb)"

section \<open>Receiving (\<open>try_recv\<close>)\<close>

definition MAX_MESSAGE_SIZE :: nat where
  "MAX_MESSAGE_SIZE = 510"

text \<open>
  Peek at the two length bytes, give up quietly on an incomplete message and with an error on one
  that can never fit, then discard the length, read the body into a local array of
  \<open>MAX_MESSAGE_SIZE\<close> bytes (slicing it panics if the body is longer) and decode it.
\<close>

definition try_recv ::
    "'w tcp \<Rightarrow> (bytes \<Rightarrow> decode_error + 'm) \<Rightarrow> socket_handle \<Rightarrow> ('w, app_error, 'm option) cmd" where
  "try_recv T decode h w =
     (if tcp_recv_queue T h w < 2 then (Ok None, w)
      else case tcp_peek_slice T h 2 w of
        Inl e \<Rightarrow> (Err (AE_Network e), w)
      | Inr buf_msg_length \<Rightarrow>
          if length buf_msg_length < 2 then (Panic, w)
          else
            let len = be_val buf_msg_length in
            if 2 + len > tcp_recv_capacity T h w then (Err (AE_MessageLargerThanRxBuffer (2 + len)), w)
            else if tcp_recv_queue T h w < 2 + len then (Ok None, w)
            else
              bindS (cmd_err AE_Network (socket_recv T h (\<lambda>x. let l = min (length x) 2 in (l, l)))) (\<lambda>read.
              bindS (if read \<noteq> 2 then cmd_err AE_Network (socket_recv T h (\<lambda>_. (2 - read, ())))
                     else ret ()) (\<lambda>_.
              if MAX_MESSAGE_SIZE < len then crash
              else
                bindS (cmd_err AE_Network (tcp_recv_slice T h len)) (\<lambda>buf.
                if length buf \<noteq> len then crash
                else case decode buf of
                    Inl e \<Rightarrow> fail (AE_ProstDecode e)
                  | Inr env \<Rightarrow> ret (Some env)))) w)"

section \<open>What the TCP stack promises\<close>

text \<open>
  A socket holds the bytes received and not yet taken, \<open>rx\<close>, in a ring buffer of fixed capacity; the
  first \<open>contig\<close> of them lie in one piece.  \<open>recv_queue\<close> counts them.  While there are any, \<open>peek_slice\<close>
  copies from the first piece only (as the source notes), \<open>recv\<close> shows it and removes what the
  closure says, and \<open>recv_slice\<close> removes up to the asked number across the boundary.
\<close>

definition tcp_spec ::
    "'w tcp \<Rightarrow> (socket_handle \<Rightarrow> 'w \<Rightarrow> bytes) \<Rightarrow> (socket_handle \<Rightarrow> 'w \<Rightarrow> nat) \<Rightarrow> bool" where
  "tcp_spec T rx contig \<longleftrightarrow> (\<forall>h w. tcp_recv_queue T h w = length (rx h w) \<and>
     (rx h w \<noteq> [] \<longrightarrow>
       0 < contig h w \<and>
       (\<forall>n. tcp_peek_slice T h n w = Inr (take (min n (contig h w)) (rx h w))) \<and>
       (\<forall>f. let x = take (contig h w) (rx h w) in f x \<le> length x \<longrightarrow>
          (\<exists>w'. tcp_recv T h f w = (Ok x, w') \<and> rx h w' = drop (f x) (rx h w) \<and>
            tcp_recv_capacity T h w' = tcp_recv_capacity T h w)) \<and>
       (\<forall>n. \<exists>w'. tcp_recv_slice T h n w = (Ok (take n (rx h w)), w') \<and>
          rx h w' = drop n (rx h w) \<and> tcp_recv_capacity T h w' = tcp_recv_capacity T h w)))"

lemma tcp_specD:
  assumes "tcp_spec T rx contig"
  shows "tcp_recv_queue T h w = length (rx h w)"
    and "rx h w \<noteq> [] \<Longrightarrow> 0 < contig h w"
    and "rx h w \<noteq> [] \<Longrightarrow> tcp_peek_slice T h n w = Inr (take (min n (contig h w)) (rx h w))"
    and "rx h w \<noteq> [] \<Longrightarrow> x = take (contig h w) (rx h w) \<Longrightarrow> f x \<le> length x \<Longrightarrow>
      \<exists>w'. tcp_recv T h f w = (Ok x, w') \<and> rx h w' = drop (f x) (rx h w) \<and>
        tcp_recv_capacity T h w' = tcp_recv_capacity T h w"
    and "rx h w \<noteq> [] \<Longrightarrow> \<exists>w'. tcp_recv_slice T h n w = (Ok (take n (rx h w)), w') \<and>
      rx h w' = drop n (rx h w) \<and> tcp_recv_capacity T h w' = tcp_recv_capacity T h w"
  using assms by (simp_all add: tcp_spec_def Let_def)

section \<open>What \<open>try_recv\<close> does\<close>

lemma try_recv_short:
  "tcp_spec T rx contig \<Longrightarrow> length (rx h w) < 2 \<Longrightarrow> try_recv T decode h w = (Ok None, w)"
  by (simp add: try_recv_def tcp_specD(1))

lemma peek_length:
  assumes "tcp_spec T rx contig" "2 \<le> length (rx h w)" "2 \<le> contig h w"
  shows "tcp_peek_slice T h 2 w = Inr (take 2 (rx h w))" "length (take 2 (rx h w)) = 2"
proof -
  have "rx h w \<noteq> []" using assms(2) by auto
  then show "tcp_peek_slice T h 2 w = Inr (take 2 (rx h w))"
    using tcp_specD(3) [OF assms(1), of h w 2] assms(3) by (simp add: min_def)
  show "length (take 2 (rx h w)) = 2" using assms(2) by simp
qed

lemma try_recv_boundary:
  assumes "tcp_spec T rx contig" "2 \<le> length (rx h w)" "contig h w < 2"
  shows "try_recv T decode h w = (Panic, w)"
proof -
  have "rx h w \<noteq> []" using assms(2) by auto
  then have "tcp_peek_slice T h 2 w = Inr (take (contig h w) (rx h w))"
    using tcp_specD(3) [OF assms(1), of h w 2] assms(3) by (simp add: min_def)
  then show ?thesis
    using assms by (simp add: try_recv_def tcp_specD(1) min_def)
qed

lemma try_recv_too_large:
  assumes "tcp_spec T rx contig" "2 \<le> length (rx h w)" "2 \<le> contig h w"
    "tcp_recv_capacity T h w < 2 + be_val (take 2 (rx h w))"
  shows "try_recv T decode h w =
    (Err (AE_MessageLargerThanRxBuffer (2 + be_val (take 2 (rx h w)))), w)"
  using assms peek_length [OF assms(1-3)] by (simp add: try_recv_def tcp_specD(1) Let_def)

lemma try_recv_incomplete:
  assumes "tcp_spec T rx contig" "2 \<le> length (rx h w)" "2 \<le> contig h w"
    "2 + be_val (take 2 (rx h w)) \<le> tcp_recv_capacity T h w"
    "length (rx h w) < 2 + be_val (take 2 (rx h w))"
  shows "try_recv T decode h w = (Ok None, w)"
  using assms peek_length [OF assms(1-3)] by (simp add: try_recv_def tcp_specD(1) Let_def)

lemma discard_length:
  assumes "tcp_spec T rx contig" "2 \<le> length (rx h w)" "2 \<le> contig h w"
  obtains w' where "socket_recv T h (\<lambda>x. let l = min (length x) 2 in (l, l)) w = (Ok 2, w')"
    "rx h w' = drop 2 (rx h w)" "tcp_recv_capacity T h w' = tcp_recv_capacity T h w"
proof -
  let ?f = "\<lambda>x :: bytes. let l = min (length x) 2 in (l, l)"
  let ?x = "take (contig h w) (rx h w)"
  have x: "2 \<le> length ?x" using assms(2,3) by simp
  have "rx h w \<noteq> []" using assms(2) by auto
  moreover have "fst (?f ?x) \<le> length ?x" by (simp add: Let_def del: length_take)
  ultimately obtain w' where "tcp_recv T h (\<lambda>x. fst (?f x)) w = (Ok ?x, w')"
    "rx h w' = drop (fst (?f ?x)) (rx h w)" "tcp_recv_capacity T h w' = tcp_recv_capacity T h w"
    using tcp_specD(4) [OF assms(1), of h w ?x "\<lambda>x. fst (?f x)"] by blast
  then show ?thesis
    using that [of w'] x by (simp add: socket_recv_def bindS_Ok Let_def min_def)
qed

text \<open>The result of a complete frame whose body decodes, or not.\<close>

definition recv_result :: "decode_error + 'm \<Rightarrow> (app_error, 'm option) res" where
  "recv_result r = (case r of Inl e \<Rightarrow> Err (AE_ProstDecode e) | Inr m \<Rightarrow> Ok (Some m))"

lemma try_recv_frame:
  assumes "tcp_spec T rx contig" "2 \<le> contig h w" "tcp_recv_capacity T h w \<le> MAX_MESSAGE_SIZE + 2"
    and n: "n = be_val (take 2 (rx h w))" "n + 2 \<le> tcp_recv_capacity T h w" "n + 2 \<le> length (rx h w)"
      "drop 2 (rx h w) \<noteq> []"
  obtains w' where "try_recv T decode h w = (recv_result (decode (take n (drop 2 (rx h w)))), w')"
    "rx h w' = drop n (drop 2 (rx h w))" "tcp_recv_capacity T h w' = tcp_recv_capacity T h w"
proof -
  have l: "2 \<le> length (rx h w)" using n by simp
  note pk = peek_length [OF assms(1) l assms(2)]
  obtain w1 where w1: "socket_recv T h (\<lambda>x. let l = min (length x) 2 in (l, l)) w = (Ok 2, w1)"
    "rx h w1 = drop 2 (rx h w)" "tcp_recv_capacity T h w1 = tcp_recv_capacity T h w"
    by (rule discard_length [OF assms(1) l assms(2)])
  obtain w2 where w2: "tcp_recv_slice T h n w1 = (Ok (take n (rx h w1)), w2)"
    "rx h w2 = drop n (rx h w1)" "tcp_recv_capacity T h w2 = tcp_recv_capacity T h w1"
    using tcp_specD(5) [OF assms(1), of h w1 n] w1(2) n(4) by auto
  have "length (take n (rx h w1)) = n" using n w1(2) by simp
  moreover have "n \<le> MAX_MESSAGE_SIZE" using n(2) assms(3) by simp
  ultimately have "try_recv T decode h w =
      (recv_result (decode (take n (drop 2 (rx h w)))), w2)"
    using l pk n w1 w2
    by (simp add: try_recv_def tcp_specD(1) [OF assms(1)] bindS_def cmd_err_def recv_result_def
        split: sum.split)
  then show ?thesis using that w1 w2 by metis
qed

lemma try_recv_framed:
  assumes "tcp_spec T rx contig" "2 \<le> contig h w" "tcp_recv_capacity T h w \<le> MAX_MESSAGE_SIZE + 2"
    "rx h w = framed body @ rest" "body @ rest \<noteq> []" "length body + 2 \<le> tcp_recv_capacity T h w"
  obtains w' where "try_recv T decode h w = (recv_result (decode body), w')" "rx h w' = rest"
    "tcp_recv_capacity T h w' = tcp_recv_capacity T h w"
proof -
  have "length body < 2 ^ 16" using assms(3,6) by (simp add: MAX_MESSAGE_SIZE_def)
  then have f: "length body = be_val (take 2 (rx h w))" "drop 2 (rx h w) = body @ rest"
    "length body + 2 \<le> length (rx h w)"
    unfolding assms(4) using framed_parts [of body rest] by simp_all
  moreover have "drop 2 (rx h w) \<noteq> []" using f(2) assms(5) by simp
  ultimately show ?thesis
    using that try_recv_frame [OF assms(1-3) f(1) assms(6) f(3), of decode] by auto
qed

interpretation demo_recv: framed_receiver "try_recv T Inr h" "rx h"
    "\<lambda>w. tcp_spec T rx contig \<and> 2 \<le> contig h w \<and> tcp_recv_capacity T h w = MAX_MESSAGE_SIZE + 2"
    MAX_MESSAGE_SIZE for T rx contig h
proof unfold_locales
  fix w body rest
  assume r: "tcp_spec T rx contig \<and> 2 \<le> contig h w \<and> tcp_recv_capacity T h w = MAX_MESSAGE_SIZE + 2"
    and f: "rx h w = framed body @ rest" "body \<noteq> []" "length body \<le> MAX_MESSAGE_SIZE"
  obtain w' where "try_recv T Inr h w = (recv_result (Inr body), w')" "rx h w' = rest"
    using try_recv_framed [of T rx contig h w body rest Inr] r f by auto
  then show "\<exists>w'. try_recv T Inr h w = (Ok (Some body), w') \<and> rx h w' = rest"
    by (auto simp: recv_result_def)
qed

section \<open>A model of the TCP stack\<close>

text \<open>
  Two or more sockets, each with the bytes received and the bytes written; a socket is active as
  long as it holds received bytes, and these lie in one piece.
\<close>

record toy_net =
  tn_rx :: "socket_handle \<Rightarrow> bytes"
  tn_tx :: "socket_handle \<Rightarrow> bytes"

definition toy_tcp :: "toy_net tcp" where
  "toy_tcp = \<lparr>
     tcp_is_active = (\<lambda>h w. tn_rx w h \<noteq> []), tcp_is_open = (\<lambda>h w. True), tcp_is_listening = (\<lambda>h w. False),
     tcp_can_recv = (\<lambda>h w. tn_rx w h \<noteq> []), tcp_may_recv = (\<lambda>h w. True),
     tcp_may_send = (\<lambda>h w. True),
     tcp_recv_queue = (\<lambda>h w. length (tn_rx w h)), tcp_recv_capacity = (\<lambda>h w. 512),
     tcp_peek_slice = (\<lambda>h n w. Inr (take n (tn_rx w h))),
     tcp_recv = (\<lambda>h f w. let x = tn_rx w h in
       if f x \<le> length x then (Ok x, w\<lparr>tn_rx := (tn_rx w)(h := drop (f x) x)\<rparr>) else (Panic, w)),
     tcp_recv_slice = (\<lambda>h n w.
       (Ok (take n (tn_rx w h)), w\<lparr>tn_rx := (tn_rx w)(h := drop n (tn_rx w h))\<rparr>)),
     tcp_send_slice = (\<lambda>h m w. (Ok (length m), w\<lparr>tn_tx := (tn_tx w)(h := tn_tx w h @ m)\<rparr>)),
     tcp_connect = (\<lambda>h e p w. (Ok (), w)), tcp_listen = (\<lambda>h p w. (Ok (), w)),
     tcp_close = (\<lambda>h w. w), tcp_abort = (\<lambda>h w. w)\<rparr>"

lemma toy_tcp_spec: "tcp_spec toy_tcp (\<lambda>h w. tn_rx w h) (\<lambda>h w. length (tn_rx w h))"
  by (auto simp: tcp_spec_def toy_tcp_def Let_def min_def)

text \<open>
  C20: \<open>try_recv\<close> implements the removal of one frame from a byte stream.  For a socket whose receive
  buffer holds at most \<open>MAX_MESSAGE_SIZE + 2\<close> bytes, as \<open>main\<close> allocates it: less than two bytes or
  an incomplete frame that fits is no message yet and nothing is taken; a frame announced larger
  than the buffer is an error and nothing is taken; when the two length bytes are split by the end
  of the ring buffer the call panics; and a complete frame (but an empty one with nothing after it) is
  taken whole, leaving exactly the bytes after it, with its decoded body or the decoder's error as
  the result.
\<close>

theorem try_recv_refines_unframe:
  assumes "tcp_spec T rx contig" "tcp_recv_capacity T h w \<le> MAX_MESSAGE_SIZE + 2"
  shows "(length (rx h w) < 2 \<longrightarrow> try_recv T decode h w = (Ok None, w)) \<and>
    (2 \<le> length (rx h w) \<and> contig h w < 2 \<longrightarrow> try_recv T decode h w = (Panic, w)) \<and>
    (2 \<le> length (rx h w) \<and> 2 \<le> contig h w \<longrightarrow>
      (tcp_recv_capacity T h w < 2 + be_val (take 2 (rx h w)) \<longrightarrow>
         try_recv T decode h w = (Err (AE_MessageLargerThanRxBuffer (2 + be_val (take 2 (rx h w)))), w)) \<and>
      (2 + be_val (take 2 (rx h w)) \<le> tcp_recv_capacity T h w \<longrightarrow>
         (unframe (rx h w) = None \<longrightarrow> try_recv T decode h w = (Ok None, w)) \<and>
         (\<forall>body rest. unframe (rx h w) = Some (body, rest) \<longrightarrow> body @ rest \<noteq> [] \<longrightarrow>
            (\<exists>w'. try_recv T decode h w = (recv_result (decode body), w') \<and> rx h w' = rest))))"
proof (intro conjI impI allI)
  assume s: "2 \<le> length (rx h w) \<and> 2 \<le> contig h w"
    "2 + be_val (take 2 (rx h w)) \<le> tcp_recv_capacity T h w"
  {
    assume "unframe (rx h w) = None"
    then have "length (rx h w) < 2 + be_val (take 2 (rx h w))"
      using s by (auto simp: unframe_def Let_def split: if_splits)
    then show "try_recv T decode h w = (Ok None, w)" using s try_recv_incomplete [OF assms(1)] by blast
  next
    fix body rest assume u: "unframe (rx h w) = Some (body, rest)" "body @ rest \<noteq> []"
    then have f: "rx h w = framed body @ rest" "length body < 2 ^ 16" by (auto simp: unframe_parts)
    then have "be_val (take 2 (rx h w)) = length body" using framed_parts(1) by metis
    then show "\<exists>w'. try_recv T decode h w = (recv_result (decode body), w') \<and> rx h w' = rest"
      using try_recv_framed [OF assms(1) _ assms(2) f(1) u(2), of decode] s by auto
  }
qed (use try_recv_short [OF assms(1)] try_recv_boundary [OF assms(1)]
    try_recv_too_large [OF assms(1)] in auto)

theorem try_recv_refines_unframe_witness:
  "\<exists>w'. try_recv toy_tcp Inr 0 \<lparr>tn_rx = (\<lambda>_. [0, 2, 7, 8, 0]), tn_tx = (\<lambda>_. [])\<rparr> =
     (recv_result (Inr [7, 8]), w') \<and> tn_rx w' 0 = [0]"
proof -
  have v: "be_val [0, 2] = 2" by (simp add: be_val_def)
  show ?thesis
    using try_recv_refines_unframe [OF toy_tcp_spec, of 0
        "\<lparr>tn_rx = (\<lambda>_. [0, 2, 7, 8, 0]), tn_tx = (\<lambda>_. [])\<rparr>" Inr]
    by (simp add: toy_tcp_def MAX_MESSAGE_SIZE_def unframe_def v)
qed

end
