(* ===== verification/Demo_App.thy ===== *)
theory Demo_App
  imports Demo_Net
begin

text \<open>
  The application of the embedded demo (\<open>cortex-m-demo/src/application.rs\<close>): a state machine that
  fetches its configuration, listens, opens a channel as proposer or acceptor, feeds the messages
  of the two sockets to the channel of \<open>channel.rs\<close> and starts over when it is closed.
\<close>

section \<open>The application\<close>

datatype service_reply_message =
    WatcherReply watcher_reply_message
  | FunderReply funder_reply_message

record app_config =
  cf_config_server :: endpoint
  cf_other_participant :: endpoint
  cf_service_server :: endpoint
  cf_listen_port :: u16
  cf_participants :: "bytes \<times> bytes"

datatype application_state =
    InitialState
  | ConnectingToConfigDealer
  | ClosingSockets address address
  | Listening address address
  | WaitForProposal address address
  | Connecting address address
  | WaitForHandshake address address
  | AppActive address address channel_inner

text \<open>
  The fields of \<open>Application\<close>; \<open>app_iface\<close> is the network interface behind the \<open>RefCell\<close> and \<open>app_bus\<close> the
  bus inside the client.
\<close>

record ('w, 'r) app =
  app_state :: application_state
  app_iface :: 'w
  app_participant_handle :: socket_handle
  app_service_handle :: socket_handle
  app_config :: app_config
  app_rng :: 'r
  app_client :: perun_client
  app_bus :: socket_bus
  app_addr :: address

text \<open>The code outside the repository that the application runs on.\<close>

record ('w, 'r) platform =
  pf_build :: build
  pf_ext :: ext
  pf_prost :: prost
  pf_tcp :: "'w tcp"
  pf_next_u32 :: "'r \<Rightarrow> u32 \<times> 'r"
  pf_gen32 :: "'r \<Rightarrow> bytes \<times> 'r"
  pf_decode_envelope :: "bytes \<Rightarrow> decode_error + envelope"
  pf_decode_message :: "bytes \<Rightarrow> decode_error + service_msg option"

type_synonym ('w, 'r, 'a) app_cmd = "(('w, 'r) app, app_error, 'a) cmd"

definition Application_new ::
    "socket_handle \<Rightarrow> socket_handle \<Rightarrow> app_config \<Rightarrow> 'r \<Rightarrow> address \<Rightarrow> perun_client \<Rightarrow> socket_bus \<Rightarrow> 'w \<Rightarrow>
      ('w, 'r) app" where
  "Application_new participant_handle service_handle config rng addr client bus iface =
     \<lparr>app_state = InitialState, app_iface = iface, app_participant_handle = participant_handle,
      app_service_handle = service_handle, app_config = config, app_rng = rng, app_client = client,
      app_bus = bus, app_addr = addr\<rparr>"

section \<open>Access to the interface, the random generator and the client\<close>

definition get_app :: "('s, 'e, 's) cmd" where
  "get_app = (\<lambda>s. (Ok s, s))"

definition set_state :: "application_state \<Rightarrow> (('w, 'r) app, 'e, unit) cmd" where
  "set_state st a = (Ok (), a\<lparr>app_state := st\<rparr>)"

definition on_iface :: "('w, 'e, 'a) cmd \<Rightarrow> (('w, 'r) app, 'e, 'a) cmd" where
  "on_iface m a = (case m (app_iface a) of (r, w') \<Rightarrow> (r, a\<lparr>app_iface := w'\<rparr>))"

definition gen32 :: "('w, 'r) platform \<Rightarrow> (('w, 'r) app, 'e, bytes) cmd" where
  "gen32 E a = (case pf_gen32 E (app_rng a) of (x, r) \<Rightarrow> (Ok x, a\<lparr>app_rng := r\<rparr>))"

text \<open>A call of the channel code on an object, through the client's bus; it returns the object too.\<close>

definition run_client ::
    "('w, 'r) platform \<Rightarrow> ('c \<times> bus, 'e, 'a) cmd \<Rightarrow> 'c \<Rightarrow> (('w, 'r) app, 'f, ('e, 'a) res \<times> 'c) cmd" where
  "run_client E m c a =
     (case on_sockets (pf_build E) (pf_ext E) (pf_prost E) (pf_tcp E) (app_bus a) m (c, app_iface a) of
        (r, (c', w')) \<Rightarrow> (if r = Panic then Panic else Ok (r, c'), a\<lparr>app_iface := w'\<rparr>))"

definition u16_add :: "build \<Rightarrow> u16 \<Rightarrow> u16 \<Rightarrow> ('e, u16) res" where
  "u16_add b x y =
     (if unat x + unat y < 2 ^ 16 then Ok (x + y)
      else case profile b of Debug \<Rightarrow> Panic | Release \<Rightarrow> Ok (x + y))"

definition get_ethemeral_port :: "('w, 'r) platform \<Rightarrow> (('w, 'r) app, 'e, u16) cmd" where
  "get_ethemeral_port E a = (case pf_next_u32 E (app_rng a) of (x, r) \<Rightarrow>
     (u16_add (pf_build E) 49152 (ucast x mod (65535 - 49152)), a\<lparr>app_rng := r\<rparr>))"

section \<open>Setting up\<close>

definition connect_config_dealer :: "('w, 'r) platform \<Rightarrow> ('w, 'r, unit) app_cmd" where
  "connect_config_dealer E =
     bindS (get_ethemeral_port E) (\<lambda>port.
     bindS get_app (\<lambda>a.
     bindS (cmd_err AE_Network (on_iface
       (tcp_connect (pf_tcp E) (app_participant_handle a) (cf_config_server (app_config a)) port))) (\<lambda>_.
     set_state ConnectingToConfigDealer)))"

definition wait_connected_and_read_config :: "('w, 'r) platform \<Rightarrow> ('w, 'r, unit) app_cmd" where
  "wait_connected_and_read_config E =
     bindS get_app (\<lambda>a. let h = app_participant_handle a in
     if tcp_is_active (pf_tcp E) h (app_iface a) \<and> tcp_can_recv (pf_tcp E) h (app_iface a) then
       bindS (cmd_err AE_Network (on_iface (socket_recv (pf_tcp E) h
         (\<lambda>x. if 40 \<le> length x then (40, Some (take 20 x, take 20 (drop 20 x))) else (0, None))))) (\<lambda>r.
       case r of
         Some (eth_holder, withdraw_receiver) \<Rightarrow>
           bindS (set_state (ClosingSockets eth_holder withdraw_receiver)) (\<lambda>_.
           on_iface (\<lambda>w. (Ok (), tcp_close (pf_tcp E) h w)))
       | None \<Rightarrow> ret ())
     else ret ())"

definition wait_connections_closed ::
    "('w, 'r) platform \<Rightarrow> address \<Rightarrow> address \<Rightarrow> ('w, 'r, unit) app_cmd" where
  "wait_connections_closed E eth_holder withdraw_receiver =
     bindS get_app (\<lambda>a.
     if \<not> tcp_is_active (pf_tcp E) (app_service_handle a) (app_iface a) \<and>
        \<not> tcp_is_active (pf_tcp E) (app_participant_handle a) (app_iface a) then
       bindS (cmd_err AE_Network (on_iface
         (tcp_listen (pf_tcp E) (app_participant_handle a) (cf_listen_port (app_config a))))) (\<lambda>_.
       set_state (Listening eth_holder withdraw_receiver))
     else ret ())"

text \<open>The wire address the acceptor answers with.\<close>

definition PEER0 :: bytes where
  "PEER0 = [0x7b, 0x7E, 0x21, 0x26, 0x52, 0xb9, 0xC3, 0x75, 0x5C, 0x4E, 0x1f, 0x17, 0x18, 0xa1, 0x42,
     0xdD, 0xE3, 0x81, 0x75, 0x23]"

definition app_try_recv_envelope :: "('w, 'r) platform \<Rightarrow> ('w, 'r, envelope option) app_cmd" where
  "app_try_recv_envelope E =
     bindS get_app (\<lambda>a. on_iface (try_recv (pf_tcp E) (pf_decode_envelope E) (app_participant_handle a)))"

definition check_incomming_connection ::
    "('w, 'r) platform \<Rightarrow> address \<Rightarrow> address \<Rightarrow> ('w, 'r, unit) app_cmd" where
  "check_incomming_connection E eth_holder withdraw_receiver =
     bindS get_app (\<lambda>a. let h = app_participant_handle a in
     if \<not> tcp_is_open (pf_tcp E) h (app_iface a) \<or> \<not> tcp_may_recv (pf_tcp E) h (app_iface a) then ret ()
     else
       bindS (app_try_recv_envelope E) (\<lambda>r. case r of
         None \<Rightarrow> ret ()
       | Some env \<Rightarrow> (case env_msg env of
           Some (Sendable WAuthResponseMsg) \<Rightarrow>
             bindS (run_client E (on_bus (\<lambda>bus. (Ok (), send_handshake_msg PEER0 (env_sender env) bus)) ::
                      (unit \<times> bus, unit, unit) cmd) ()) (\<lambda>_.
             bindS (get_ethemeral_port E) (\<lambda>port.
             bindS (cmd_err AE_Network (on_iface
               (tcp_connect (pf_tcp E) (app_service_handle a) (cf_service_server (app_config a)) port))) (\<lambda>_.
             set_state (WaitForProposal eth_holder withdraw_receiver))))
         | Some _ \<Rightarrow> fail AE_UnexpectedMsg
         | None \<Rightarrow> fail AE_InvalidState)))"

definition connect :: "('w, 'r) platform \<Rightarrow> address \<Rightarrow> address \<Rightarrow> ('w, 'r, unit) app_cmd" where
  "connect E eth_holder withdraw_receiver =
     bindS get_app (\<lambda>a. let h = app_participant_handle a in
     bindS (if tcp_is_listening (pf_tcp E) h (app_iface a)
            then on_iface (\<lambda>w. (Ok (), tcp_abort (pf_tcp E) h w)) else ret ()) (\<lambda>_.
     bindS (get_ethemeral_port E) (\<lambda>port1.
     bindS (cmd_err AE_Network (on_iface
       (tcp_connect (pf_tcp E) h (cf_other_participant (app_config a)) port1))) (\<lambda>_.
     bindS (get_ethemeral_port E) (\<lambda>port2.
     bindS (cmd_err AE_Network (on_iface
       (tcp_connect (pf_tcp E) (app_service_handle a) (cf_service_server (app_config a)) port2))) (\<lambda>_.
     set_state (Connecting eth_holder withdraw_receiver)))))))"

definition wait_connected_and_send_handshake ::
    "('w, 'r) platform \<Rightarrow> address \<Rightarrow> address \<Rightarrow> ('w, 'r, unit) app_cmd" where
  "wait_connected_and_send_handshake E eth_holder withdraw_receiver =
     bindS get_app (\<lambda>a. let h = app_participant_handle a in
     if tcp_is_active (pf_tcp E) h (app_iface a) \<and> tcp_may_recv (pf_tcp E) h (app_iface a) \<and>
        tcp_may_send (pf_tcp E) h (app_iface a) then
       case cf_participants (app_config a) of (peer0, peer1) \<Rightarrow>
         bindS (run_client E (on_bus (\<lambda>bus. (Ok (), send_handshake_msg peer0 peer1 bus)) ::
                  (unit \<times> bus, unit, unit) cmd) ()) (\<lambda>_.
         set_state (WaitForHandshake eth_holder withdraw_receiver))
     else ret ())"

section \<open>Receiving messages\<close>

text \<open>
  The kinds that are not supported are \<open>unimplemented!()\<close>, the identifiers of rejections are
  converted with \<open>unwrap\<close>, and the other conversions report their error.
\<close>

definition participant_msg_of ::
    "ext \<Rightarrow> envelope_msg \<Rightarrow> (app_error, participant_message) res" where
  "participant_msg_of X m = (case m of
     Sendable WAuthResponseMsg \<Rightarrow> Ok Auth
   | Sendable (WLedgerChannelProposalMsg p) \<Rightarrow>
       bind_res (map_err AE_ConversionError (LedgerChannelProposal_try_from X p)) (\<lambda>v. Ok (ChannelProposal v))
   | Sendable (WLedgerChannelProposalAccMsg p) \<Rightarrow>
       bind_res (map_err AE_ConversionError (LedgerChannelProposalAcc_try_from p)) (\<lambda>v. Ok (ProposalAccepted v))
   | Sendable (WChannelProposalRejMsg proposal_id reason) \<Rightarrow>
       bind_res (unwrap_res (try_into_array 32 ByteLengthMissmatch proposal_id)) (\<lambda>i.
       Ok (ProposalRejected i reason))
   | Sendable (WChannelUpdateMsg p) \<Rightarrow>
       bind_res (map_err AE_ConversionError (LedgerChannelUpdate_try_from X p)) (\<lambda>v. Ok (ChannelUpdate v))
   | Sendable (WChannelUpdateAccMsg p) \<Rightarrow>
       bind_res (map_err AE_ConversionError (LedgerChannelUpdateAccepted_try_from p)) (\<lambda>v.
       Ok (ChannelUpdateAccepted v))
   | Sendable (WChannelUpdateRejMsg channel_id version reason) \<Rightarrow>
       bind_res (unwrap_res (try_into_array 32 ByteLengthMissmatch channel_id)) (\<lambda>i.
       Ok (ChannelUpdateRejected i version reason))
   | _ \<Rightarrow> Panic)"

definition try_recv_participant_msg :: "('w, 'r) platform \<Rightarrow> ('w, 'r, participant_message option) app_cmd" where
  "try_recv_participant_msg E =
     bindS (app_try_recv_envelope E) (\<lambda>r. case r of
       None \<Rightarrow> ret None
     | Some env \<Rightarrow> (case env_msg env of
         None \<Rightarrow> fail AE_EnvelopeHasNoMsg
       | Some m \<Rightarrow> bindS (lift_res (participant_msg_of (pf_ext E) m)) (\<lambda>msg. ret (Some msg))))"

text \<open>The error of a \<open>FundResp\<close> and the success flags are not looked at.\<close>

definition service_reply_of :: "service_msg \<Rightarrow> (app_error, service_reply_message) res" where
  "service_reply_of m = (case m of
     FundResp _ \<Rightarrow> Ok (FunderReply (Funded (replicate 32 0)))
   | WatchResponse channel_id version _ \<Rightarrow>
       bind_res (unwrap_res (try_into_array 32 ByteLengthMissmatch channel_id)) (\<lambda>i.
       Ok (WatcherReply (Ack i version)))
   | ForceCloseResponse channel_id _ \<Rightarrow>
       bind_res (unwrap_res (try_into_array 32 ByteLengthMissmatch channel_id)) (\<lambda>i.
       Ok (WatcherReply (DisputeAck i)))
   | DisputeNotificationMsg channel_id \<Rightarrow>
       bind_res (unwrap_res (try_into_array 32 ByteLengthMissmatch channel_id)) (\<lambda>i.
       Ok (WatcherReply (DisputeNotification i)))
   | _ \<Rightarrow> Panic)"

definition try_recv_service_msg :: "('w, 'r) platform \<Rightarrow> ('w, 'r, service_reply_message option) app_cmd" where
  "try_recv_service_msg E =
     bindS get_app (\<lambda>a.
     bindS (on_iface (try_recv (pf_tcp E) (pf_decode_message E) (app_service_handle a))) (\<lambda>r. case r of
       None \<Rightarrow> ret None
     | Some None \<Rightarrow> fail AE_EnvelopeHasNoMsg
     | Some (Some m) \<Rightarrow> bindS (lift_res (service_reply_of m)) (\<lambda>msg. ret (Some msg))))"

section \<open>Opening a channel\<close>

text \<open>
  As the acceptor: the proposal is accepted, the channel built and signed at once.  The result of
  \<open>accept\<close> is unwrapped.
\<close>

definition wait_connected_and_proposal_msg ::
    "('w, 'r) platform \<Rightarrow> address \<Rightarrow> address \<Rightarrow> ('w, 'r, unit) app_cmd" where
  "wait_connected_and_proposal_msg E eth_holder withdraw_receiver =
     bindS get_app (\<lambda>a.
     if \<not> tcp_is_open (pf_tcp E) (app_service_handle a) (app_iface a) then ret ()
     else
       bindS (try_recv_participant_msg E) (\<lambda>r. case r of
         None \<Rightarrow> ret ()
       | Some (ChannelProposal prop) \<Rightarrow>
           bindS (lift_res (map_err AE_InvalidProposal
             (handle_proposal (app_client a) prop withdraw_receiver))) (\<lambda>c.
           bindS (gen32 E) (\<lambda>nonce_share.
           bindS (run_client E (accept_proposal (pf_build E) nonce_share (app_addr a)) c) (\<lambda>(ra, c').
           bindS (lift_res (unwrap_res ra)) (\<lambda>_.
           bindS (lift_res (map_err (\<lambda>(_, e). AE_ProposalBuildError e)
             (build_agreed (pf_build E) (pf_ext E) c'))) (\<lambda>ag.
           bindS (run_client E (sign (pf_build E) (pf_ext E)) ag) (\<lambda>(rs, ag').
           bindS (lift_res (map_err AE_SignError rs)) (\<lambda>_.
           set_state (AppActive eth_holder withdraw_receiver (Channel_new_agreed_upon ag')))))))))
       | Some _ \<Rightarrow> fail AE_InvalidState))"

text \<open>As the proposer: the proposal with the demo's fixed balances.\<close>

definition demo_proposal ::
    "address \<Rightarrow> bytes \<times> bytes \<Rightarrow> address \<Rightarrow> bytes \<Rightarrow> bytes \<Rightarrow> ledger_channel_proposal" where
  "demo_proposal eth_holder participants addr proposal_id nonce_share =
     (let init_balance = [[100000, 100000]] in
      \<lparr>lp_proposal_id = proposal_id, lp_challenge_duration = 25, lp_nonce_share = nonce_share,
       lp_init_bals = Allocation_new [\<lparr>as_holder = eth_holder\<rparr>] init_balance,
       lp_funding_agreement = init_balance, lp_participant = addr,
       lp_peers = [fst participants, snd participants]\<rparr>)"

definition send_channel_proposal ::
    "('w, 'r) platform \<Rightarrow> address \<Rightarrow> address \<Rightarrow> ('w, 'r, unit) app_cmd" where
  "send_channel_proposal E eth_holder withdraw_receiver =
     bindS get_app (\<lambda>a.
     bindS (gen32 E) (\<lambda>proposal_id.
     bindS (gen32 E) (\<lambda>nonce_share.
     bindS (run_client E (on_bus (propose_channel (pf_build E) (app_client a)
         (demo_proposal eth_holder (cf_participants (app_config a)) (app_addr a) proposal_id nonce_share)
         withdraw_receiver)) ()) (\<lambda>(r, _).
     bindS (lift_res (map_err AE_InvalidProposal r)) (\<lambda>c.
     set_state (AppActive eth_holder withdraw_receiver (Channel_new c)))))))"

definition wait_handshake_and_propose_channel ::
    "('w, 'r) platform \<Rightarrow> address \<Rightarrow> address \<Rightarrow> ('w, 'r, unit) app_cmd" where
  "wait_handshake_and_propose_channel E eth_holder withdraw_receiver =
     bindS (try_recv_participant_msg E) (\<lambda>r. case r of
       Some Auth \<Rightarrow> send_channel_proposal E eth_holder withdraw_receiver
     | Some _ \<Rightarrow> fail AE_UnexpectedMsg
     | None \<Rightarrow> ret ())"

section \<open>Running the channel\<close>

text \<open>
  A method of the channel inside the \<open>Active\<close> state: the channel it leaves is stored on every
  outcome, and its error becomes a \<open>ChannelError\<close>.
\<close>

definition run_channel ::
    "('w, 'r) platform \<Rightarrow> (channel_inner \<times> bus, demo_error, unit) cmd \<Rightarrow> address \<Rightarrow> address \<Rightarrow> channel_inner \<Rightarrow>
      ('w, 'r, channel_inner) app_cmd" where
  "run_channel E m eth_holder withdraw_receiver ch =
     bindS (run_client E m ch) (\<lambda>(r, ch').
     bindS (set_state (AppActive eth_holder withdraw_receiver ch')) (\<lambda>_.
     bindS (lift_res (map_err AE_ChannelError r)) (\<lambda>_.
     ret ch')))"

definition forward_messages ::
    "('w, 'r) platform \<Rightarrow> ('w, 'r, 't option) app_cmd \<Rightarrow> ('t \<Rightarrow> (channel_inner \<times> bus, demo_error, unit) cmd) \<Rightarrow>
      ('w, 'r, bool) app_cmd" where
  "forward_messages E recv_fn process_fn =
     bindS recv_fn (\<lambda>r. case r of
       None \<Rightarrow> ret False
     | Some msg \<Rightarrow>
         bindS get_app (\<lambda>a. case app_state a of
           AppActive eth_holder withdraw_receiver ch \<Rightarrow>
             bindS (run_channel E (process_fn msg) eth_holder withdraw_receiver ch) (\<lambda>ch'.
             if is_closed ch' then
               bindS (on_iface (\<lambda>w. (Ok (), tcp_close (pf_tcp E) (app_participant_handle a) w))) (\<lambda>_.
               bindS (on_iface (\<lambda>w. (Ok (), tcp_close (pf_tcp E) (app_service_handle a) w))) (\<lambda>_.
               bindS (set_state (ClosingSockets eth_holder withdraw_receiver)) (\<lambda>_.
               ret True)))
             else ret True)
         | _ \<Rightarrow> crash))"

definition process_service_msg ::
    "service_reply_message \<Rightarrow> (channel_inner \<times> bus, demo_error, unit) cmd" where
  "process_service_msg msg = (case msg of
     FunderReply m \<Rightarrow> process_funder_reply m
   | WatcherReply m \<Rightarrow> process_watcher_reply m)"

definition forward_messages_to_channel :: "('w, 'r) platform \<Rightarrow> ('w, 'r, unit) app_cmd" where
  "forward_messages_to_channel E =
     bindS (forward_messages E (try_recv_participant_msg E)
       (process_participant_msg (pf_build E) (pf_ext E))) (\<lambda>has_participant_msg.
     if has_participant_msg then ret ()
     else bindS (forward_messages E (try_recv_service_msg E) process_service_msg) (\<lambda>_. ret ()))"

section \<open>The public methods\<close>

definition poll :: "('w, 'r) platform \<Rightarrow> ('w, 'r, unit) app_cmd" where
  "poll E a = (case app_state a of
     InitialState \<Rightarrow> connect_config_dealer E
   | ConnectingToConfigDealer \<Rightarrow> wait_connected_and_read_config E
   | ClosingSockets eth_holder withdraw_receiver \<Rightarrow> wait_connections_closed E eth_holder withdraw_receiver
   | Listening eth_holder withdraw_receiver \<Rightarrow> check_incomming_connection E eth_holder withdraw_receiver
   | WaitForProposal eth_holder withdraw_receiver \<Rightarrow>
       wait_connected_and_proposal_msg E eth_holder withdraw_receiver
   | Connecting eth_holder withdraw_receiver \<Rightarrow>
       wait_connected_and_send_handshake E eth_holder withdraw_receiver
   | WaitForHandshake eth_holder withdraw_receiver \<Rightarrow>
       wait_handshake_and_propose_channel E eth_holder withdraw_receiver
   | AppActive _ _ _ \<Rightarrow> forward_messages_to_channel E) a"

definition app_update :: "('w, 'r) platform \<Rightarrow> u256 \<Rightarrow> bool \<Rightarrow> ('w, 'r, unit) app_cmd" where
  "app_update E amount is_final a = (case app_state a of
     AppActive eth_holder withdraw_receiver ch \<Rightarrow>
       bindS (run_channel E (channel_update_op (pf_build E) (pf_ext E) amount is_final)
         eth_holder withdraw_receiver ch) (\<lambda>_. ret ())
   | _ \<Rightarrow> fail AE_InvalidState) a"

definition app_force_close :: "('w, 'r) platform \<Rightarrow> ('w, 'r, unit) app_cmd" where
  "app_force_close E a = (case app_state a of
     AppActive eth_holder withdraw_receiver ch \<Rightarrow>
       bindS (run_channel E channel_force_close eth_holder withdraw_receiver ch) (\<lambda>_. ret ())
   | _ \<Rightarrow> fail AE_InvalidState) a"

definition app_propose_channel :: "('w, 'r) platform \<Rightarrow> ('w, 'r, unit) app_cmd" where
  "app_propose_channel E a = (case app_state a of
     Listening eth_holder withdraw_receiver \<Rightarrow> connect E eth_holder withdraw_receiver
   | _ \<Rightarrow> fail AE_InvalidState) a"

end
