(* ===== verification/Demo_Msgs.thy ===== *)
theory Demo_Msgs
  imports Demo_App Demo_Steps
begin

text \<open>
  The messages the embedded demo accepts from the network: whatever the conversions let through
  has the array lengths that the channel code's Rust types fix, the messages of a peer survive the
  way through its encoder, the socket and the conversions, and the kinds that stop the device.
\<close>

section \<open>What the conversions let through\<close>

lemma zip_fill_all:
  assumes "zip_fill n d f ws = Ok ys" "P d" "\<And>w y. f w = Ok y \<Longrightarrow> P y"
  shows "list_all P ys"
  using assms
proof (induction n d f ws arbitrary: ys rule: zip_fill.induct)
  case (3 n d f w ws)
  then obtain y zs where "f w = Ok y" "zip_fill n d f ws = Ok zs" "ys = y # zs"
    by (auto simp: bind_res_Ok_iff)
  moreover from this have "list_all P zs" using "3.IH" "3.prems" by blast
  ultimately show ?case using "3.prems"(3) by auto
qed (auto simp: list_all_iff)

lemma Asset_try_from_wf: "Asset_try_from v = Ok a \<Longrightarrow> length (as_holder a) = 20"
  by (auto simp: Asset_try_from_def Let_def bytesN_default_def split: if_splits)

lemma ParticipantBalances_try_from_wf: "ParticipantBalances_try_from X P v = Ok x \<Longrightarrow> length x = P"
  by (auto simp: ParticipantBalances_try_from_def dest: zip_fill_length split: if_splits)

lemma Balances_try_from_wf:
  assumes "Balances_try_from X A P v = Ok bals"
  shows "length bals = A \<and> list_all (\<lambda>x. length x = P) bals"
proof -
  have z: "zip_fill A (replicate P 0) (ParticipantBalances_try_from X P) (wbs_balances v) = Ok bals"
    using assms by (auto simp: Balances_try_from_def split: if_splits)
  have "list_all (\<lambda>x. length x = P) bals"
    by (rule zip_fill_all [OF z]) (auto dest: ParticipantBalances_try_from_wf)
  then show ?thesis using zip_fill_length [OF z] by simp
qed

lemma Allocation_try_from_wf:
  assumes "Allocation_try_from X A P v = Ok al"
  shows "allocation_wf A P al"
proof -
  from assms obtain assets wb bals where
    z: "zip_fill A \<lparr>as_holder = bytesN_default 20\<rparr> Asset_try_from (wa_assets v) = Ok assets"
    and b: "Balances_try_from X A P wb = Ok bals"
    and al: "al = \<lparr>al_assets = assets, al_balances = bals, al_locked = ()\<rparr>"
    by (auto simp: Allocation_try_from_def bind_res_Ok_iff)
  have "list_all (\<lambda>a. length (as_holder a) = 20) assets"
    by (rule zip_fill_all [OF z]) (auto simp: bytesN_default_def dest: Asset_try_from_wf)
  then show ?thesis
    using zip_fill_length [OF z] Balances_try_from_wf [OF b] by (simp add: al allocation_wf_def)
qed

lemma State_try_from_wf: "State_try_from X A P v = Ok s \<Longrightarrow> state_wf A P s"
  by (auto simp: State_try_from_def state_wf_def bind_res_Ok_iff dest: Allocation_try_from_wf
      split: if_splits)

text \<open>The lengths a received message has; the number of peers of a proposal is whatever was sent.\<close>

definition received_wf :: "participant_message \<Rightarrow> bool" where
  "received_wf m = (case m of
     Auth \<Rightarrow> True
   | ChannelProposal p \<Rightarrow> length (lp_proposal_id p) = 32 \<and> length (lp_nonce_share p) = 32 \<and>
       allocation_wf 1 2 (lp_init_bals p) \<and> length (lp_funding_agreement p) = 1 \<and>
       list_all (\<lambda>x. length x = 2) (lp_funding_agreement p) \<and> length (lp_participant p) = 20
   | ProposalAccepted a \<Rightarrow> proposal_acc_wf a
   | ProposalRejected i _ \<Rightarrow> length i = 32
   | ChannelUpdate u \<Rightarrow> state_wf 1 2 (lu_state u) \<and> length (lu_sig u) = 65 \<and> lu_actor_idx u < 2 ^ 32
   | ChannelUpdateAccepted a \<Rightarrow> update_accepted_wf a
   | ChannelUpdateRejected i _ _ \<Rightarrow> length i = 32)"

lemma participant_msg_of_wf:
  assumes "participant_msg_of X m = Ok v"
  shows "received_wf v"
proof -
  have "received_wf v" if "LedgerChannelProposal_try_from X p = Ok q" "v = ChannelProposal q" for p q
    using that by (auto simp: LedgerChannelProposal_try_from_def received_wf_def bind_res_Ok_iff
        ASSETS_def PARTICIPANTS_def dest!: Allocation_try_from_wf Balances_try_from_wf)
  moreover have "received_wf v" if "LedgerChannelUpdate_try_from X p = Ok q" "v = ChannelUpdate q" for p q
    using that unat_bound [of "wcu_actor_idx (the (wum_channel_update p))"]
    by (auto simp: LedgerChannelUpdate_try_from_def received_wf_def bind_res_Ok_iff
        ASSETS_def PARTICIPANTS_def dest!: State_try_from_wf)
  ultimately show ?thesis
    using assms
    by (auto simp: participant_msg_of_def bind_res_Ok_iff received_wf_def acc.decodes_wf upd_acc.decodes_wf
        try_into_array_def split: envelope_msg.splits w_envelope_msg.splits if_splits)
qed

lemma received_msg_wf: "received_wf m \<Longrightarrow> participant_msg_wf m"
  by (auto simp: received_wf_def participant_msg_wf_def split: participant_message.splits)

lemma try_recv_participant_msg_of:
  assumes "try_recv_participant_msg E a = (Ok (Some m), a')"
  obtains env em where "env_msg env = Some em" "participant_msg_of (pf_ext E) em = Ok m"
    "app_try_recv_envelope E a = (Ok (Some env), a')"
proof -
  from assms obtain r a1 where r: "app_try_recv_envelope E a = (Ok r, a1)"
    "(case r of None \<Rightarrow> ret None | Some env \<Rightarrow> (case env_msg env of None \<Rightarrow> fail AE_EnvelopeHasNoMsg
       | Some m \<Rightarrow> bindS (lift_res (participant_msg_of (pf_ext E) m)) (\<lambda>msg. ret (Some msg)))) a1
       = (Ok (Some m), a')"
    unfolding try_recv_participant_msg_def bindS_Ok_iff by auto
  then show ?thesis
    using that by (auto simp del: bindS_lift simp: bindS_lift_Ok_iff split: option.splits)
qed

section \<open>Across the sockets\<close>

lemma app_try_recv_envelope_framed:
  assumes "tcp_spec (pf_tcp E) rx contig" "2 \<le> contig (app_participant_handle a) (app_iface a)"
    "tcp_recv_capacity (pf_tcp E) (app_participant_handle a) (app_iface a) = MAX_MESSAGE_SIZE + 2"
    "rx (app_participant_handle a) (app_iface a) = framed body @ rest" "body \<noteq> []"
    "length body \<le> MAX_MESSAGE_SIZE" "pf_decode_envelope E body = Inr env"
  obtains w' where "app_try_recv_envelope E a = (Ok (Some env), a\<lparr>app_iface := w'\<rparr>)"
    "rx (app_participant_handle a) w' = rest"
proof -
  obtain w' where "try_recv (pf_tcp E) (pf_decode_envelope E) (app_participant_handle a) (app_iface a) =
      (recv_result (pf_decode_envelope E body), w')" "rx (app_participant_handle a) w' = rest"
    using try_recv_framed [OF assms(1,2) _ assms(4)] assms(3,5,6) by (metis append_is_Nil_conv add.commute
        add_le_mono1 order_refl)
  then show ?thesis
    using that [of w'] assms(7)
    by (simp add: app_try_recv_envelope_def bindS_def get_app_def on_iface_def recv_result_def)
qed

definition carries_assets :: "participant_message \<Rightarrow> bool" where
  "carries_assets m = (case m of ChannelProposal _ \<Rightarrow> True | ChannelUpdate _ \<Rightarrow> True | _ \<Rightarrow> False)"

lemma wiremsg_round_trip:
  "received_wf m \<Longrightarrow> \<not> carries_assets m \<Longrightarrow> participant_msg_of X (Sendable (participant_wiremsg X m)) = Ok m"
  by (cases m) (simp_all add: received_wf_def carries_assets_def participant_wiremsg_def
      participant_msg_of_def acc.round_trip upd_acc.round_trip)

text \<open>The holder of the asset a message carries, and what the receiver makes of its first two bytes.\<close>

definition holder_of :: "participant_message \<Rightarrow> address" where
  "holder_of m = (case m of
     ChannelProposal p \<Rightarrow> as_holder (hd (al_assets (lp_init_bals p)))
   | ChannelUpdate u \<Rightarrow> as_holder (hd (al_assets (st_outcome (lu_state u))))
   | _ \<Rightarrow> [])"

lemma Allocation_round_trip_fails:
  assumes "allocation_wf 1 2 al" "0 < le_val (take 2 (as_holder (hd (al_assets al))))"
  shows "Allocation_try_from X 1 2 (Allocation_into X al) =
    (if 20 < le_val (take 2 (as_holder (hd (al_assets al)))) then Err ByteLengthMissmatch else Panic)"
proof -
  obtain h where h: "al_assets al = [\<lparr>as_holder = h\<rparr>]" "length h = 20"
    using assms(1) by (cases "al_assets al") (auto simp: allocation_wf_def, metis asset.surjective unit.exhaust)
  then show ?thesis
    using assms(2) by (auto simp: Allocation_try_from_def Allocation_into_def Asset_into_def Asset_try_from_def)
qed

lemma wiremsg_not_received:
  assumes "received_wf m" "carries_assets m" "0 < le_val (take 2 (holder_of m))"
  shows "participant_msg_of X (Sendable (participant_wiremsg X m)) \<in> {Err (AE_ConversionError ByteLengthMissmatch), Panic}"
proof (cases m)
  case (ChannelProposal p)
  then show ?thesis
    using assms Allocation_round_trip_fails [of "lp_init_bals p" X]
    by (simp add: received_wf_def holder_of_def participant_wiremsg_def participant_msg_of_def
        LedgerChannelProposal_try_from_def LedgerChannelProposal_into_def ASSETS_def PARTICIPANTS_def)
next
  case (ChannelUpdate u)
  then show ?thesis
    using assms Allocation_round_trip_fails [of "st_outcome (lu_state u)" X]
    by (simp add: received_wf_def holder_of_def participant_wiremsg_def participant_msg_of_def state_wf_def
        LedgerChannelUpdate_try_from_def LedgerChannelUpdate_into_def State_try_from_def State_into_def
        ASSETS_def PARTICIPANTS_def)
qed (use assms in \<open>simp_all add: carries_assets_def\<close>)

section \<open>A model of the platform\<close>

text \<open>A decoder that finds the same message in every body, a counter as random generator.\<close>

definition toy_platform :: "envelope \<Rightarrow> service_msg option \<Rightarrow> (toy_net, nat) platform" where
  "toy_platform env sm = \<lparr>pf_build = \<lparr>profile = Debug, ptr_width = W32\<rparr>, pf_ext = toy_ext,
     pf_prost = \<lparr>encode_message = (\<lambda>_. [1]), encode_envelope = (\<lambda>_. [2])\<rparr>, pf_tcp = toy_tcp,
     pf_next_u32 = (\<lambda>r. (word_of_nat r, r + 1)),
     pf_gen32 = (\<lambda>r. (replicate 32 (word_of_nat r), r + 1)),
     pf_decode_envelope = (\<lambda>_. Inr env), pf_decode_message = (\<lambda>_. Inr sm)\<rparr>"

definition toy_app :: "application_state \<Rightarrow> bytes \<Rightarrow> bytes \<Rightarrow> (toy_net, nat) app" where
  "toy_app st rx0 rx1 = \<lparr>app_state = st,
     app_iface = \<lparr>tn_rx = (\<lambda>h. if h = 0 then rx0 else rx1), tn_tx = (\<lambda>_. [])\<rparr>,
     app_participant_handle = 0, app_service_handle = 1,
     app_config = \<lparr>cf_config_server = ([192, 168, 1, 127], 1339),
       cf_other_participant = ([192, 168, 1, 127], 38843),
       cf_service_server = ([192, 168, 1, 127], 50002), cf_listen_port = 32977,
       cf_participants = ([66, 111, 98], [65, 108, 105, 99, 101])\<rparr>,
     app_rng = 0, app_client = PerunClient_new (toy_signer 7),
     app_bus = \<lparr>sb_participant_handle = 0, sb_service_handle = 1\<rparr>, app_addr = replicate 20 7\<rparr>"

abbreviation toy_envelope :: "envelope_msg \<Rightarrow> envelope" where
  "toy_envelope m \<equiv> \<lparr>env_sender = [65], env_recipient = [66], env_msg = Some m\<rparr>"

lemma toy_platform_simps [simp]:
  "pf_build (toy_platform env sm) = \<lparr>profile = Debug, ptr_width = W32\<rparr>"
  "pf_ext (toy_platform env sm) = toy_ext" "pf_tcp (toy_platform env sm) = toy_tcp"
  "pf_prost (toy_platform env sm) = \<lparr>encode_message = (\<lambda>_. [1]), encode_envelope = (\<lambda>_. [2])\<rparr>"
  "pf_decode_envelope (toy_platform env sm) body = Inr env"
  "pf_decode_message (toy_platform env sm) body = Inr sm"
  "tcp_recv_capacity toy_tcp h w = 512"
  by (simp_all add: toy_platform_def toy_tcp_def)

lemma toy_receives:
  "app_try_recv_envelope (toy_platform env sm) (toy_app st (framed [2]) rx1) =
    (Ok (Some env), toy_app st [] rx1)"
proof -
  have v: "be_val [0, 1] = 1" by (simp add: be_val_def)
  have f: "framed [2] = [0, 1, 2]" by (simp add: framed_def be_bytes_2)
  show ?thesis
    by (simp add: app_try_recv_envelope_def bindS_def get_app_def on_iface_def toy_platform_def toy_app_def
        try_recv_def toy_tcp_def f v socket_recv_def cmd_err_def MAX_MESSAGE_SIZE_def Let_def min_def fun_eq_iff)
qed

text \<open>
  C21: the messages of a peer that runs the library reach the demo's channel.  A message that the
  protocol buffer layer of the sender framed, of at most \<open>MAX_MESSAGE_SIZE\<close> bytes, and that lies in the
  receive buffer with its length in one piece, is returned by \<open>try_recv_participant_msg\<close> as the
  message that was sent, and exactly its bytes are taken, for handshakes, acceptances and rejections.
  A proposal or an update whose asset holder does not begin with two zero bytes never arrives: its
  conversion is an error or a panic, so two devices cannot open a channel with each other.
\<close>

theorem messages_cross_sockets:
  assumes net: "tcp_spec (pf_tcp E) rx contig" "2 \<le> contig (app_participant_handle a) (app_iface a)"
      "tcp_recv_capacity (pf_tcp E) (app_participant_handle a) (app_iface a) = MAX_MESSAGE_SIZE + 2"
    and sent: "pb_send_to_participant (pf_ext E) P s r m [] =
      (Ok () :: ('e, unit) res, [BytesToParticipant s r buf])"
      "rx (app_participant_handle a) (app_iface a) = buf @ rest"
      "2 < length buf" "length buf \<le> MAX_MESSAGE_SIZE + 2"
    and decoder: "pf_decode_envelope E (encode_envelope P
        \<lparr>we_sender = s, we_recipient = r, we_msg = participant_wiremsg (pf_ext E) m\<rparr>) =
      Inr \<lparr>env_sender = s, env_recipient = r, env_msg = Some (Sendable (participant_wiremsg (pf_ext E) m))\<rparr>"
    and wf: "received_wf m"
  shows "\<exists>w' res. try_recv_participant_msg E a = (res, a\<lparr>app_iface := w'\<rparr>) \<and>
    rx (app_participant_handle a) w' = rest \<and>
    (\<not> carries_assets m \<longrightarrow> res = Ok (Some m)) \<and>
    (carries_assets m \<and> 0 < le_val (take 2 (holder_of m)) \<longrightarrow>
      res \<in> {Err (AE_ConversionError ByteLengthMissmatch), Panic})"
proof -
  let ?body = "encode_envelope P
    \<lparr>we_sender = s, we_recipient = r, we_msg = participant_wiremsg (pf_ext E) m\<rparr>"
  have "frame ?body = (Ok buf :: ('e, bytes) res)"
    using sent(1) by (auto simp: pb_send_to_participant_def split: res.splits)
  then have buf: "buf = framed ?body" by (simp add: frame_framed)
  have "?body \<noteq> []" "length ?body \<le> MAX_MESSAGE_SIZE"
    using sent(3,4) by (auto simp: buf framed_def)
  then obtain w' where w': "app_try_recv_envelope E a = (Ok (Some \<lparr>env_sender = s, env_recipient = r,
        env_msg = Some (Sendable (participant_wiremsg (pf_ext E) m))\<rparr>), a\<lparr>app_iface := w'\<rparr>)"
    "rx (app_participant_handle a) w' = rest"
    using app_try_recv_envelope_framed [OF net _ _ _ decoder, of rest] sent(2) buf by metis
  let ?res = "bind_res (participant_msg_of (pf_ext E) (Sendable (participant_wiremsg (pf_ext E) m)))
    (\<lambda>v. Ok (Some v))"
  have "try_recv_participant_msg E a = (?res, a\<lparr>app_iface := w'\<rparr>)"
    by (simp add: try_recv_participant_msg_def bindS_Ok [of "app_try_recv_envelope E", OF w'(1)]
        split: res.split)
  moreover have "?res = Ok (Some m)" if "\<not> carries_assets m"
    using wiremsg_round_trip [OF wf that] by simp
  moreover have "?res \<in> {Err (AE_ConversionError ByteLengthMissmatch), Panic}"
    if "carries_assets m \<and> 0 < le_val (take 2 (holder_of m))"
    using wiremsg_not_received [OF wf, of "pf_ext E"] that by auto
  ultimately show ?thesis using w'(2) by blast
qed

theorem messages_cross_sockets_witness:
  "\<exists>w' res. try_recv_participant_msg (toy_platform (toy_envelope (Sendable WAuthResponseMsg)) None)
      (toy_app (Listening [] []) (framed [2]) []) = (res, (toy_app (Listening [] []) (framed [2]) [])\<lparr>app_iface := w'\<rparr>) \<and>
    tn_rx w' 0 = [] \<and> res = Ok (Some Auth)"
proof -
  let ?E = "toy_platform (toy_envelope (Sendable WAuthResponseMsg)) None"
  let ?a = "toy_app (Listening [] []) (framed [2]) []"
  let ?P = "\<lparr>encode_message = (\<lambda>_. [1]), encode_envelope = (\<lambda>_. [2])\<rparr>"
  have f: "framed [2] = [0, 1, 2]" by (simp add: framed_def be_bytes_2)
  have "pb_send_to_participant (pf_ext ?E) ?P [65] [66] Auth [] =
      (Ok () :: (unit, unit) res, [BytesToParticipant [65] [66] (framed [2])])"
    by (simp add: pb_send_to_participant_def frame_def framed_def)
  moreover have "tcp_spec (pf_tcp ?E) (\<lambda>h w. tn_rx w h) (\<lambda>h w. length (tn_rx w h))"
    by (simp add: toy_tcp_spec)
  ultimately show ?thesis
    using messages_cross_sockets [of ?E "\<lambda>h w. tn_rx w h" "\<lambda>h w. length (tn_rx w h)" ?a ?P "[65]" "[66]" Auth
        "framed [2]" "[]"]
    by (simp add: toy_app_def f MAX_MESSAGE_SIZE_def received_wf_def carries_assets_def
        participant_wiremsg_def)
qed

end
