(* ===== verification/Demo_App_Steps.thy ===== *)
theory Demo_App_Steps
  imports Demo_Msgs Demo_Props
begin

text \<open>
  The application of the embedded demo in operation.  Its public methods and the network stack
  that runs between them are steps, on every outcome.  A small calculus of postconditions splits a
  method into its calls; the collection \<open>post_intros\<close> holds its rules.
\<close>

named_theorems post_intros \<open>rules for the calls of the application\<close>

section \<open>Postconditions of commands\<close>

definition post :: "('s, 'e, 'a) cmd \<Rightarrow> 's \<Rightarrow> (('e, 'a) res \<Rightarrow> 's \<Rightarrow> bool) \<Rightarrow> bool" where
  "post m s Q = (case m s of (r, s') \<Rightarrow> Q r s')"

lemma postD: "post m s Q \<Longrightarrow> m s = (r, s') \<Longrightarrow> Q r s'"
  by (simp add: post_def)

lemma post_bindS:
  "post (bindS m f) s Q \<longleftrightarrow> post m s (\<lambda>r s'. case r of
     Ok x \<Rightarrow> post (f x) s' Q | Err e \<Rightarrow> Q (Err e) s' | Panic \<Rightarrow> Q Panic s')"
  by (auto simp: post_def bindS_def split: prod.split res.split)

lemma post_ret [simp]: "post (ret x) s Q = Q (Ok x) s"
  by (simp add: post_def)

lemma post_fail [simp]: "post (fail e) s Q = Q (Err e) s"
  by (simp add: post_def)

lemma post_get_app [simp]: "post get_app s Q = Q (Ok s) s"
  by (simp add: post_def get_app_def)

lemma post_set_state [simp]: "post (set_state st) a Q = Q (Ok ()) (a\<lparr>app_state := st\<rparr>)"
  by (simp add: post_def set_state_def)

lemma post_mono: "post m s Q \<Longrightarrow> (\<And>r s'. Q r s' \<Longrightarrow> Q' r s') \<Longrightarrow> post m s Q'"
  by (auto simp: post_def)

lemma post_run_Ok: "m s = (Ok x, s') \<Longrightarrow> post (bindS m f) s Q = post (f x) s' Q"
  by (simp add: post_def bindS_def)

lemma post_bindI:
  assumes "post m s R" "\<And>x s'. R (Ok x) s' \<Longrightarrow> post (f x) s' Q" "\<And>e s'. R (Err e) s' \<Longrightarrow> Q (Err e) s'"
    "\<And>s'. R Panic s' \<Longrightarrow> Q Panic s'"
  shows "post (bindS m f) s Q"
  unfolding post_bindS using assms by (auto elim!: post_mono split: res.split)

text \<open>
  A call that touches only the interface and the random generator.
\<close>

definition untouched :: "('w, 'r) app \<Rightarrow> ('w, 'r) app \<Rightarrow> bool" where
  "untouched a a' \<longleftrightarrow> app_state a' = app_state a \<and> app_client a' = app_client a \<and>
     app_addr a' = app_addr a \<and> app_config a' = app_config a \<and>
     app_participant_handle a' = app_participant_handle a \<and>
     app_service_handle a' = app_service_handle a \<and> app_bus a' = app_bus a"

lemma untouched_refl [simp]: "untouched a a" "untouched a (a\<lparr>app_iface := w\<rparr>)" "untouched a (a\<lparr>app_rng := r\<rparr>)"
  by (simp_all add: untouched_def)

lemma untouched_trans: "untouched a a' \<Longrightarrow> untouched a' a'' \<Longrightarrow> untouched a a''"
  by (simp add: untouched_def)

definition silent :: "(('w, 'r) app, 'e, 'a) cmd \<Rightarrow> bool" where
  "silent m \<longleftrightarrow> (\<forall>a. untouched a (snd (m a)))"

lemma silentI: "(\<And>a r a'. m a = (r, a') \<Longrightarrow> untouched a a') \<Longrightarrow> silent m"
  unfolding silent_def by (metis prod.collapse)

lemma silentD: "silent m \<Longrightarrow> m a = (r, a') \<Longrightarrow> untouched a a'"
  unfolding silent_def by (metis snd_conv)

lemma silent_basic [simp]:
  "silent (ret x)" "silent (fail e)" "silent crash" "silent (lift_res r)" "silent get_app"
  "silent (on_iface m)" "silent (gen32 E)" "silent (get_ethemeral_port E)" "silent (run_client E p c)"
  by (auto simp: silent_def get_app_def on_iface_def gen32_def get_ethemeral_port_def run_client_def
      split: prod.split)

lemma silent_cmd_err [simp]: "silent m \<Longrightarrow> silent (cmd_err g m)"
  by (auto simp: silent_def cmd_err_def split: prod.split) (metis snd_conv)

lemma silent_bindS:
  assumes "silent m" "\<And>x. silent (f x)"
  shows "silent (bindS m f)"
proof (rule silentI)
  fix a r a' assume "bindS m f a = (r, a')"
  then show "untouched a a'"
    using silentD [OF assms(1), of a] silentD [OF assms(2)] untouched_trans
    by (auto simp: bindS_def split: prod.splits res.splits) blast+
qed

lemma silent_try_recv_envelope [simp]: "silent (app_try_recv_envelope E)"
  unfolding app_try_recv_envelope_def by (intro silent_bindS) simp_all

lemma silent_try_recv_participant_msg [simp]: "silent (try_recv_participant_msg E)"
  unfolding try_recv_participant_msg_def
  by (intro silent_bindS) (auto intro: silent_bindS split: option.split)

lemma silent_try_recv_service_msg [simp]: "silent (try_recv_service_msg E)"
  unfolding try_recv_service_msg_def
  by (intro silent_bindS) (auto intro: silent_bindS split: option.split)

lemma post_silent: "silent m \<Longrightarrow> (\<And>r a'. untouched a a' \<Longrightarrow> Q r a') \<Longrightarrow> post m a Q"
  by (auto simp: post_def dest: silentD split: prod.split)

text \<open>Two rules for a sequence: the calls before the last may only fail or go on.\<close>

lemma post_silent_then:
  assumes "silent m" "\<And>x a'. untouched a a' \<Longrightarrow> m a = (Ok x, a') \<Longrightarrow> post (f x) a' Q"
    "\<And>r a'. untouched a a' \<Longrightarrow> (\<forall>x. r \<noteq> Ok x) \<Longrightarrow> Q r a'"
  shows "post (bindS m f) a Q"
  using assms(2,3) silentD [OF assms(1), of a]
  by (auto simp: post_def bindS_def split: prod.split res.split)

section \<open>The moves of the state machine\<close>

text \<open>
  What a call finds on the participant socket: the handshake message of the peer, a proposal, or at
  least forty bytes, which the configuration is read from.
\<close>

definition handshake_received :: "('w, 'r) platform \<Rightarrow> ('w, 'r) app \<Rightarrow> bool" where
  "handshake_received E a \<longleftrightarrow> (\<exists>env a'. app_try_recv_envelope E a = (Ok (Some env), a') \<and>
     env_msg env = Some (Sendable WAuthResponseMsg))"

definition proposal_received :: "('w, 'r) platform \<Rightarrow> ('w, 'r) app \<Rightarrow> ledger_channel_proposal \<Rightarrow> bool" where
  "proposal_received E a p \<longleftrightarrow> (\<exists>a'. try_recv_participant_msg E a = (Ok (Some (ChannelProposal p)), a'))"

definition config_received :: "('w, 'r) platform \<Rightarrow> ('w, 'r) app \<Rightarrow> bytes \<Rightarrow> bool" where
  "config_received E a x \<longleftrightarrow> 40 \<le> length x \<and> (\<exists>w. tcp_recv (pf_tcp E) (app_participant_handle a)
     (\<lambda>x. if 40 \<le> length x then 40 else 0) (app_iface a) = (Ok x, w))"

text \<open>
  The moves the documentation of \<open>ApplicationState\<close> describes, with what must have been received for
  them.  The configuration that was read is carried along and is the one the channel is opened with.
  An active application hands its channel at most one step; it leaves with the channel closed.
\<close>

definition app_edge :: "('w, 'r) platform \<Rightarrow> ('w, 'r) app \<Rightarrow> application_state \<Rightarrow> bool" where
  "app_edge E a t \<longleftrightarrow> t = app_state a \<or> (case app_state a of
     InitialState \<Rightarrow> t = ConnectingToConfigDealer
   | ConnectingToConfigDealer \<Rightarrow>
       (\<exists>x. config_received E a x \<and> t = ClosingSockets (take 20 x) (take 20 (drop 20 x)))
   | ClosingSockets e r \<Rightarrow> t = Listening e r
   | Listening e r \<Rightarrow> t = WaitForProposal e r \<and> handshake_received E a \<or> t = Connecting e r
   | WaitForProposal e r \<Rightarrow> (\<exists>p ag. proposal_received E a p \<and> t = AppActive e r (AgreedUpon ag) \<and>
       ag_withdraw_receiver ag = r \<and> ag_part_idx ag = 1)
   | Connecting e r \<Rightarrow> t = WaitForHandshake e r
   | WaitForHandshake e r \<Rightarrow> handshake_received E a \<and> (\<exists>i n. t = AppActive e r (Proposed
       (ProposedChannel_new (app_client a) 0 r
         (demo_proposal e (cf_participants (app_config a)) (app_addr a) i n))))
   | AppActive e r ch \<Rightarrow> (\<exists>ch' msgs. demo_step (pf_build E) (pf_ext E) (ch, []) (ch', msgs) \<and>
       (t = AppActive e r ch' \<or> ch' = Closed \<and> t = ClosingSockets e r)))"

text \<open>What no method changes.\<close>

definition same_device :: "('w, 'r) app \<Rightarrow> ('w, 'r) app \<Rightarrow> bool" where
  "same_device a a' \<longleftrightarrow> app_client a' = app_client a \<and> app_addr a' = app_addr a \<and>
     app_config a' = app_config a \<and> app_participant_handle a' = app_participant_handle a \<and>
     app_service_handle a' = app_service_handle a \<and> app_bus a' = app_bus a"

definition moves :: "('w, 'r) platform \<Rightarrow> ('w, 'r) app \<Rightarrow> ('w, 'r) app \<Rightarrow> bool" where
  "moves E a a' \<longleftrightarrow> same_device a a' \<and> app_edge E a (app_state a')"

lemma app_edge_refl [simp]: "app_edge E a (app_state a)" "app_state a = s \<Longrightarrow> app_edge E a s"
  by (simp_all add: app_edge_def)

lemma app_edge_intros [intro]:
  "app_state a = InitialState \<Longrightarrow> app_edge E a ConnectingToConfigDealer"
  "app_state a = ConnectingToConfigDealer \<Longrightarrow> config_received E a x \<Longrightarrow>
    app_edge E a (ClosingSockets (take 20 x) (take 20 (drop 20 x)))"
  "app_state a = ClosingSockets e r \<Longrightarrow> app_edge E a (Listening e r)"
  "app_state a = Listening e r \<Longrightarrow> handshake_received E a \<Longrightarrow> app_edge E a (WaitForProposal e r)"
  "app_state a = Listening e r \<Longrightarrow> app_edge E a (Connecting e r)"
  "app_state a = Connecting e r \<Longrightarrow> app_edge E a (WaitForHandshake e r)"
  by (auto simp: app_edge_def)

lemma untouched_moves [post_intros]: "untouched a a' \<Longrightarrow> moves E a a'"
  by (simp add: untouched_def same_device_def moves_def)

text \<open>A sequence of silent calls that ends with the move to a new state.\<close>

lemma then_moves [post_intros]:
  assumes "silent m" "untouched a0 a"
    "\<And>x a'. untouched a0 a' \<Longrightarrow> m a = (Ok x, a') \<Longrightarrow> post (f x) a' (\<lambda>_. moves E a0)"
  shows "post (bindS m f) a (\<lambda>_. moves E a0)"
proof (rule post_silent_then)
  show "post (f x) a' (\<lambda>_. moves E a0)" if "untouched a a'" "m a = (Ok x, a')" for x a'
    using assms(3) untouched_trans [OF assms(2) that(1)] that(2) by blast
  show "moves E a0 a'" if "untouched a a'" for a'
    using untouched_moves untouched_trans [OF assms(2) that] by blast
qed (rule assms(1))

lemma get_app_moves [post_intros]: "post (f a) a Q \<Longrightarrow> post (bindS get_app f) a Q"
  by (simp add: post_bindS)

lemma set_state_moves [post_intros]:
  "untouched a a' \<Longrightarrow> app_edge E a st \<Longrightarrow>
    post (set_state st) a' (\<lambda>_. moves E a)"
  by (simp add: untouched_def same_device_def moves_def)

lemma run_client_result:
  assumes "run_client E m c a = (r, a')"
  obtains r0 c' msgs w' where "m (c, []) = (r0, (c', msgs))" "a' = a\<lparr>app_iface := w'\<rparr>"
    "r = Panic \<or> r = Ok (r0, c') \<and> r0 \<noteq> Panic"
proof -
  obtain r0 c' msgs where m: "m (c, []) = (r0, (c', msgs))" by (cases "m (c, [])") auto
  show ?thesis
    using assms that [OF m] by (auto simp: run_client_def on_sockets_def on_wire_def m split: prod.splits if_splits)
qed

lemma run_channel_result:
  assumes "run_channel E m e r ch a = (res, a')"
  obtains r0 ch' msgs where "m (ch, []) = (r0, (ch', msgs))"
    "res = Panic \<and> untouched a a' \<or>
     untouched (a\<lparr>app_state := AppActive e r ch'\<rparr>) a' \<and> (res = Ok ch' \<or> (\<exists>er. res = Err er))"
proof -
  obtain r1 :: "(app_error, _) res" and a1 where r1: "run_client E m ch a = (r1, a1)"
    by (cases "run_client E m ch a :: (app_error, _) res \<times> _")
  from r1 obtain r0 ch' msgs w' where m: "m (ch, []) = (r0, (ch', msgs))" "a1 = a\<lparr>app_iface := w'\<rparr>"
    "r1 = Panic \<or> r1 = Ok (r0, ch') \<and> r0 \<noteq> Panic"
    by (rule run_client_result)
  have "res = Panic \<and> untouched a a' \<or>
     untouched (a\<lparr>app_state := AppActive e r ch'\<rparr>) a' \<and> (res = Ok ch' \<or> (\<exists>er. res = Err er))"
    using assms r1 m
    by (cases r0) (auto simp: run_channel_def bindS_def set_state_def untouched_def)
  with m(1) show ?thesis by (rule that)
qed

lemma channel_call_moves:
  assumes "app_state a = AppActive e r ch"
    "\<And>r0 ch' msgs. m (ch, []) = (r0, (ch', msgs)) \<Longrightarrow> demo_step (pf_build E) (pf_ext E) (ch, []) (ch', msgs)"
  shows "post (bindS (run_channel E m e r ch) (\<lambda>_. ret ())) a (\<lambda>_. moves E a)"
proof -
  have "moves E a a'" if c: "run_channel E m e r ch a = (res, a')" for res a'
    using c
  proof (rule run_channel_result)
    fix r0 ch' msgs assume "m (ch, []) = (r0, (ch', msgs))"
      and alt: "res = Panic \<and> untouched a a' \<or>
        untouched (a\<lparr>app_state := AppActive e r ch'\<rparr>) a' \<and> (res = Ok ch' \<or> (\<exists>er. res = Err er))"
    then have "demo_step (pf_build E) (pf_ext E) (ch, []) (ch', msgs)" using assms(2) by blast
    then have "app_edge E a (AppActive e r ch')"
      by (auto simp: app_edge_def assms(1))
    with alt show ?thesis
      by (auto simp: untouched_def same_device_def moves_def assms(1))
  qed
  then show ?thesis
    by (auto simp: post_def bindS_def split: prod.split res.split)
qed

section \<open>Every method makes a move\<close>

lemma connect_config_dealer_moves:
  "app_state a = InitialState \<Longrightarrow> post (connect_config_dealer E) a (\<lambda>_. moves E a)"
  unfolding connect_config_dealer_def by (intro then_moves set_state_moves) auto

lemma on_iface_recv_Ok:
  assumes "cmd_err g (on_iface (socket_recv T h f)) a = (Ok v, a')"
  obtains x w where "v = snd (f x)" "tcp_recv T h (\<lambda>x. fst (f x)) (app_iface a) = (Ok x, w)"
  using assms
  by (auto simp: cmd_err_def on_iface_def socket_recv_def bindS_def split: prod.splits res.splits)

lemma read_config_moves:
  assumes "app_state a = ConnectingToConfigDealer"
  shows "post (wait_connected_and_read_config E) a (\<lambda>_. moves E a)"
proof -
  have close: "post (bindS (set_state (ClosingSockets e r)) (\<lambda>_. on_iface m)) a' (\<lambda>_. moves E a)"
    if "untouched a a'" "app_edge E a (ClosingSockets e r)" for e r m a'
    using that
    by (auto simp: post_def bindS_def set_state_def on_iface_def untouched_def same_device_def moves_def
        split: prod.split)
  let ?f = "\<lambda>x :: bytes. if 40 \<le> length x then (40 :: nat, Some (take 20 x, take 20 (drop 20 x))) else (0, None)"
  have len: "(\<lambda>x. fst (?f x)) = (\<lambda>x. if 40 \<le> length x then 40 else 0)" by auto
  have go: "post (case v of Some (e, r) \<Rightarrow> bindS (set_state (ClosingSockets e r)) (\<lambda>_. on_iface m) | None \<Rightarrow> ret ())
      a' (\<lambda>_. moves E a)"
    if "untouched a a'"
      "cmd_err g (on_iface (socket_recv (pf_tcp E) (app_participant_handle a) ?f)) a = (Ok v, a')" for v a' m g
    using that(2)
  proof (rule on_iface_recv_Ok)
    fix x w
    assume v: "v = snd (?f x)"
      and x: "tcp_recv (pf_tcp E) (app_participant_handle a) (\<lambda>x. fst (?f x)) (app_iface a) = (Ok x, w)"
    have "40 \<le> length x \<Longrightarrow> config_received E a x" using x unfolding len by (auto simp: config_received_def)
    with v that(1) show ?thesis
      by (auto intro!: untouched_moves close app_edge_intros assms split: if_splits)
  qed
  show ?thesis
    unfolding wait_connected_and_read_config_def Let_def
    by (intro get_app_moves) (auto intro!: then_moves go untouched_moves)
qed

lemma connections_closed_moves:
  "app_state a = ClosingSockets e r \<Longrightarrow> post (wait_connections_closed E e r) a (\<lambda>_. moves E a)"
  unfolding wait_connections_closed_def
  by (intro get_app_moves) (auto intro!: post_intros)

lemma incomming_connection_moves:
  "app_state a = Listening e r \<Longrightarrow> post (check_incomming_connection E e r) a (\<lambda>_. moves E a)"
  unfolding check_incomming_connection_def Let_def
  by (intro get_app_moves)
    (auto intro!: post_intros app_edge_intros(4) simp: handshake_received_def
      split: option.split envelope_msg.split w_envelope_msg.split)

lemma connect_moves:
  "app_state a = Listening e r \<Longrightarrow> post (connect E e r) a (\<lambda>_. moves E a)"
  unfolding connect_def Let_def
  by (intro get_app_moves then_moves set_state_moves) auto

lemma send_handshake_moves:
  "app_state a = Connecting e r \<Longrightarrow> post (wait_connected_and_send_handshake E e r) a (\<lambda>_. moves E a)"
  unfolding wait_connected_and_send_handshake_def Let_def
  by (intro get_app_moves) (auto intro!: post_intros split: prod.split)

text \<open>The channel the application opens withdraws to the receiver of the configuration.\<close>

lemma run_client_Ok: "run_client E m c a = (Ok (r0, c'), a') \<Longrightarrow> \<exists>msgs. m (c, []) = (r0, (c', msgs))"
  by (erule run_client_result) auto

lemma accept_proposal_keeps:
  "accept_proposal b n addr (c, bus) = (r, (c', bus')) \<Longrightarrow>
    pr_withdraw_receiver c' = pr_withdraw_receiver c \<and> pr_part_idx c' = pr_part_idx c"
  by (auto simp: accept_proposal_def Let_def bindS_def modify_obj_def on_bus_def
      split: prod.splits res.splits)

lemma build_agreed_keeps:
  "build_agreed b X c = Ok ag \<Longrightarrow>
    ag_withdraw_receiver ag = pr_withdraw_receiver c \<and> ag_part_idx ag = pr_part_idx c"
  by (auto simp: build_agreed_def AgreedUponChannel_new_def bind_res_Ok_iff split: res.splits)

lemma sign_keeps:
  "sign b X (c, bus) = (r, (c', bus')) \<Longrightarrow>
    ag_withdraw_receiver c' = ag_withdraw_receiver c \<and> ag_part_idx c' = ag_part_idx c"
  by (auto simp: sign_def Let_def bindS_def modify_obj_def on_bus_def
      split: prod.splits res.splits if_splits option.splits)

lemma accepted_edge:
  assumes "app_state a = WaitForProposal e r" "try_recv_participant_msg E a = (Ok (Some (ChannelProposal p)), a1)"
    "run_client E (accept_proposal b n addr) (ProposedChannel_new cl 1 r p) a2 = (Ok (ra, c') :: (app_error, _) res, a3)"
    "build_agreed b X c' = Ok ag"
    "run_client E (sign b X) ag a4 = (Ok (rs, ag') :: (app_error, _) res, a5)"
  shows "app_edge E a (AppActive e r (Channel_new_agreed_upon ag'))"
  using assms(1,2) build_agreed_keeps [OF assms(4)]
    run_client_Ok [OF assms(3)] run_client_Ok [OF assms(5)]
  by (auto simp: app_edge_def proposal_received_def Channel_new_agreed_upon_def ProposedChannel_new_def
      dest!: accept_proposal_keeps sign_keeps)

lemma proposal_msg_moves:
  "app_state a = WaitForProposal e r \<Longrightarrow> post (wait_connected_and_proposal_msg E e r) a (\<lambda>_. moves E a)"
  unfolding wait_connected_and_proposal_msg_def handle_proposal_def
  by (intro get_app_moves) (auto intro!: post_intros split: option.split participant_message.split, rule accepted_edge;
      simp)

lemma auth_received:
  assumes "try_recv_participant_msg E a = (Ok (Some Auth), a')"
  shows "handshake_received E a"
  using assms
  by (rule try_recv_participant_msg_of)
    (auto simp: handshake_received_def participant_msg_of_def bind_res_Ok_iff
      split: envelope_msg.splits w_envelope_msg.splits)

lemma propose_channel_result:
  "propose_channel b client p wr bus = (Ok c, bus') \<Longrightarrow> c = ProposedChannel_new client 0 wr p"
  by (auto simp del: bindS_lift simp: propose_channel_def bindS_Ok_iff)

lemma proposed_edge:
  assumes "app_state a = WaitForHandshake e r" "try_recv_participant_msg E a = (Ok (Some Auth), a1)" "untouched a a1"
    "run_client E (on_bus (propose_channel b (app_client a1)
       (demo_proposal e (cf_participants (app_config a1)) (app_addr a1) i n) r)) () a2 =
      (Ok (Ok c, u) :: (app_error, _) res, a3)"
  shows "app_edge E a (AppActive e r (Channel_new c))"
proof -
  have "app_client a1 = app_client a" "app_addr a1 = app_addr a" "app_config a1 = app_config a"
    using assms(3) by (simp_all add: untouched_def)
  then show ?thesis
    using assms(1) auth_received [OF assms(2)] run_client_Ok [OF assms(4)]
    by (auto simp: app_edge_def Channel_new_def on_bus_def split: prod.splits dest!: propose_channel_result)
qed

lemma propose_moves:
  "app_state a = WaitForHandshake e r \<Longrightarrow> post (wait_handshake_and_propose_channel E e r) a (\<lambda>_. moves E a)"
  unfolding wait_handshake_and_propose_channel_def send_channel_proposal_def
  by (auto intro!: post_intros split: option.split participant_message.split) (rule proposed_edge; assumption)

lemma closing_sockets_moves:
  assumes "same_device a a'" "app_edge E a (ClosingSockets e r)"
  shows "post (bindS (on_iface f) (\<lambda>_. bindS (on_iface g) (\<lambda>_.
      bindS (set_state (ClosingSockets e r)) (\<lambda>_. ret True)))) a'
    (\<lambda>res a''. res \<noteq> Ok False \<and> (moves E a a'' \<or> same_device a a'' \<and> app_state a'' = app_state a'))"
  using assms
  by (auto simp: post_def bindS_def on_iface_def set_state_def moves_def same_device_def split: prod.split res.split)

text \<open>What happens with the message once the channel has processed it.\<close>

lemma forward_message_moves:
  assumes a: "app_state a = AppActive e r ch" "untouched a a1"
    and step: "\<And>r0 ch' msgs. p (ch, []) = (r0, (ch', msgs)) \<Longrightarrow>
      demo_step (pf_build E) (pf_ext E) (ch, []) (ch', msgs)"
  shows "post (bindS (run_channel E p e r ch) (\<lambda>ch'. if is_closed ch' then bindS (on_iface f) (\<lambda>_.
      bindS (on_iface g) (\<lambda>_. bindS (set_state (ClosingSockets e r)) (\<lambda>_. ret True))) else ret True)) a1
    (\<lambda>res a'. res \<noteq> Ok False \<and> moves E a a')"
proof -
  obtain res a2 where res: "run_channel E p e r ch a1 = (res, a2)" by (cases "run_channel E p e r ch a1")
  from res obtain r0 ch' msgs where m: "p (ch, []) = (r0, (ch', msgs))"
    and alt: "res = Panic \<and> untouched a1 a2 \<or>
      untouched (a1\<lparr>app_state := AppActive e r ch'\<rparr>) a2 \<and> (res = Ok ch' \<or> (\<exists>er. res = Err er))"
    by (rule run_channel_result)
  note st = step [OF m]
  have stay: "app_edge E a (AppActive e r ch')"
    using st by (auto simp: app_edge_def a(1))
  have leave: "app_edge E a (ClosingSockets e r)" if "is_closed ch'"
    using st that by (auto simp: app_edge_def a(1) is_closed_def split: channel_inner.splits)
  have a2: "moves E a a2" "same_device a a2" "app_edge E a (app_state a2)"
    using alt stay a by (auto simp: untouched_def same_device_def moves_def)
  show ?thesis
  proof (cases "res = Ok ch' \<and> is_closed ch'")
    case True
    have "post (bindS (on_iface f) (\<lambda>_. bindS (on_iface g) (\<lambda>_.
        bindS (set_state (ClosingSockets e r)) (\<lambda>_. ret True)))) a2 (\<lambda>res a'. res \<noteq> Ok False \<and> moves E a a')"
      using closing_sockets_moves [OF a2(2) leave] True a2(3) by (force elim!: post_mono simp: moves_def)
    with res True show ?thesis by (simp add: post_run_Ok)
  next
    case False
    with res alt a2(1) show ?thesis by (auto simp: post_def bindS_def)
  qed
qed

lemma forward_messages_moves:
  assumes "silent recv_fn" "app_state a = AppActive e r ch"
    "\<And>msg a1 r0 ch' msgs. recv_fn a = (Ok (Some msg), a1) \<Longrightarrow> process_fn msg (ch, []) = (r0, (ch', msgs)) \<Longrightarrow>
      demo_step (pf_build E) (pf_ext E) (ch, []) (ch', msgs)"
  shows "post (forward_messages E recv_fn process_fn) a
    (\<lambda>res a'. moves E a a' \<and> (res = Ok False \<longrightarrow> untouched a a'))"
proof -
  let ?Q = "\<lambda>res a'. moves E a a' \<and> (res = Ok False \<longrightarrow> untouched a a')"
  have go: "post (bindS get_app (\<lambda>s. case app_state s of
        AppActive eh wr c \<Rightarrow> bindS (run_channel E (process_fn msg) eh wr c) (\<lambda>c'. if is_closed c' then
            bindS (on_iface (\<lambda>w. (Ok (), tcp_close (pf_tcp E) (app_participant_handle s) w))) (\<lambda>_.
            bindS (on_iface (\<lambda>w. (Ok (), tcp_close (pf_tcp E) (app_service_handle s) w))) (\<lambda>_.
            bindS (set_state (ClosingSockets eh wr)) (\<lambda>_. ret True))) else ret True)
      | _ \<Rightarrow> crash)) a1 ?Q"
    if u: "untouched a a1" and m: "recv_fn a = (Ok (Some msg), a1)" for msg a1
  proof -
    have "app_state a1 = AppActive e r ch" using u assms(2) by (simp add: untouched_def)
    then show ?thesis
      using post_mono [where Q' = ?Q, OF forward_message_moves [OF assms(2) u assms(3) [OF m]]]
      by (intro get_app_moves) auto
  qed
  show ?thesis
    unfolding forward_messages_def
    by (rule post_silent_then [OF assms(1)]) (auto intro: untouched_moves go split: option.split)
qed

lemma forward_to_channel_moves:
  assumes "app_state a = AppActive e r ch"
  shows "post (forward_messages_to_channel E) a (\<lambda>_. moves E a)"
proof -
  let ?service = "\<lambda>a1. post (forward_messages E (try_recv_service_msg E) process_service_msg) a1
    (\<lambda>res a'. moves E a1 a' \<and> (res = Ok False \<longrightarrow> untouched a1 a'))"
  have service: "post (bindS (forward_messages E (try_recv_service_msg E) process_service_msg) (\<lambda>_. ret ())) a1
      (\<lambda>_. moves E a)" if u: "untouched a a1" for a1
  proof -
    have "?service a1"
      using u assms
      by (intro forward_messages_moves [where e = e and r = r and ch = ch])
        (auto simp: untouched_def process_service_msg_def intro: demo_step.intros
          split: service_reply_message.splits)
    moreover have "moves E a1 a' \<Longrightarrow> moves E a a'" for a'
      using u assms by (simp add: moves_def untouched_def same_device_def app_edge_def)
    ultimately show ?thesis by (auto intro: post_bindI [where R = "\<lambda>_. moves E a1"] elim: post_mono)
  qed
  have "post (forward_messages E (try_recv_participant_msg E)
      (process_participant_msg (pf_build E) (pf_ext E))) a
      (\<lambda>res a'. moves E a a' \<and> (res = Ok False \<longrightarrow> untouched a a'))"
    by (rule forward_messages_moves [OF _ assms])
      (auto intro: demo_step.participant_msg received_msg_wf participant_msg_of_wf
        elim!: try_recv_participant_msg_of)
  then show ?thesis
    unfolding forward_messages_to_channel_def
    by (rule post_bindI) (auto intro: service)
qed

end
