(* ===== verification/Demo_App_Props.thy ===== *)
theory Demo_App_Props
  imports Demo_App_Steps
begin

text \<open>
  What the application of the embedded demo guarantees: the moves of its state machine, the
  invariant that carries the guarantees of the channel code to the device, the ports it connects
  from, and what it makes of the replies of the remote services.
\<close>

section \<open>Steps\<close>

text \<open>The public methods with every outcome, and the network stack working in between.\<close>

inductive app_step :: "('w, 'r) platform \<Rightarrow> ('w, 'r) app \<Rightarrow> ('w, 'r) app \<Rightarrow> bool" for E where
  polling: "poll E a = (res, a') \<Longrightarrow> app_step E a a'"
| updating: "app_update E amount is_final a = (res, a') \<Longrightarrow> app_step E a a'"
| force_closing: "app_force_close E a = (res, a') \<Longrightarrow> app_step E a a'"
| proposing: "app_propose_channel E a = (res, a') \<Longrightarrow> app_step E a a'"
| network: "app_step E a (a\<lparr>app_iface := w\<rparr>)"

lemma poll_moves: "poll E a = (res, a') \<Longrightarrow> moves E a a'"
  using connect_config_dealer_moves [of a E] read_config_moves [of a E] connections_closed_moves [of a _ _ E]
    incomming_connection_moves [of a _ _ E] proposal_msg_moves [of a _ _ E] send_handshake_moves [of a _ _ E]
    propose_moves [of a _ _ E] forward_to_channel_moves [of a _ _ _ E]
  by (cases "app_state a") (auto simp: poll_def dest: postD)

lemma update_moves:
  assumes "app_update E amount is_final a = (res, a')"
  shows "moves E a a'"
proof (cases "app_state a")
  case (AppActive e r ch)
  have "post (bindS (run_channel E (channel_update_op (pf_build E) (pf_ext E) amount is_final) e r ch)
      (\<lambda>_. ret ())) a (\<lambda>_. moves E a)"
    by (rule channel_call_moves [OF AppActive]) (rule demo_step.updating)
  then show ?thesis using assms AppActive by (auto simp: app_update_def dest: postD)
qed (use assms in \<open>auto simp: app_update_def intro: untouched_moves\<close>)

lemma force_close_moves:
  assumes "app_force_close E a = (res, a')"
  shows "moves E a a'"
proof (cases "app_state a")
  case (AppActive e r ch)
  have "post (bindS (run_channel E channel_force_close e r ch) (\<lambda>_. ret ())) a (\<lambda>_. moves E a)"
    by (rule channel_call_moves [OF AppActive]) (rule demo_step.force_closing)
  then show ?thesis using assms AppActive by (auto simp: app_force_close_def dest: postD)
qed (use assms in \<open>auto simp: app_force_close_def intro: untouched_moves\<close>)

lemma propose_channel_moves: "app_propose_channel E a = (res, a') \<Longrightarrow> moves E a a'"
  using connect_moves [of a _ _ E]
  by (cases "app_state a") (auto simp: app_propose_channel_def intro: untouched_moves dest: postD)

lemma step_moves: "app_step E a a' \<Longrightarrow> moves E a a'"
  by (erule app_step.cases)
    (auto intro: poll_moves update_moves force_close_moves propose_channel_moves untouched_moves)

section \<open>The invariant\<close>

text \<open>
  What is assumed of the platform: the cryptographic library keeps its promises and the generator
  fills its arrays.  Nothing is assumed of the network stack, of the bytes it delivers or of the
  decoder, so a proposal may name any number of peers.
\<close>

definition platform_ok :: "('w, 'r) platform \<Rightarrow> bool" where
  "platform_ok E \<longleftrightarrow> env_ok (pf_ext E) \<and> (\<forall>r. length (fst (pf_gen32 E r)) = 32)"

definition device_ok :: "('w, 'r) platform \<Rightarrow> ('w, 'r) app \<Rightarrow> bool" where
  "device_ok E a \<longleftrightarrow> signer_ok (pf_ext E) (cl_signer (app_client a)) \<and>
     app_addr a = sg_addr (cl_signer (app_client a))"

text \<open>A state of the application whose configuration is well-formed and whose channel is safe.\<close>

definition state_inv :: "build \<Rightarrow> ext \<Rightarrow> application_state \<Rightarrow> bool" where
  "state_inv b X st = (case st of
     InitialState \<Rightarrow> True
   | ConnectingToConfigDealer \<Rightarrow> True
   | ClosingSockets e r \<Rightarrow> length e = 20
   | Listening e r \<Rightarrow> length e = 20
   | WaitForProposal e r \<Rightarrow> length e = 20
   | Connecting e r \<Rightarrow> length e = 20
   | WaitForHandshake e r \<Rightarrow> length e = 20
   | AppActive e r ch \<Rightarrow> length e = 20 \<and> inner_inv b X ch)"

definition app_inv :: "('w, 'r) platform \<Rightarrow> ('w, 'r) app \<Rightarrow> bool" where
  "app_inv E a \<longleftrightarrow> device_ok E a \<and> state_inv (pf_build E) (pf_ext E) (app_state a)"

text \<open>Opening as the acceptor and as the proposer leads to a safe channel.\<close>

lemma accepted_inv:
  assumes env: "env_ok X" and s: "signer_ok X (cl_signer client)" "addr = sg_addr (cl_signer client)"
    and p: "received_wf (ChannelProposal p)" "length nonce = 32"
    and run: "accept_proposal b nonce addr (ProposedChannel_new client 1 wr p, []) = (ra, (c', msgs))"
      "build_agreed b X c' = Ok ag" "sign b X (ag, []) = (rs, (ag', msgs'))"
  shows "agreed_inv b X ag'"
proof -
  let ?acc = "\<lparr>la_proposal_id = lp_proposal_id p, la_nonce_share = nonce, la_participant = addr\<rparr>"
  have ok: "proposal_ok p" using p by (simp add: proposal_ok_def received_wf_def)
  have c: "client = PerunClient_new (cl_signer client)" by (simp add: PerunClient_new_def)
  have addr: "length addr = 20"
    using env s unfolding signer_ok_def env_ok_def crypto_spec_def by (blast intro: Address_from_vk_length)
  then have acc: "proposal_acc_wf ?acc" using p ok by (simp add: proposal_acc_wf_def proposal_ok_def)
  have c': "c' = (ProposedChannel_new client 1 wr p)\<lparr>pr_responses := [Some ?acc]\<rparr>"
    using accept_proposal_sends [of "ProposedChannel_new client 1 wr p" None b nonce addr "[]"] run(1)
    by (simp add: ProposedChannel_new_def Let_def)
  have ag: "ag = AgreedUponChannel_new client (lp_funding_agreement p) 1 wr
      (opened_state X p ?acc) (opened_params X p ?acc) (lp_peers p)"
    using build_agreed_Ok [OF env, of c' ?acc b] run(2) ok acc by (simp add: c' ProposedChannel_new_def)
  have "agreed_ok X ag"
    unfolding ag using opened_agreed_ok [OF env ok acc s(1), of 1] s(2) c by simp
  moreover have "ag_signatures ag = [None, None]"
    by (simp add: ag AgreedUponChannel_new_def PARTICIPANTS_def numeral_2_eq_2)
  ultimately have inv: "agreed_inv b X ag" using env by (auto simp: agreed_inv_def less_2_cases_iff)
  show ?thesis by (rule agreed_inv_step [OF inv agreed_step.signing [OF run(3)]])
qed

lemma proposed_inv:
  assumes "env_ok X" "signer_ok X (cl_signer client)" "addr = sg_addr (cl_signer client)"
    "length e = 20" "length i = 32" "length n = 32"
    "propose_channel b client (demo_proposal e peers addr i n) wr bus = (Ok c, bus')"
  shows "proposed_ok X c"
proof -
  have addr: "length addr = 20"
    using assms(1-3) unfolding signer_ok_def env_ok_def crypto_spec_def by (blast intro: Address_from_vk_length)
  have "c = ProposedChannel_new client 0 wr (demo_proposal e peers addr i n)"
    using assms(7) by (rule propose_channel_result)
  then show ?thesis
    using assms addr
    by (simp add: proposed_ok_def ProposedChannel_new_def demo_proposal_def Let_def proposal_ok_def
        Allocation_new_def allocation_wf_def)
qed

lemma gen32_length:
  "platform_ok E \<Longrightarrow> gen32 E a = (Ok x, a') \<Longrightarrow> length x = 32"
  unfolding platform_ok_def gen32_def by (auto split: prod.splits) (metis fst_conv)

lemma received_proposal_wf:
  assumes "try_recv_participant_msg E a = (Ok (Some (ChannelProposal p)), a')"
  shows "received_wf (ChannelProposal p)"
  using assms by (rule try_recv_participant_msg_of) (rule participant_msg_of_wf)

text \<open>A move into the active state is made with a safe channel.\<close>

definition entry_ok :: "('w, 'r) platform \<Rightarrow> ('w, 'r) app \<Rightarrow> bool" where
  "entry_ok E a = (case app_state a of AppActive _ _ ch \<Rightarrow> inner_inv (pf_build E) (pf_ext E) ch | _ \<Rightarrow> True)"

lemma then_entry:
  assumes "silent m" "untouched a0 a" "\<And>e r ch. app_state a0 \<noteq> AppActive e r ch"
    "\<And>x a'. untouched a0 a' \<Longrightarrow> m a = (Ok x, a') \<Longrightarrow> post (f x) a' (\<lambda>_. entry_ok E)"
  shows "post (bindS m f) a (\<lambda>_. entry_ok E)"
proof (rule post_silent_then)
  show "post (f x) a' (\<lambda>_. entry_ok E)" if "untouched a a'" "m a = (Ok x, a')" for x a'
    using assms(4) untouched_trans [OF assms(2) that(1)] that(2) by blast
  show "entry_ok E a'" if "untouched a a'" for a'
    using untouched_trans [OF assms(2) that] assms(3)
    by (auto simp: entry_ok_def untouched_def split: application_state.split)
qed (rule assms(1))

lemma entry_untouched:
  "untouched a0 a \<Longrightarrow> (\<And>e r ch. app_state a0 \<noteq> AppActive e r ch) \<Longrightarrow> entry_ok E a"
  by (auto simp: entry_ok_def untouched_def split: application_state.split)

lemma proposal_msg_entry:
  assumes E: "platform_ok E" and inv: "app_inv E a" and st: "app_state a = WaitForProposal e r"
  shows "post (wait_connected_and_proposal_msg E e r) a (\<lambda>_. entry_ok E)"
proof -
  have env: "env_ok (pf_ext E)" using E by (simp add: platform_ok_def)
  have dev: "signer_ok (pf_ext E) (cl_signer (app_client a))" "app_addr a = sg_addr (cl_signer (app_client a))"
    using inv by (simp_all add: app_inv_def device_ok_def)
  have final: "entry_ok E (a'\<lparr>app_state := AppActive e r (Channel_new_agreed_upon ag')\<rparr>)"
    if "try_recv_participant_msg E a1 = (Ok (Some (ChannelProposal p)), a2)" "gen32 E a3 = (Ok nonce :: (app_error, _) res, a4)"
      "run_client E (accept_proposal (pf_build E) nonce (app_addr a))
         (ProposedChannel_new (app_client a) (Suc 0) r p) a4 = (Ok (ra, c') :: (app_error, _) res, a5)"
      "build_agreed (pf_build E) (pf_ext E) c' = Ok ag"
      "run_client E (sign (pf_build E) (pf_ext E)) ag a6 = (Ok (rs, ag') :: (app_error, _) res, a7)"
    for a1 p a2 a3 nonce a4 ra c' a5 ag a6 rs ag' a7 a'
    using accepted_inv [OF env dev received_proposal_wf [OF that(1)] gen32_length [OF E that(2)]]
      run_client_Ok [OF that(3)] that(4) run_client_Ok [OF that(5)]
    by (auto simp: entry_ok_def Channel_new_agreed_upon_def)
  have act: "app_state a \<noteq> AppActive e' r' ch" for e' r' ch using st by simp
  have stay: "untouched a a' \<Longrightarrow> entry_ok E a'" for a'
    using entry_untouched [of a a' E] act by blast
  show ?thesis
    unfolding wait_connected_and_proposal_msg_def
    by (intro get_app_moves)
      (auto simp: handle_proposal_def stay intro!: then_entry [where ?a0.0 = a] act
        split: option.split participant_message.split, rule final; assumption)
qed

lemma propose_entry:
  assumes E: "platform_ok E" and inv: "app_inv E a" and st: "app_state a = WaitForHandshake e r"
  shows "post (wait_handshake_and_propose_channel E e r) a (\<lambda>_. entry_ok E)"
proof -
  have env: "env_ok (pf_ext E)" using E by (simp add: platform_ok_def)
  have dev: "signer_ok (pf_ext E) (cl_signer (app_client a))" "app_addr a = sg_addr (cl_signer (app_client a))"
    "length e = 20"
    using inv st by (simp_all add: app_inv_def device_ok_def state_inv_def)
  have final: "entry_ok E (a'\<lparr>app_state := AppActive e r (Channel_new c)\<rparr>)"
    if "run_client E (on_bus (propose_channel (pf_build E) (app_client aq)
         (demo_proposal e ps (app_addr aq) i n) r)) () a3 = (Ok (Ok c, u) :: (app_error, _) res, a4)"
      "untouched a aq" "gen32 E aq = (Ok i :: (app_error, _) res, a2)"
      "gen32 E a2 = (Ok n :: (app_error, _) res, a3)"
    for aq i a2 n a3 c u a4 a' ps
  proof -
    have "app_client aq = app_client a" "app_addr aq = app_addr a" using that(2) by (simp_all add: untouched_def)
    then show ?thesis
      using proposed_inv [OF env dev gen32_length [OF E that(3)] gen32_length [OF E that(4)]]
        run_client_Ok [OF that(1)]
      by (auto simp: entry_ok_def Channel_new_def on_bus_def split: prod.splits)
  qed
  have act: "app_state a \<noteq> AppActive e' r' ch" for e' r' ch using st by simp
  have stay: "untouched a a' \<Longrightarrow> entry_ok E a'" for a'
    using entry_untouched [of a a' E] act by blast
  show ?thesis
    unfolding wait_handshake_and_propose_channel_def send_channel_proposal_def
    by (auto simp: stay intro!: then_entry [where ?a0.0 = a] get_app_moves act
        split: option.split participant_message.split) (rule final; assumption)
qed

lemma entry_inv:
  assumes "moves E a a'" "entry_ok E a'" "app_inv E a" "\<And>e r ch. app_state a \<noteq> AppActive e r ch"
  shows "app_inv E a'"
  using assms
  by (auto simp: moves_def same_device_def app_inv_def device_ok_def state_inv_def app_edge_def entry_ok_def
      config_received_def split: application_state.splits)

lemma active_inv:
  assumes "moves E a a'" "app_inv E a" "platform_ok E" "app_state a = AppActive e r ch"
  shows "app_inv E a'"
proof -
  have "demo_inv (pf_build E) (pf_ext E) (ch, [])"
    using assms(2-4) by (simp add: app_inv_def state_inv_def demo_inv_def platform_ok_def)
  then have "demo_inv (pf_build E) (pf_ext E) (ch', msgs)"
    if "demo_step (pf_build E) (pf_ext E) (ch, []) (ch', msgs)" for ch' msgs using that by (rule demo_inv_step)
  then have "inner_inv (pf_build E) (pf_ext E) ch'"
    if "demo_step (pf_build E) (pf_ext E) (ch, []) (ch', msgs)" for ch' msgs
    using that by (simp add: demo_inv_def)
  then show ?thesis
    using assms by (auto simp: moves_def same_device_def app_inv_def device_ok_def state_inv_def app_edge_def)
qed

lemma other_calls_fail:
  assumes "app_state a = WaitForProposal e r \<or> app_state a = WaitForHandshake e r"
  shows "app_update E amount is_final a = (Err AE_InvalidState, a)"
    "app_force_close E a = (Err AE_InvalidState, a)" "app_propose_channel E a = (Err AE_InvalidState, a)"
  using assms by (auto simp: app_update_def app_force_close_def app_propose_channel_def)

lemma step_entry:
  assumes "platform_ok E" "app_inv E a" "app_step E a a'" "\<And>e r ch. app_state a \<noteq> AppActive e r ch"
  shows "entry_ok E a'"
proof (cases "\<exists>e r. app_state a = WaitForProposal e r \<or> app_state a = WaitForHandshake e r")
  case True
  have here: "entry_ok E a" using entry_untouched [of a a E] assms(4) by simp
  from True obtain e r where st: "app_state a = WaitForProposal e r \<or> app_state a = WaitForHandshake e r" by blast
  have "entry_ok E a''" if "poll E a = (res, a'')" for res a''
    using st that postD [OF proposal_msg_entry [OF assms(1,2)]] postD [OF propose_entry [OF assms(1,2)]]
    by (auto simp: poll_def)
  with assms(3) show ?thesis
    using here by (cases rule: app_step.cases) (simp_all add: other_calls_fail [OF st] entry_ok_def)
next
  case False
  then show ?thesis
    using step_moves [OF assms(3)] assms(4)
    by (auto simp: moves_def app_edge_def entry_ok_def split: application_state.splits)
qed

lemma app_inv_step:
  assumes "platform_ok E" "app_inv E a" "app_step E a a'"
  shows "app_inv E a'"
proof (cases "\<exists>e r ch. app_state a = AppActive e r ch")
  case True
  then show ?thesis using active_inv [OF step_moves [OF assms(3)] assms(2,1)] by blast
next
  case False
  then have na: "app_state a \<noteq> AppActive e r ch" for e r ch by blast
  show ?thesis by (rule entry_inv [OF step_moves [OF assms(3)] step_entry [OF assms na] assms(2) na])
qed

interpretation app: invariant_system "app_step E" "\<lambda>a. platform_ok E \<and> app_inv E a" for E
  by unfold_locales (auto intro: app_inv_step)

lemma app_inv_safe:
  assumes "platform_ok E" "app_inv E a" "app_state a = AppActive e r ch"
  shows "(case ch of
       Signed sc _ _ \<Rightarrow> open_ok (pf_build E) (pf_ext E) (mark_funded sc)
     | Active c _ \<Rightarrow> open_ok (pf_build E) (pf_ext E) c
     | Closing c \<Rightarrow> open_ok (pf_build E) (pf_ext E) c
     | _ \<Rightarrow> True) \<and>
    (\<forall>ch' msgs. demo_step (pf_build E) (pf_ext E) (ch, []) (ch', msgs) \<longrightarrow>
      bus_ok (pf_build E) (pf_ext E) msgs)"
proof -
  have inner: "inner_inv (pf_build E) (pf_ext E) ch"
    using assms(2,3) by (simp add: app_inv_def state_inv_def)
  then have "demo_inv (pf_build E) (pf_ext E) (ch, [])"
    using assms(1) by (simp add: demo_inv_def platform_ok_def)
  then have "demo_step (pf_build E) (pf_ext E) (ch, []) (ch', msgs) \<Longrightarrow>
      bus_ok (pf_build E) (pf_ext E) msgs" for ch' msgs
    using demo_inv_step [of "pf_build E" "pf_ext E" "(ch, [])" "(ch', msgs)"] by (simp add: demo_inv_def)
  then show ?thesis using inner by (auto split: channel_inner.split dest: inner_inv_Active)
qed

text \<open>
  C13: the guarantees of the channel reach the device.  From a freshly created application whose
  address is that of its signer, whatever bytes the network delivers (proposals with any number of
  peers included) and whichever buttons are pressed, in any order and with any outcome: when the
  application holds a channel that is signed, active or closing, its state carries a valid signature
  of each participant.  Whatever the channel hands to the services in its next step is covered by
  such signatures: each watch request, dispute, registration and withdrawal carries them, and funding
  is requested only after a watch request that carries both signatures on the very state to be
  funded.
\<close>

theorem device_safe:
  assumes "platform_ok E" "signer_ok (pf_ext E) s"
    "(app_step E)\<^sup>*\<^sup>* (Application_new ph sh cfg rng (sg_addr s) (PerunClient_new s) sb w) a"
    "app_state a = AppActive e r ch"
  shows "(case ch of
       Signed sc _ _ \<Rightarrow> open_ok (pf_build E) (pf_ext E) (mark_funded sc)
     | Active c _ \<Rightarrow> open_ok (pf_build E) (pf_ext E) c
     | Closing c \<Rightarrow> open_ok (pf_build E) (pf_ext E) c
     | _ \<Rightarrow> True) \<and>
    (\<forall>ch' msgs. demo_step (pf_build E) (pf_ext E) (ch, []) (ch', msgs) \<longrightarrow>
      bus_ok (pf_build E) (pf_ext E) msgs)"
proof -
  have "app_inv E (Application_new ph sh cfg rng (sg_addr s) (PerunClient_new s) sb w)"
    using assms(2) by (simp add: app_inv_def device_ok_def Application_new_def PerunClient_new_def state_inv_def)
  then have "app_inv E a" using app.reachable_inv [OF assms(3)] assms(1) by blast
  with assms(1) show ?thesis using assms(4) by (rule app_inv_safe)
qed

section \<open>The moves\<close>

definition config_of :: "application_state \<Rightarrow> (address \<times> address) option" where
  "config_of st = (case st of
     InitialState \<Rightarrow> None
   | ConnectingToConfigDealer \<Rightarrow> None
   | ClosingSockets e r \<Rightarrow> Some (e, r)
   | Listening e r \<Rightarrow> Some (e, r)
   | WaitForProposal e r \<Rightarrow> Some (e, r)
   | Connecting e r \<Rightarrow> Some (e, r)
   | WaitForHandshake e r \<Rightarrow> Some (e, r)
   | AppActive e r _ \<Rightarrow> Some (e, r))"

lemma edge_config: "app_edge E a t \<Longrightarrow> config_of (app_state a) = Some c \<Longrightarrow> config_of t = Some c"
  by (auto simp: app_edge_def config_of_def split: application_state.splits)

lemma edge_new_config:
  assumes "app_edge E a t" "config_of (app_state a) = None" "config_of t = Some (e, r)"
  shows "app_state a = ConnectingToConfigDealer \<and>
    (\<exists>x. config_received E a x \<and> e = take 20 x \<and> r = take 20 (drop 20 x))"
  using assms by (auto simp: app_edge_def config_of_def split: application_state.splits)

lemma steps_config:
  assumes "(app_step E)\<^sup>*\<^sup>* a a'" "config_of (app_state a) = Some c"
  shows "config_of (app_state a') = Some c"
  using assms
proof (induction rule: rtranclp_induct)
  case (step y z)
  then show ?case using step_moves [OF step.hyps(2)] edge_config unfolding moves_def by blast
qed

lemma config_was_received:
  assumes "(app_step E)\<^sup>*\<^sup>* a0 a" "config_of (app_state a0) = None" "config_of (app_state a) = Some (e, r)"
  shows "\<exists>a1 x. (app_step E)\<^sup>*\<^sup>* a0 a1 \<and> (app_step E)\<^sup>*\<^sup>* a1 a \<and> app_state a1 = ConnectingToConfigDealer \<and>
    config_received E a1 x \<and> e = take 20 x \<and> r = take 20 (drop 20 x)"
  using assms
proof (induction rule: rtranclp_induct)
  case (step y z)
  have yz: "app_edge E y (app_state z)" using step_moves [OF step.hyps(2)] by (simp add: moves_def)
  show ?case
  proof (cases "config_of (app_state y)")
    case None
    from edge_new_config [OF yz this step.prems(2)] step.hyps show ?thesis by blast
  next
    case (Some c)
    with edge_config [OF yz Some] step.prems(2) have "config_of (app_state y) = Some (e, r)" by simp
    with step.IH step.prems(1) step.hyps(2) show ?thesis by (meson rtranclp.rtrancl_into_rtrancl)
  qed
qed simp

text \<open>A connection on which the peer has shaken hands, and a channel on one.\<close>

definition shaken :: "application_state \<Rightarrow> bool" where
  "shaken st = (case st of WaitForProposal _ _ \<Rightarrow> True | AppActive _ _ _ \<Rightarrow> True | _ \<Rightarrow> False)"

lemma edge_shaken: "app_edge E a t \<Longrightarrow> shaken t \<Longrightarrow> shaken (app_state a) \<or> handshake_received E a"
  by (auto simp: app_edge_def shaken_def split: application_state.splits)

lemma handshake_was_received:
  assumes "(app_step E)\<^sup>*\<^sup>* a0 a" "\<not> shaken (app_state a0)" "shaken (app_state a)"
  shows "\<exists>a1. (app_step E)\<^sup>*\<^sup>* a0 a1 \<and> (app_step E)\<^sup>*\<^sup>* a1 a \<and> handshake_received E a1"
  using assms
proof (induction rule: rtranclp_induct)
  case (step y z)
  have yz: "app_edge E y (app_state z)" using step_moves [OF step.hyps(2)] by (simp add: moves_def)
  from edge_shaken [OF yz step.prems(2)] show ?case
  proof
    assume "shaken (app_state y)"
    with step.IH step.prems(1) step.hyps(2) show ?thesis by (meson rtranclp.rtrancl_into_rtrancl)
  qed (use step.hyps in blast)
qed simp

text \<open>
  C19: the application makes only the documented moves.  Every call, with whatever outcome, leaves
  the client, the address, the configuration and the sockets alone and moves along an edge of the
  documented state machine.  It waits for a proposal only when this call received the peer's
  handshake message, and proposes (its fixed balances in the configured asset holder, withdrawing to
  the configured receiver) only when this call did; it accepts only when this call received a
  proposal.  An active application hands its channel at most one step of the channel's own state
  machine, and leaves the active state only when that step closed the channel.  The asset holder and
  the receiver of the withdrawals never change once read; in a run from the initial state they are
  the first and the second twenty bytes the configuration connection delivered, and a channel
  exists only after the peer's handshake message was received.
\<close>

theorem device_moves:
  "(app_step E a a' \<longrightarrow> same_device a a' \<and> app_edge E a (app_state a')) \<and>
   ((app_step E)\<^sup>*\<^sup>* a a' \<longrightarrow>
     (config_of (app_state a) = Some c \<longrightarrow> config_of (app_state a') = Some c) \<and>
     (app_state a = InitialState \<and> config_of (app_state a') = Some (e, r) \<longrightarrow>
       (\<exists>a1 x. (app_step E)\<^sup>*\<^sup>* a a1 \<and> (app_step E)\<^sup>*\<^sup>* a1 a' \<and> app_state a1 = ConnectingToConfigDealer \<and>
         config_received E a1 x \<and> e = take 20 x \<and> r = take 20 (drop 20 x))) \<and>
     (app_state a = InitialState \<and> app_state a' = AppActive e r ch \<longrightarrow>
       (\<exists>a1. (app_step E)\<^sup>*\<^sup>* a a1 \<and> (app_step E)\<^sup>*\<^sup>* a1 a' \<and> handshake_received E a1)))"
proof (intro conjI impI)
  assume "app_step E a a'"
  then show "same_device a a'" "app_edge E a (app_state a')" using step_moves by (auto simp: moves_def)
next
  assume "(app_step E)\<^sup>*\<^sup>* a a'" "config_of (app_state a) = Some c"
  then show "config_of (app_state a') = Some c" by (rule steps_config)
next
  assume "(app_step E)\<^sup>*\<^sup>* a a'" "app_state a = InitialState \<and> config_of (app_state a') = Some (e, r)"
  then show "\<exists>a1 x. (app_step E)\<^sup>*\<^sup>* a a1 \<and> (app_step E)\<^sup>*\<^sup>* a1 a' \<and> app_state a1 = ConnectingToConfigDealer \<and>
      config_received E a1 x \<and> e = take 20 x \<and> r = take 20 (drop 20 x)"
    by (intro config_was_received) (auto simp: config_of_def)
next
  assume "(app_step E)\<^sup>*\<^sup>* a a'" "app_state a = InitialState \<and> app_state a' = AppActive e r ch"
  then show "\<exists>a1. (app_step E)\<^sup>*\<^sup>* a a1 \<and> (app_step E)\<^sup>*\<^sup>* a1 a' \<and> handshake_received E a1"
    by (intro handshake_was_received) (auto simp: shaken_def)
qed

section \<open>Ports\<close>

text \<open>
  \<open>get_ethemeral_port\<close> never overflows: it returns in either build profile, with a port from 49152 up
  to but not including 65535, and changes nothing but the random generator.
\<close>

lemma port_in_range:
  "\<exists>p g. get_ethemeral_port E a = (Ok p :: ('e, u16) res, a\<lparr>app_rng := g\<rparr>) \<and> 49152 \<le> unat p \<and> unat p < 65535"
proof -
  obtain x g where x: "pf_next_u32 E (app_rng a) = (x, g)" by (cases "pf_next_u32 E (app_rng a)")
  let ?m = "ucast x mod (65535 - 49152) :: u16"
  have "unat ?m = unat (ucast x :: u16) mod 16383" by (simp add: unat_mod_distrib)
  then have m: "unat ?m < 16383" by simp
  have s: "unat (49152 + ?m) = 49152 + unat ?m"
    using m by (subst unat_add_lem [THEN iffD1]) simp_all
  have "get_ethemeral_port E a = (Ok (49152 + ?m) :: ('e, u16) res, a\<lparr>app_rng := g\<rparr>)"
    using m by (simp add: get_ethemeral_port_def x u16_add_def)
  with m s show ?thesis by (intro exI [of _ "49152 + ?m"] exI [of _ g]) simp
qed

section \<open>A run of the application\<close>

text \<open>The application on the toy platform, where every envelope is a handshake.\<close>

abbreviation hello :: "(toy_net, nat) platform" where
  "hello \<equiv> toy_platform (toy_envelope (Sendable WAuthResponseMsg)) None"

abbreviation toy_wire :: "bytes \<Rightarrow> toy_net" where
  "toy_wire rx \<equiv> \<lparr>tn_rx = (\<lambda>h. if h = 0 then rx else []), tn_tx = (\<lambda>_. [])\<rparr>"

lemma hello_ok: "platform_ok hello"
  by (auto simp: platform_ok_def toy_platform_def env_ok_def toy_u256_spec toy_crypto_spec)

lemma toy_port:
  obtains p g where "get_ethemeral_port E a = (Ok p :: (app_error, u16) res, a\<lparr>app_rng := g\<rparr>)"
  using port_in_range [where ?'e = app_error] by metis

lemma run_connects: "app_state a = InitialState \<Longrightarrow> app_state (snd (poll hello a)) = ConnectingToConfigDealer"
  by (rule toy_port [of hello a])
    (simp add: poll_def connect_config_dealer_def bindS_def get_app_def set_state_def cmd_err_def on_iface_def
      toy_tcp_def)

lemma run_reads_config:
  "app_state a = ConnectingToConfigDealer \<Longrightarrow> app_participant_handle a = 0 \<Longrightarrow>
    app_iface a = toy_wire (replicate 40 1) \<Longrightarrow>
    app_state (snd (poll hello a)) = ClosingSockets (replicate 20 1) (replicate 20 1)"
  by (simp add: poll_def wait_connected_and_read_config_def bindS_def get_app_def set_state_def cmd_err_def
      on_iface_def socket_recv_def toy_tcp_def Let_def)

lemma run_listens:
  "app_state a = ClosingSockets e r \<Longrightarrow> app_iface a = toy_wire [] \<Longrightarrow>
    app_state (snd (poll hello a)) = Listening e r"
  by (simp add: poll_def wait_connections_closed_def bindS_def get_app_def set_state_def cmd_err_def
      on_iface_def toy_tcp_def)

lemma run_proposes:
  assumes "app_state a = Listening e r"
  shows "app_state (snd (app_propose_channel hello a)) = Connecting e r"
proof -
  obtain p1 g1 where "get_ethemeral_port hello a = (Ok p1 :: (app_error, u16) res, a\<lparr>app_rng := g1\<rparr>)"
    by (rule toy_port)
  moreover obtain p2 g2 where "get_ethemeral_port hello (a\<lparr>app_rng := g1\<rparr>) =
      (Ok p2 :: (app_error, u16) res, a\<lparr>app_rng := g1, app_rng := g2\<rparr>)"
    by (rule toy_port)
  ultimately show ?thesis
    using assms
    by (simp add: app_propose_channel_def connect_def bindS_def get_app_def set_state_def cmd_err_def
        on_iface_def toy_tcp_def Let_def)
qed

lemma run_greets:
  "app_state a = Connecting e r \<Longrightarrow> app_participant_handle a = 0 \<Longrightarrow> app_iface a = toy_wire (framed [2]) \<Longrightarrow>
    app_state (snd (poll hello a)) = WaitForHandshake e r"
  by (simp add: poll_def wait_connected_and_send_handshake_def bindS_def get_app_def set_state_def on_iface_def
      run_client_def on_sockets_def on_wire_def on_bus_def send_handshake_msg_def send_to_participant_def
      pb_send_def pb_send_to_participant_def frame_def sb_deliver_def sb_send_to_participant_def bus_send_def
      toy_tcp_def Let_def framed_def split: prod.split)

lemma run_opens:
  assumes "app_state a = WaitForHandshake e r" "app_participant_handle a = 0"
    "app_iface a = toy_wire (framed [2])"
  shows "\<exists>c. app_state (snd (poll hello a)) = AppActive e r (Proposed c)"
proof -
  have v: "be_val [0, 1] = 1" by (simp add: be_val_def)
  have f: "framed [2] = [0, 1, 2]" by (simp add: framed_def be_bytes_2)
  let ?a1 = "a\<lparr>app_iface := \<lparr>tn_rx = (\<lambda>_. []), tn_tx = (\<lambda>_. [])\<rparr>\<rparr>"
  have "app_try_recv_envelope hello a = (Ok (Some (toy_envelope (Sendable WAuthResponseMsg))), ?a1)"
    using assms(2,3)
    by (simp add: app_try_recv_envelope_def bindS_def get_app_def on_iface_def
        try_recv_def toy_tcp_def f v socket_recv_def cmd_err_def MAX_MESSAGE_SIZE_def Let_def min_def fun_eq_iff)
  then have recv: "try_recv_participant_msg hello a = (Ok (Some Auth), ?a1)"
    by (simp add: try_recv_participant_msg_def bindS_def participant_msg_of_def)
  have check: "check_valid_proposal b (demo_proposal e ps addr i n) = Ok ()" for b ps addr i n
    by (simp add: check_valid_proposal_def demo_proposal_def Let_def Allocation_new_def debug_assert_valid_def
        index_def MAX_NUM_ASSETS_def MAX_NUM_PARTICIPANTS_def)
  have peers: "lp_peers (demo_proposal e ps addr i n) = [fst ps, snd ps]" for ps addr i n
    by (simp add: demo_proposal_def Let_def)
  show ?thesis
    using assms(1)
    by (simp add: poll_def wait_handshake_and_propose_channel_def bindS_def recv send_channel_proposal_def
        get_app_def gen32_def run_client_def on_sockets_def on_wire_def on_bus_def propose_channel_def check peers
        pb_send_def pb_send_to_participant_def frame_def sb_deliver_def sb_send_to_participant_def bus_send_def
        toy_tcp_def set_state_def Channel_new_def split: prod.split)
qed

lemma poll_step: "app_step E a (snd (poll E a))"
  by (rule app_step.polling [of E a "fst (poll E a)"]) simp

lemma propose_step: "app_step E a (snd (app_propose_channel E a))"
  by (rule app_step.proposing [of E a "fst (app_propose_channel E a)"]) simp

text \<open>One poll after the network has delivered something.\<close>

lemma deliver_and_poll: "(app_step E)\<^sup>*\<^sup>* a0 a \<Longrightarrow> (app_step E)\<^sup>*\<^sup>* a0 (snd (poll E (a\<lparr>app_iface := w\<rparr>)))"
  using app_step.network [of E a w] poll_step [of E "a\<lparr>app_iface := w\<rparr>"] by (meson rtranclp.rtrancl_into_rtrancl)

lemma reachable_same_device: "(app_step E)\<^sup>*\<^sup>* a0 a \<Longrightarrow> same_device a0 a"
  by (induction rule: rtranclp_induct) (auto dest!: step_moves simp: moves_def same_device_def)

lemma reachable_handle:
  "(app_step E)\<^sup>*\<^sup>* a0 a \<Longrightarrow> app_participant_handle a = app_participant_handle a0"
  using reachable_same_device by (auto simp: same_device_def)

definition toy_start :: "(toy_net, nat) app" where
  "toy_start = Application_new 0 1 (app_config (toy_app InitialState [] [])) 0 (sg_addr (toy_signer 7))
     (PerunClient_new (toy_signer 7)) \<lparr>sb_participant_handle = 0, sb_service_handle = 1\<rparr> (toy_wire [])"

lemma toy_run:
  obtains a c where "(app_step hello)\<^sup>*\<^sup>* toy_start a"
    "app_state a = AppActive (replicate 20 1) (replicate 20 1) (Proposed c)"
proof -
  let ?go = "\<lambda>a rx. snd (poll hello (a\<lparr>app_iface := toy_wire rx\<rparr>))"
  define a1 where "a1 = ?go toy_start []"
  define a2 where "a2 = ?go a1 (replicate 40 1)"
  define a3 where "a3 = ?go a2 []"
  define a4 where "a4 = snd (app_propose_channel hello a3)"
  define a5 where "a5 = ?go a4 (framed [2])"
  define a6 where "a6 = ?go a5 (framed [2])"
  have s1: "(app_step hello)\<^sup>*\<^sup>* toy_start a1" unfolding a1_def by (intro deliver_and_poll) simp
  have s2: "(app_step hello)\<^sup>*\<^sup>* toy_start a2" unfolding a2_def by (intro deliver_and_poll s1)
  have s3: "(app_step hello)\<^sup>*\<^sup>* toy_start a3" unfolding a3_def by (intro deliver_and_poll s2)
  have s4: "(app_step hello)\<^sup>*\<^sup>* toy_start a4"
    unfolding a4_def using s3 propose_step by (rule rtranclp.rtrancl_into_rtrancl)
  have s5: "(app_step hello)\<^sup>*\<^sup>* toy_start a5" unfolding a5_def by (intro deliver_and_poll s4)
  have s6: "(app_step hello)\<^sup>*\<^sup>* toy_start a6" unfolding a6_def by (intro deliver_and_poll s5)
  note h = reachable_handle [OF s1] reachable_handle [OF s4] reachable_handle [OF s5]
  have start: "app_state toy_start = InitialState" "app_participant_handle toy_start = 0"
    by (simp_all add: toy_start_def Application_new_def)
  have "app_state a1 = ConnectingToConfigDealer"
    unfolding a1_def by (rule run_connects) (simp add: start)
  then have "app_state a2 = ClosingSockets (replicate 20 1) (replicate 20 1)"
    unfolding a2_def using h start by (intro run_reads_config) simp_all
  then have "app_state a3 = Listening (replicate 20 1) (replicate 20 1)"
    unfolding a3_def by (intro run_listens) simp_all
  then have "app_state a4 = Connecting (replicate 20 1) (replicate 20 1)"
    unfolding a4_def by (rule run_proposes)
  then have "app_state a5 = WaitForHandshake (replicate 20 1) (replicate 20 1)"
    unfolding a5_def using h start by (intro run_greets) simp_all
  then have "\<exists>c. app_state a6 = AppActive (replicate 20 1) (replicate 20 1) (Proposed c)"
    unfolding a6_def using h start by (intro run_opens) simp_all
  with s6 show ?thesis using that by blast
qed

theorem device_safe_witness:
  "\<exists>a c. (app_step hello)\<^sup>*\<^sup>* toy_start a \<and>
    app_state a = AppActive (replicate 20 1) (replicate 20 1) (Proposed c) \<and>
    (\<forall>ch' msgs. demo_step \<lparr>profile = Debug, ptr_width = W32\<rparr> toy_ext (Proposed c, []) (ch', msgs) \<longrightarrow>
      bus_ok \<lparr>profile = Debug, ptr_width = W32\<rparr> toy_ext msgs)"
proof -
  obtain a c where run: "(app_step hello)\<^sup>*\<^sup>* toy_start a"
    "app_state a = AppActive (replicate 20 1) (replicate 20 1) (Proposed c)"
    by (rule toy_run)
  have "signer_ok (pf_ext hello) (toy_signer 7)" by (simp add: toy_signer_ok)
  from device_safe [OF hello_ok this run(1) [unfolded toy_start_def] run(2)] run show ?thesis by auto
qed

theorem device_moves_witness:
  "\<exists>a c. (app_step hello)\<^sup>*\<^sup>* toy_start a \<and>
    app_state a = AppActive (replicate 20 1) (replicate 20 1) (Proposed c) \<and>
    (\<exists>a1. (app_step hello)\<^sup>*\<^sup>* toy_start a1 \<and> (app_step hello)\<^sup>*\<^sup>* a1 a \<and> handshake_received hello a1) \<and>
    (\<exists>a1 x. (app_step hello)\<^sup>*\<^sup>* toy_start a1 \<and> config_received hello a1 x \<and> take 20 x = replicate 20 1) \<and>
    config_of (app_state (snd (app_force_close hello a))) = Some (replicate 20 1, replicate 20 1)"
proof -
  let ?c = "replicate 20 1 :: bytes"
  obtain a c where run: "(app_step hello)\<^sup>*\<^sup>* toy_start a" "app_state a = AppActive ?c ?c (Proposed c)"
    by (rule toy_run)
  have start: "app_state toy_start = InitialState" by (simp add: toy_start_def Application_new_def)
  have conf: "config_of (app_state a) = Some (?c, ?c)" using run(2) by (simp add: config_of_def)
  have "app_step hello a (snd (app_force_close hello a))"
    by (rule app_step.force_closing [of hello a "fst (app_force_close hello a)"]) simp
  then have "config_of (app_state (snd (app_force_close hello a))) = Some (?c, ?c)"
    using device_moves [of hello a "snd (app_force_close hello a)" "(?c, ?c)"] conf by blast
  moreover have "\<exists>a1. (app_step hello)\<^sup>*\<^sup>* toy_start a1 \<and> (app_step hello)\<^sup>*\<^sup>* a1 a \<and> handshake_received hello a1"
    "\<exists>a1 x. (app_step hello)\<^sup>*\<^sup>* toy_start a1 \<and> config_received hello a1 x \<and> take 20 x = ?c"
    using device_moves [of hello toy_start a _ ?c ?c "Proposed c"] run start conf by metis+
  ultimately show ?thesis using run by blast
qed

section \<open>Replies of the services\<close>

lemma forward_no_participant_msg:
  assumes "app_state a = AppActive e r ch" "try_recv_participant_msg E a = (Ok None, a)"
  shows "poll E a = bindS (forward_messages E (try_recv_service_msg E) process_service_msg) (\<lambda>_. ret ()) a"
  using assms by (simp add: poll_def forward_messages_to_channel_def forward_messages_def bindS_def)

lemma service_msg_received:
  assumes "try_recv (pf_tcp E) (pf_decode_message E) (app_service_handle a) (app_iface a) = (Ok (Some (Some m)), w')"
  shows "try_recv_service_msg E a =
    (bind_res (service_reply_of m) (\<lambda>msg. Ok (Some msg)), a\<lparr>app_iface := w'\<rparr>)"
  using assms by (simp add: try_recv_service_msg_def bindS_def get_app_def on_iface_def split: res.split)

text \<open>A reply that changes the phase of the channel without sending anything.\<close>

lemma service_reply_quiet:
  assumes a: "app_state a = AppActive e r ch" "try_recv_participant_msg E a = (Ok None, a)"
    and m: "try_recv (pf_tcp E) (pf_decode_message E) (app_service_handle a) (app_iface a) = (Ok (Some (Some m)), w')"
      "service_reply_of m = Ok reply" "process_service_msg reply (ch, []) = (Ok (), (ch', []))" "ch' \<noteq> Closed"
  shows "poll E a = (Ok (), a\<lparr>app_iface := w', app_state := AppActive e r ch'\<rparr>)"
proof -
  have "\<not> is_closed ch'" using m(4) by (cases ch') (simp_all add: is_closed_def)
  then show ?thesis
    by (simp add: forward_no_participant_msg [OF a] forward_messages_def bindS_def service_msg_received [OF m(1)]
        m(2,3) get_app_def a(1) run_channel_def run_client_def on_sockets_def on_wire_def set_state_def)
qed

text \<open>
  C39: failures reported by the services are taken for successes.  A \<open>FundResp\<close> that carries an error
  is handled like one that carries none: a channel whose watcher has acknowledged becomes active,
  though it was not funded; a \<open>WatchResponse\<close> with \<open>success = false\<close> activates a funded channel that is
  not watched.  The reply that answers the request the library sends,
  \<open>StartWatchingLedgerChannelResp\<close>, panics the device.
\<close>

theorem service_failure_ignored:
  assumes "app_state a = AppActive e r (Signed sc watching funded)"
    "try_recv_participant_msg E a = (Ok None, a)"
    "try_recv (pf_tcp E) (pf_decode_message E) (app_service_handle a) (app_iface a) = (Ok (Some (Some m)), w')"
  shows "(m = FundResp (Some err) \<and> watching \<longrightarrow>
      poll E a = (Ok (), a\<lparr>app_iface := w', app_state := AppActive e r (Active (mark_funded sc) None)\<rparr>)) \<and>
    (m = WatchResponse i v False \<and> length i = 32 \<and> funded \<longrightarrow>
      poll E a = (Ok (), a\<lparr>app_iface := w', app_state := AppActive e r (Active (mark_funded sc) None)\<rparr>)) \<and>
    (m = StartWatchingLedgerChannelResp \<longrightarrow> fst (poll E a) = Panic)"
proof (intro conjI impI)
  assume "m = FundResp (Some err) \<and> watching"
  then show "poll E a = (Ok (), a\<lparr>app_iface := w', app_state := AppActive e r (Active (mark_funded sc) None)\<rparr>)"
    by (intro service_reply_quiet [OF assms, where reply = "FunderReply (Funded (replicate 32 0))"])
      (simp_all add: service_reply_of_def process_service_msg_def process_funder_reply_def progress_def)
next
  assume "m = WatchResponse i v False \<and> length i = 32 \<and> funded"
  then show "poll E a = (Ok (), a\<lparr>app_iface := w', app_state := AppActive e r (Active (mark_funded sc) None)\<rparr>)"
    by (intro service_reply_quiet [OF assms, where reply = "WatcherReply (Ack i v)"])
      (simp_all add: service_reply_of_def process_service_msg_def process_watcher_reply_def progress_def)
next
  assume "m = StartWatchingLedgerChannelResp"
  then show "fst (poll E a) = Panic"
    by (simp add: forward_no_participant_msg [OF assms(1,2)] forward_messages_def bindS_def
        service_msg_received [OF assms(3)] service_reply_of_def)
qed

theorem service_failure_ignored_witness:
  "app_state (snd (poll (toy_platform (toy_envelope PingMsg) (Some (FundResp (Some ''underfunded''))))
      (toy_app (AppActive [] [] (Signed (SignedChannel (toy_channel 0 (sample_state 0))) True False)) [] (framed [1])))) =
    AppActive [] [] (Active (mark_funded (SignedChannel (toy_channel 0 (sample_state 0)))) None)"
proof -
  let ?E = "toy_platform (toy_envelope PingMsg) (Some (FundResp (Some ''underfunded'')))"
  let ?a = "toy_app (AppActive [] [] (Signed (SignedChannel (toy_channel 0 (sample_state 0))) True False)) [] (framed [1])"
  have v: "be_val [0, 1] = 1" by (simp add: be_val_def)
  have f: "framed [1] = [0, 1, 1]" by (simp add: framed_def be_bytes_2)
  have "try_recv_participant_msg ?E ?a = (Ok None, ?a)"
    by (simp add: try_recv_participant_msg_def app_try_recv_envelope_def bindS_def get_app_def on_iface_def
        try_recv_def toy_tcp_def toy_app_def)
  moreover obtain w' where "try_recv (pf_tcp ?E) (pf_decode_message ?E) (app_service_handle ?a) (app_iface ?a) =
      (Ok (Some (Some (FundResp (Some ''underfunded'')))), w')"
    by (simp add: try_recv_def toy_app_def f v toy_tcp_def socket_recv_def cmd_err_def bindS_def
        MAX_MESSAGE_SIZE_def Let_def min_def)
  ultimately show ?thesis
    using service_failure_ignored [where a = ?a and E = ?E and e = "[]" and r = "[]"
        and sc = "SignedChannel (toy_channel 0 (sample_state 0))" and watching = True and funded = False]
    by (simp add: toy_app_def)
qed

end
