(* ===== verification/Demo_Button.thy ===== *)
theory Demo_Button
  imports Prelude
begin

text \<open>
  The debounced button of the demo (\<open>cortex-m-demo/src/button.rs\<close>).  The level of the pin at
  the moment of a call is an argument; time is a \<open>u64\<close> in any unit.
\<close>

section \<open>The button\<close>

datatype button_state = High | Low

record debounced_button =
  debounce_threshhold :: u64
  last_time :: u64
  last_state :: button_state

definition get_state :: "bool \<Rightarrow> button_state" where
  "get_state is_high = (if is_high then High else Low)"

definition DebouncedButton_new :: "bool \<Rightarrow> u64 \<Rightarrow> debounced_button" where
  "DebouncedButton_new is_high threshhold =
     \<lparr>debounce_threshhold = threshhold, last_time = 0, last_state = get_state is_high\<rparr>"

definition debounced_state :: "build \<Rightarrow> bool \<Rightarrow> u64 \<Rightarrow> (debounced_button, 'e, button_state) cmd" where
  "debounced_state b is_high time bt =
     (let state = get_state is_high in
      if state \<noteq> last_state bt then
        (case u64_add b (last_time bt) (debounce_threshhold bt) :: ('e, u64) res of
           Ok limit \<Rightarrow>
             (let bt1 = (if limit < time then bt\<lparr>last_state := state\<rparr> else bt);
                  bt2 = bt1\<lparr>last_time := time\<rparr>
              in (Ok (last_state bt2), bt2))
         | Err e \<Rightarrow> (Err e, bt)
         | Panic \<Rightarrow> (Panic, bt))
      else (Ok (last_state bt), bt))"

definition is_rising_edge :: "build \<Rightarrow> bool \<Rightarrow> u64 \<Rightarrow> (debounced_button, 'e, bool) cmd" where
  "is_rising_edge b is_high time bt =
     bindS (debounced_state b is_high time) (\<lambda>new_state. ret (last_state bt = Low \<and> new_state = High)) bt"

definition is_falling_edge :: "build \<Rightarrow> bool \<Rightarrow> u64 \<Rightarrow> (debounced_button, 'e, bool) cmd" where
  "is_falling_edge b is_high time bt =
     bindS (debounced_state b is_high time) (\<lambda>new_state. ret (last_state bt = High \<and> new_state = Low)) bt"

section \<open>Polling\<close>

text \<open>The times at which a button that is polled with the given samples reports an edge.\<close>

fun poll_edges ::
    "(bool \<Rightarrow> u64 \<Rightarrow> (debounced_button, 'e, bool) cmd) \<Rightarrow> (bool \<times> u64) list \<Rightarrow> (debounced_button, 'e, u64 list) cmd" where
  "poll_edges edge [] = ret []"
| "poll_edges edge ((is_high, time) # samples) =
     bindS (edge is_high time) (\<lambda>e.
     bindS (poll_edges edge samples) (\<lambda>ts. ret (if e then time # ts else ts)))"

lemma u64_add_Debug:
  "profile b = Debug \<Longrightarrow> u64_add b x y = Ok z \<longleftrightarrow> z = x + y \<and> unat z = unat x + unat y"
  by (auto simp: u64_add_def unat_plus_if' split: if_splits)

text \<open>What one call does to the button, in a Debug build, when it does not panic.\<close>

lemma debounced_step:
  assumes "profile b = Debug" "debounced_state b is_high time bt = (Ok s, bt')"
  shows "s = last_state bt'" "debounce_threshhold bt' = debounce_threshhold bt"
    "last_state bt' = last_state bt \<and> (last_time bt' = last_time bt \<or> last_time bt' = time) \<or>
     last_state bt' = get_state is_high \<and> last_state bt' \<noteq> last_state bt \<and> last_time bt' = time \<and>
     unat (last_time bt) + unat (debounce_threshhold bt) < unat time"
  using assms
  by (auto simp: debounced_state_def Let_def u64_add_Debug word_less_nat_alt split: if_splits res.splits)

text \<open>An edge from state \<open>from\<close> to state \<open>to\<close>, reported to the caller.\<close>

definition edge_step ::
    "build \<Rightarrow> button_state \<Rightarrow> button_state \<Rightarrow> bool \<Rightarrow> u64 \<Rightarrow> (debounced_button, 'e, bool) cmd" where
  "edge_step b fr to is_high time bt =
     bindS (debounced_state b is_high time) (\<lambda>s. ret (last_state bt = fr \<and> s = to)) bt"

lemma edges_are_steps:
  "is_rising_edge b = edge_step b Low High" "is_falling_edge b = edge_step b High Low"
  by (intro ext; simp add: is_rising_edge_def is_falling_edge_def edge_step_def)+

lemma poll_edges_Cons:
  assumes "poll_edges (edge_step b fr to) ((is_high, time) # samples) bt = (Ok ts :: ('e, u64 list) res, bt')"
  obtains s bt1 ts' where "debounced_state b is_high time bt = (Ok s :: ('e, button_state) res, bt1)"
    "poll_edges (edge_step b fr to) samples bt1 = (Ok ts' :: ('e, u64 list) res, bt')"
    "ts = (if last_state bt = fr \<and> s = to then time # ts' else ts')"
  using assms by (auto simp: bindS_Ok_iff edge_step_def)

lemma poll_edges_threshhold:
  assumes "profile b = Debug" "poll_edges (edge_step b fr to) samples bt = (Ok ts :: ('e, u64 list) res, bt')"
  shows "debounce_threshhold bt' = debounce_threshhold bt"
  using assms(2)
proof (induction samples arbitrary: bt ts)
  case (Cons sample samples)
  obtain is_high time where "sample = (is_high, time)" by (cases sample)
  with Cons.prems obtain s bt1 ts' where "debounced_state b is_high time bt = (Ok s :: ('e, button_state) res, bt1)"
    "poll_edges (edge_step b fr to) samples bt1 = (Ok ts' :: ('e, u64 list) res, bt')"
    using poll_edges_Cons by metis
  then show ?case using Cons.IH debounced_step(2) [OF assms(1)] by metis
qed simp

lemma poll_edges_spacing:
  assumes "profile b = Debug" "fr \<noteq> to" "poll_edges (edge_step b fr to) samples bt = (Ok ts :: ('e, u64 list) res, bt')"
    "sorted (map unat (last_time bt # map snd samples))"
  shows "sorted_wrt (\<lambda>s t. unat s + 2 * unat (debounce_threshhold bt) < unat t) ts \<and>
    (\<forall>t\<in>set ts. unat (last_time bt) + (if last_state bt = fr then 1 else 2) * unat (debounce_threshhold bt) < unat t)"
  using assms(3,4)
proof (induction samples arbitrary: bt ts)
  case (Cons sample samples)
  obtain is_high time where sample: "sample = (is_high, time)" by (cases sample)
  with Cons.prems(1) obtain s bt1 ts' where s: "debounced_state b is_high time bt = (Ok s :: ('e, button_state) res, bt1)"
    and rest: "poll_edges (edge_step b fr to) samples bt1 = (Ok ts' :: ('e, u64 list) res, bt')"
    and ts: "ts = (if last_state bt = fr \<and> s = to then time # ts' else ts')"
    using poll_edges_Cons by metis
  note d = debounced_step [OF assms(1) s]
  let ?thr = "unat (debounce_threshhold bt)"
  have "sorted (map unat (time # map snd samples))" "unat (last_time bt) \<le> unat time"
    using Cons.prems(2) sample by auto
  moreover from this have mono: "unat (last_time bt) \<le> unat (last_time bt1)" "unat (last_time bt1) \<le> unat time"
    using d(3) by auto
  ultimately have "sorted (map unat (last_time bt1 # map snd samples))" by auto
  note IH = Cons.IH [OF rest this, unfolded d(2)]
  show ?case
  proof (cases "last_state bt1 = last_state bt")
    case True
    then have "ts = ts'" using ts d(1) assms(2) by auto
    then show ?thesis using IH True mono(1) by auto
  next
    case False
    then have new: "last_time bt1 = time" "unat (last_time bt) + ?thr < unat time" using d(3) by auto
    have "last_state bt = fr \<and> last_state bt1 = to \<or> last_state bt \<noteq> fr \<and> last_state bt1 = fr"
      using False assms(2) by (metis button_state.exhaust)
    then show ?thesis
    proof
      assume edge: "last_state bt = fr \<and> last_state bt1 = to"
      then have "ts = time # ts'" using ts d(1) by simp
      moreover have "unat (last_time bt) + ?thr < unat t" if "unat time + 2 * ?thr < unat t" for t :: u64
        using that new(2) by linarith
      ultimately show ?thesis using IH edge assms(2) new by auto
    next
      assume other: "last_state bt \<noteq> fr \<and> last_state bt1 = fr"
      then have "ts = ts'" using ts by simp
      moreover have "unat (last_time bt) + 2 * ?thr < unat t" if "unat time + ?thr < unat t" for t :: u64
        using that new(2) by linarith
      ultimately show ?thesis using IH other new(1) by auto
    qed
  qed
qed simp

section \<open>Properties\<close>

text \<open>
  C37: bounces are removed.  A button that is polled at any non-decreasing times, with any
  levels of the pin, reports edges of one kind only more than two thresholds apart; and a change
  of the pin more than one threshold after the last change is reported at once.
\<close>

theorem button_edges_spaced:
  assumes "profile b = Debug" "sorted (map (\<lambda>s. unat (snd s)) samples)"
    "edge = is_rising_edge b \<or> edge = is_falling_edge b"
    "poll_edges edge samples (DebouncedButton_new level threshhold) = (Ok ts :: ('e, u64 list) res, bt)"
  shows "sorted_wrt (\<lambda>s t. unat s + 2 * unat threshhold < unat t) ts \<and>
    (\<forall>time. unat (last_time bt) + unat threshhold < unat time \<longrightarrow>
       (last_state bt = Low \<longrightarrow> fst (is_rising_edge b True time bt) = (Ok True :: ('e, bool) res)) \<and>
       (last_state bt = High \<longrightarrow> fst (is_falling_edge b False time bt) = (Ok True :: ('e, bool) res)))"
proof -
  let ?bt = "DebouncedButton_new level threshhold"
  from assms(3) obtain fr to where edge: "edge = edge_step b fr to" "fr \<noteq> to"
    unfolding edges_are_steps by auto
  have sorted: "sorted (map unat (last_time ?bt # map snd samples))"
    using assms(2) by (simp add: DebouncedButton_new_def comp_def)
  have thr: "debounce_threshhold bt = threshhold"
    using poll_edges_threshhold [OF assms(1), of fr to samples ?bt] assms(4) edge(1)
    by (simp add: DebouncedButton_new_def)
  have "u64_add b (last_time bt) threshhold = (Ok (last_time bt + threshhold) :: ('e, u64) res) \<and>
      last_time bt + threshhold < time"
    if "unat (last_time bt) + unat threshhold < unat time" for time
    using that unat_bound [of time] by (simp add: u64_add_def word_less_nat_alt unat_plus_if')
  note limit = this
  have spaced: "sorted_wrt (\<lambda>s t. unat s + 2 * unat threshhold < unat t) ts"
    using poll_edges_spacing [OF assms(1) edge(2) assms(4) [unfolded edge(1)] sorted]
    by (simp add: DebouncedButton_new_def)
  have reports: "fst (is_rising_edge b True time bt) = (Ok True :: ('e, bool) res)"
    if "unat (last_time bt) + unat threshhold < unat time" "last_state bt = Low" for time
    using limit [OF that(1)] that(2) thr
    by (simp add: is_rising_edge_def debounced_state_def get_state_def bindS_def Let_def)
  have "fst (is_falling_edge b False time bt) = (Ok True :: ('e, bool) res)"
    if "unat (last_time bt) + unat threshhold < unat time" "last_state bt = High" for time
    using limit [OF that(1)] that(2) thr
    by (simp add: is_falling_edge_def debounced_state_def get_state_def bindS_def Let_def)
  with spaced reports show ?thesis by blast
qed

theorem button_edges_spaced_witness:
  "sorted_wrt (\<lambda>s t. unat s + 2 * unat (100 :: u64) < unat t) [200, 600 :: u64]"
proof -
  let ?samples = "[(True, 200), (False, 250), (True, 260), (False, 400), (True, 600)]"
  have "fst (poll_edges (is_rising_edge \<lparr>profile = Debug, ptr_width = W32\<rparr>) ?samples
      (DebouncedButton_new False 100)) = (Ok [200, 600] :: (unit, u64 list) res)"
    by (simp add: bindS_def is_rising_edge_def debounced_state_def DebouncedButton_new_def get_state_def
        u64_add_def Let_def)
  then obtain bt where "poll_edges (is_rising_edge \<lparr>profile = Debug, ptr_width = W32\<rparr>) ?samples
      (DebouncedButton_new False 100) = (Ok [200, 600] :: (unit, u64 list) res, bt)"
    by (metis prod.collapse)
  from button_edges_spaced [OF _ _ _ this] show ?thesis by simp
qed

end
