(* ===== verification/Demo_Main.thy ===== *)
theory Demo_Main
  imports Demo_App_Props Demo_Button
begin

text \<open>
  The main program of the embedded demo (\<open>cortex-m-demo/src/main.rs\<close>): the constants, the creation of
  the bus, the signer, the client and the application, the timer interrupt and the body of the
  main loop.  The hardware (clocks, pins, Ethernet driver) enters as the levels of the four button
  pins and as the effect of \<open>Interface::poll\<close>.
\<close>

section \<open>Constants and set-up\<close>

definition SERVER_IP_ADDRESS :: bytes where
  "SERVER_IP_ADDRESS = [192, 168, 1, 127]"

definition SERVER_CONFIG_PORT :: u16 where
  "SERVER_CONFIG_PORT = 1339"

definition SERVER_PARTICIPANT_PORT :: u16 where
  "SERVER_PARTICIPANT_PORT = 38843"

definition SERVER_SERVICE_PORT :: u16 where
  "SERVER_SERVICE_PORT = 50002"

definition DEVICE_LISTEN_PORT :: u16 where
  "DEVICE_LISTEN_PORT = 32977"

definition DEBOUNCE_THRESHHOLD :: u64 where
  "DEBOUNCE_THRESHHOLD = 100"

text \<open>The participants are \<open>Bob\<close> and \<open>Alice\<close>.\<close>

definition main_config :: app_config where
  "main_config = \<lparr>cf_config_server = (SERVER_IP_ADDRESS, SERVER_CONFIG_PORT),
     cf_other_participant = (SERVER_IP_ADDRESS, SERVER_PARTICIPANT_PORT),
     cf_service_server = (SERVER_IP_ADDRESS, SERVER_SERVICE_PORT), cf_listen_port = DEVICE_LISTEN_PORT,
     cf_participants = ([0x42, 0x6F, 0x62], [0x41, 0x6C, 0x69, 0x63, 0x65])\<rparr>"

text \<open>The levels of the four button pins.\<close>

record pins =
  pin_propose :: bool
  pin_update :: bool
  pin_normal_close :: bool
  pin_force_close :: bool

text \<open>What the main loop works on: the timer, the application, the buttons and the LEDs.\<close>

record ('w, 'r) device =
  dv_time :: u64
  dv_app :: "('w, 'r) app"
  dv_propose_btn :: debounced_button
  dv_update_btn :: debounced_button
  dv_normal_close_btn :: debounced_button
  dv_force_close_btn :: debounced_button
  dv_green_led :: bool
  dv_blue_led :: bool
  dv_red_led :: bool
  dv_last_toggle_time :: u64

type_synonym ('w, 'r, 'a) dev_cmd = "(('w, 'r) device, app_error, 'a) cmd"

text \<open>
  \<open>main\<close> up to its loop: the interface with its two sockets and the seeded generator are given.
\<close>

definition main_setup ::
    "('w, 'r) platform \<Rightarrow> pins \<Rightarrow> socket_handle \<Rightarrow> socket_handle \<Rightarrow> 'w \<Rightarrow> 'r \<Rightarrow> (app_error, ('w, 'r) device) res" where
  "main_setup E pins participant_handle service_handle iface rng2 =
     bind_res (Signer_new (pf_ext E) rng2) (\<lambda>signer.
     let addr = Signer_address signer;
         bus = \<lparr>sb_participant_handle = participant_handle, sb_service_handle = service_handle\<rparr>;
         client = PerunClient_new signer
     in
     Ok \<lparr>dv_time = 0,
         dv_app = Application_new participant_handle service_handle main_config rng2 addr client bus iface,
         dv_propose_btn = DebouncedButton_new (pin_propose pins) DEBOUNCE_THRESHHOLD,
         dv_update_btn = DebouncedButton_new (pin_update pins) DEBOUNCE_THRESHHOLD,
         dv_normal_close_btn = DebouncedButton_new (pin_normal_close pins) DEBOUNCE_THRESHHOLD,
         dv_force_close_btn = DebouncedButton_new (pin_force_close pins) DEBOUNCE_THRESHHOLD,
         dv_green_led = False, dv_blue_led = True, dv_red_led = False, dv_last_toggle_time = 0\<rparr>)"

section \<open>The timer\<close>

definition SysTick :: "build \<Rightarrow> ('w, 'r, unit) dev_cmd" where
  "SysTick b d = (case u64_add b (dv_time d) 1 :: (app_error, u64) res of
     Ok time \<Rightarrow> (Ok (), d\<lparr>dv_time := time\<rparr>)
   | Err e \<Rightarrow> (Err e, d)
   | Panic \<Rightarrow> (Panic, d))"

section \<open>The main loop\<close>

definition on_app :: "('w, 'r, 'a) app_cmd \<Rightarrow> ('w, 'r, (app_error, 'a) res) dev_cmd" where
  "on_app m d = (case m (dv_app d) of
     (r, a') \<Rightarrow> (if r = Panic then Panic else Ok r, d\<lparr>dv_app := a'\<rparr>))"

text \<open>\<open>Ok(_) => green_led.toggle(), Err(_) => red_led.toggle()\<close>\<close>

definition toggle_led :: "(app_error, unit) res \<Rightarrow> ('w, 'r, unit) dev_cmd" where
  "toggle_led r d = (Ok (), case r of
     Ok _ \<Rightarrow> d\<lparr>dv_green_led := \<not> dv_green_led d\<rparr>
   | Err _ \<Rightarrow> d\<lparr>dv_red_led := \<not> dv_red_led d\<rparr>
   | Panic \<Rightarrow> d)"

definition propose_pressed :: "build \<Rightarrow> bool \<Rightarrow> u64 \<Rightarrow> ('w, 'r, bool) dev_cmd" where
  "propose_pressed b pin time d = (case is_falling_edge b pin time (dv_propose_btn d) of
     (r, bt) \<Rightarrow> (r, d\<lparr>dv_propose_btn := bt\<rparr>))"

definition update_pressed :: "build \<Rightarrow> bool \<Rightarrow> u64 \<Rightarrow> ('w, 'r, bool) dev_cmd" where
  "update_pressed b pin time d = (case is_rising_edge b pin time (dv_update_btn d) of
     (r, bt) \<Rightarrow> (r, d\<lparr>dv_update_btn := bt\<rparr>))"

definition normal_close_pressed :: "build \<Rightarrow> bool \<Rightarrow> u64 \<Rightarrow> ('w, 'r, bool) dev_cmd" where
  "normal_close_pressed b pin time d = (case is_falling_edge b pin time (dv_normal_close_btn d) of
     (r, bt) \<Rightarrow> (r, d\<lparr>dv_normal_close_btn := bt\<rparr>))"

definition force_close_pressed :: "build \<Rightarrow> bool \<Rightarrow> u64 \<Rightarrow> ('w, 'r, bool) dev_cmd" where
  "force_close_pressed b pin time d = (case is_falling_edge b pin time (dv_force_close_btn d) of
     (r, bt) \<Rightarrow> (r, d\<lparr>dv_force_close_btn := bt\<rparr>))"

text \<open>A button and the call it makes.\<close>

definition button_call ::
    "('w, 'r, bool) dev_cmd \<Rightarrow> ('w, 'r, unit) app_cmd \<Rightarrow> ('w, 'r, unit) dev_cmd" where
  "button_call pressed call =
     bindS pressed (\<lambda>p. if p then bindS (on_app call) toggle_led else ret ())"

text \<open>Toggle the blue LED every second.\<close>

definition blink :: "build \<Rightarrow> u64 \<Rightarrow> ('w, 'r, unit) dev_cmd" where
  "blink b time d = (case u64_add b (dv_last_toggle_time d) 1000 :: (app_error, u64) res of
     Ok limit \<Rightarrow> (Ok (), if limit < time
       then d\<lparr>dv_blue_led := \<not> dv_blue_led d, dv_last_toggle_time := time\<rparr> else d)
   | Err e \<Rightarrow> (Err e, d)
   | Panic \<Rightarrow> (Panic, d))"

text \<open>
  One iteration: the network stack runs (its result is ignored), the application is polled and an
  error of it unwrapped, then the buttons are looked at in order.
\<close>

definition main_body ::
    "('w, 'r) platform \<Rightarrow> (u64 \<Rightarrow> 'w \<Rightarrow> 'w) \<Rightarrow> pins \<Rightarrow> u64 \<Rightarrow> ('w, 'r, unit) dev_cmd" where
  "main_body E iface_poll pins time =
     (let b = pf_build E in
      bindS (on_app (on_iface (\<lambda>w. (Ok (), iface_poll time w)))) (\<lambda>_.
      bindS (on_app (poll E)) (\<lambda>r.
      bindS (lift_res (unwrap_res r)) (\<lambda>_.
      bindS (button_call (propose_pressed b (pin_propose pins) time) (app_propose_channel E)) (\<lambda>_.
      bindS (button_call (update_pressed b (pin_update pins) time) (app_update E 100 False)) (\<lambda>_.
      bindS (button_call (normal_close_pressed b (pin_normal_close pins) time) (app_update E 0 True)) (\<lambda>_.
      bindS (button_call (force_close_pressed b (pin_force_close pins) time) (app_force_close E)) (\<lambda>_.
      blink b time))))))))"

definition main_iteration ::
    "('w, 'r) platform \<Rightarrow> (u64 \<Rightarrow> 'w \<Rightarrow> 'w) \<Rightarrow> pins \<Rightarrow> ('w, 'r, unit) dev_cmd" where
  "main_iteration E iface_poll pins d = main_body E iface_poll pins (dv_time d) d"

text \<open>
  The loop for as long as it is observed: for each iteration the number of timer interrupts before
  it and the levels of the pins; a panic ends it.
\<close>

primrec ticks :: "build \<Rightarrow> nat \<Rightarrow> ('w, 'r, unit) dev_cmd" where
  "ticks b 0 = ret ()"
| "ticks b (Suc n) = bindS (SysTick b) (\<lambda>_. ticks b n)"

primrec main_loop ::
    "('w, 'r) platform \<Rightarrow> (u64 \<Rightarrow> 'w \<Rightarrow> 'w) \<Rightarrow> (nat \<times> pins) list \<Rightarrow> ('w, 'r, unit) dev_cmd" where
  "main_loop E iface_poll [] = ret ()"
| "main_loop E iface_poll (i # is) =
     bindS (ticks (pf_build E) (fst i)) (\<lambda>_.
     bindS (main_iteration E iface_poll (snd i)) (\<lambda>_.
     main_loop E iface_poll is))"

section \<open>The main loop only makes steps of the application\<close>

definition app_runs :: "('w, 'r) platform \<Rightarrow> ('w, 'r, 'a) dev_cmd \<Rightarrow> bool" where
  "app_runs E m \<longleftrightarrow> (\<forall>d. (app_step E)\<^sup>*\<^sup>* (dv_app d) (dv_app (snd (m d))))"

lemma app_runsD: "app_runs E m \<Longrightarrow> m d = (r, d') \<Longrightarrow> (app_step E)\<^sup>*\<^sup>* (dv_app d) (dv_app d')"
  unfolding app_runs_def by (metis snd_conv)

lemma app_runs_bindS:
  assumes "app_runs E m" "\<And>x. app_runs E (f x)"
  shows "app_runs E (bindS m f)"
  unfolding app_runs_def
proof
  fix d
  obtain r d1 where m: "m d = (r, d1)" by (cases "m d")
  note s1 = app_runsD [OF assms(1) m]
  show "(app_step E)\<^sup>*\<^sup>* (dv_app d) (dv_app (snd (bindS m f d)))"
  proof (cases r)
    case (Ok x)
    then have "(app_step E)\<^sup>*\<^sup>* (dv_app d1) (dv_app (snd (bindS m f d)))"
      using assms(2) [of x] m by (simp add: bindS_def app_runs_def)
    then show ?thesis using s1 by simp
  qed (use m s1 in \<open>simp_all add: bindS_def\<close>)
qed

lemma app_runs_on_app:
  assumes "\<And>a r a'. m a = (r, a') \<Longrightarrow> app_step E a a'"
  shows "app_runs E (on_app m)"
  using assms unfolding app_runs_def on_app_def by (auto split: prod.split)

lemma app_runs_basic [simp]:
  "app_runs E (ret x)" "app_runs E (lift_res r)" "app_runs E (toggle_led res)" "app_runs E (SysTick b)"
  "app_runs E (propose_pressed b pin time)" "app_runs E (update_pressed b pin time)"
  "app_runs E (normal_close_pressed b pin time)" "app_runs E (force_close_pressed b pin time)"
  "app_runs E (blink b time)"
  by (auto simp: app_runs_def toggle_led_def SysTick_def propose_pressed_def update_pressed_def
      normal_close_pressed_def force_close_pressed_def blink_def split: res.split prod.split)

lemma app_runs_button:
  assumes "app_runs E pressed" "\<And>a r a'. call a = (r, a') \<Longrightarrow> app_step E a a'"
  shows "app_runs E (button_call pressed call)"
proof -
  have "app_runs E (bindS (on_app call) toggle_led)"
    by (intro app_runs_bindS app_runs_on_app assms(2) app_runs_basic)
  then show ?thesis
    unfolding button_call_def using assms(1) by (intro app_runs_bindS) (simp_all split: if_split del: ret_apply)
qed

lemma app_runs_ticks: "app_runs E (ticks b n)"
  by (induction n) (auto intro: app_runs_bindS simp del: ret_apply)

lemma app_runs_iteration: "app_runs E (main_iteration E iface_poll pins)"
proof -
  have net: "app_step E a a'" if "on_iface (\<lambda>w. (Ok (), f w)) a = (r, a')" for a a' and r :: "(app_error, unit) res" and f
    using that app_step.network by (auto simp: on_iface_def)
  have "app_runs E (main_body E iface_poll pins time)" for time
    unfolding main_body_def Let_def
    by (intro app_runs_bindS app_runs_on_app app_runs_button app_runs_basic) (auto intro: app_step.intros net)
  then show ?thesis by (simp add: app_runs_def main_iteration_def)
qed

lemma app_runs_main_loop: "app_runs E (main_loop E iface_poll is)"
  by (induction "is") (auto intro!: app_runs_bindS app_runs_ticks app_runs_iteration simp del: ret_apply)

section \<open>The main loop panics or goes on\<close>

text \<open>A command that reports no error: it succeeds or panics.\<close>

definition unerring :: "('w, 'r, 'a) dev_cmd \<Rightarrow> bool" where
  "unerring m \<longleftrightarrow> (\<forall>d e. fst (m d) \<noteq> Err e)"

lemma unerring_bindS:
  assumes "unerring m" "\<And>x. unerring (f x)"
  shows "unerring (bindS m f)"
  using assms unfolding unerring_def bindS_def by (auto split: prod.split res.split) (metis fst_conv)+

lemma u64_add_not_Err [simp]: "u64_add b x y \<noteq> Err e"
  by (simp add: u64_add_def split: profile.split)

lemma unwrap_res_not_Err [simp]: "unwrap_res r \<noteq> Err e"
  by (cases r) simp_all

lemma debounced_not_Err [simp]: "debounced_state b pin time bt \<noteq> (Err e, bt')"
  by (auto simp: debounced_state_def Let_def split: res.split)

lemma edge_not_Err [simp]:
  "is_falling_edge b pin time bt \<noteq> (Err e, bt')" "is_rising_edge b pin time bt \<noteq> (Err e, bt')"
  by (auto simp: is_falling_edge_def is_rising_edge_def bindS_def split: prod.split res.split)

lemma unerring_basic [simp]:
  "unerring (ret x)" "unerring (on_app m)" "unerring (lift_res (unwrap_res r))" "unerring (toggle_led res)"
  "unerring (SysTick b)" "unerring (blink b time)"
  by (auto simp: unerring_def on_app_def toggle_led_def SysTick_def blink_def split: res.split prod.split)

lemma unerring_buttons [simp]:
  "unerring (propose_pressed b pin time)" "unerring (update_pressed b pin time)"
  "unerring (normal_close_pressed b pin time)" "unerring (force_close_pressed b pin time)"
  by (auto simp: unerring_def propose_pressed_def update_pressed_def normal_close_pressed_def
      force_close_pressed_def split: prod.split)

lemma unerring_button_call: "unerring pressed \<Longrightarrow> unerring (button_call pressed call)"
  unfolding button_call_def by (intro unerring_bindS) (auto intro!: unerring_bindS simp del: ret_apply)

lemma unerring_iteration: "unerring (main_iteration E iface_poll pins)"
proof -
  have "unerring (main_body E iface_poll pins time)" for time
    unfolding main_body_def Let_def by (intro unerring_bindS unerring_button_call) simp_all
  then show ?thesis by (simp add: unerring_def main_iteration_def)
qed

lemma unerring_ticks: "unerring (ticks b n)"
  by (induction n) (auto intro: unerring_bindS simp del: ret_apply)

lemma unerring_main_loop: "unerring (main_loop E iface_poll is)"
  by (induction "is") (auto intro!: unerring_bindS unerring_ticks unerring_iteration simp del: ret_apply)

section \<open>The program as a whole\<close>

lemma main_setup_inv: "main_setup E pins ph sh iface rng = Ok d \<Longrightarrow> app_inv E (dv_app d)"
  by (auto simp: main_setup_def bind_res_Ok_iff Let_def app_inv_def device_ok_def Application_new_def
      PerunClient_new_def Signer_address_def state_inv_def dest: Signer_new_signer_ok)

text \<open>
  C15: the device is safe from power-on.  Whenever \<open>main\<close> gets through its set-up, then after any
  number of iterations of the main loop, with any timing of the interrupts, any levels of the
  buttons and any behaviour of the network: the loop goes on or has panicked (it unwraps the results
  of the network calls and of \<open>poll\<close>, so errors do not leave it), it is still the same device, a
  channel it holds in the signed, active or closing phase carries a valid signature of each
  participant on its state, and whatever a channel it holds hands to the services in its next step
  is covered by such signatures, a funding request by those of an earlier watch request.
\<close>

theorem main_loop_safe:
  assumes "platform_ok E" "main_setup E pins0 ph sh iface rng = Ok d" "main_loop E iface_poll is d = (res, d')"
  shows "res \<in> {Ok (), Panic} \<and> same_device (dv_app d) (dv_app d') \<and>
    (\<forall>e r ch. app_state (dv_app d') = AppActive e r ch \<longrightarrow> (case ch of
       Signed sc _ _ \<Rightarrow> open_ok (pf_build E) (pf_ext E) (mark_funded sc)
     | Active c _ \<Rightarrow> open_ok (pf_build E) (pf_ext E) c
     | Closing c \<Rightarrow> open_ok (pf_build E) (pf_ext E) c
     | _ \<Rightarrow> True) \<and>
    (\<forall>ch' msgs. demo_step (pf_build E) (pf_ext E) (ch, []) (ch', msgs) \<longrightarrow>
      bus_ok (pf_build E) (pf_ext E) msgs))"
proof -
  have reach: "(app_step E)\<^sup>*\<^sup>* (dv_app d) (dv_app d')"
    by (rule app_runsD [OF app_runs_main_loop assms(3)])
  have inv: "app_inv E (dv_app d')"
    using app.reachable_inv [OF reach] main_setup_inv [OF assms(2)] assms(1) by blast
  have "res \<noteq> Err e" for e
    using unerring_main_loop [of E iface_poll "is"] assms(3) unfolding unerring_def by (metis fst_conv)
  then have "res \<in> {Ok (), Panic}" by (cases res) auto
  moreover have "same_device (dv_app d) (dv_app d')" by (rule reachable_same_device [OF reach])
  ultimately show ?thesis using app_inv_safe [OF assms(1) inv] by blast
qed

lemma participant_error_halts:
  assumes "app_state (dv_app d) = AppActive e r ch"
    and a1: "a1 = (dv_app d)\<lparr>app_iface := iface_poll (dv_time d) (app_iface (dv_app d))\<rparr>"
    and m: "try_recv_participant_msg E a1 = (Ok (Some m), a2)"
      "process_participant_msg (pf_build E) (pf_ext E) m (ch, []) = (Err er, (ch', []))"
  shows "fst (main_iteration E iface_poll pins d) = Panic"
proof -
  have st: "app_state a1 = AppActive e r ch" using assms(1) by (simp add: a1)
  have "untouched a1 a2" by (rule silentD [OF silent_try_recv_participant_msg m(1)])
  then have st2: "app_state a2 = AppActive e r ch" using st by (simp add: untouched_def)
  obtain a3 where "poll E a1 = (Err (AE_ChannelError er), a3)"
    by (simp add: poll_def st forward_messages_to_channel_def forward_messages_def bindS_def m get_app_def st2
        run_channel_def run_client_def on_sockets_def on_wire_def set_state_def)
  then show ?thesis
    by (simp add: main_iteration_def main_body_def Let_def bindS_def on_app_def on_iface_def a1)
qed

text \<open>
  C22: an ordinary refusal of the other party halts the device.  \<open>main\<close> unwraps the result of
  \<open>app.poll()\<close>, so an iteration of its loop panics, whatever the buttons do, when it receives a
  rejection of the proposal while the channel is proposed, a rejection of the initial state while it
  is being signed, or any message at all of the other participant while the channel is closing or
  being disputed.
\<close>

theorem refusal_halts_device:
  assumes "app_state (dv_app d) = AppActive e r ch"
    "try_recv_participant_msg E ((dv_app d)\<lparr>app_iface := iface_poll (dv_time d) (app_iface (dv_app d))\<rparr>) =
      (Ok (Some m), a2)"
    "(case ch of
        Proposed _ \<Rightarrow> (case m of ProposalRejected _ _ \<Rightarrow> True | _ \<Rightarrow> False)
      | AgreedUpon _ \<Rightarrow> (case m of ChannelUpdateRejected _ _ _ \<Rightarrow> True | _ \<Rightarrow> False)
      | Closing _ \<Rightarrow> True
      | ForceClosing \<Rightarrow> True
      | _ \<Rightarrow> False)"
  shows "fst (main_iteration E iface_poll pins d) = Panic"
proof -
  have "\<exists>er. process_participant_msg (pf_build E) (pf_ext E) m (ch, []) = (Err er, (ch, []))"
    using assms(3)
    by (cases ch; cases m) (simp_all add: process_participant_msg_def progress_def)
  then show ?thesis using participant_error_halts [where iface_poll = iface_poll, OF assms(1) refl assms(2)] by blast
qed

definition toy_pins :: pins where
  "toy_pins = \<lparr>pin_propose = True, pin_update = False, pin_normal_close = True, pin_force_close = True\<rparr>"

theorem main_loop_safe_witness:
  "\<exists>d res d'. main_setup hello toy_pins 0 1 (toy_wire []) 0 = Ok d \<and>
    main_loop hello (\<lambda>time w. w) [(1, toy_pins), (150, toy_pins\<lparr>pin_propose := False\<rparr>)] d = (res, d') \<and>
    res \<in> {Ok (), Panic} \<and> same_device (dv_app d) (dv_app d')"
proof -
  have "\<exists>s. Signer_new toy_ext (0 :: nat) = (Ok s :: (app_error, signer) res)"
    by (simp add: Signer_new_def toy_ext_def private_key_bytes_def Address_from_vk_def)
  then obtain d where d: "main_setup hello toy_pins 0 1 (toy_wire []) 0 = Ok d"
    by (auto simp: main_setup_def Let_def)
  obtain res d' where l: "main_loop hello (\<lambda>time w. w) [(1, toy_pins), (150, toy_pins\<lparr>pin_propose := False\<rparr>)] d = (res, d')"
    by (cases "main_loop hello (\<lambda>time w. w) [(1, toy_pins), (150, toy_pins\<lparr>pin_propose := False\<rparr>)] d")
  from main_loop_safe [OF hello_ok d l] d l show ?thesis by auto
qed

definition toy_device :: "application_state \<Rightarrow> bytes \<Rightarrow> (toy_net, nat) device" where
  "toy_device st rx0 =
    \<lparr>dv_time = 5, dv_app = toy_app st rx0 [],
     dv_propose_btn = DebouncedButton_new True 100, dv_update_btn = DebouncedButton_new False 100,
     dv_normal_close_btn = DebouncedButton_new True 100, dv_force_close_btn = DebouncedButton_new True 100,
     dv_green_led = False, dv_blue_led = True, dv_red_led = False, dv_last_toggle_time = 0\<rparr>"

theorem refusal_halts_device_witness:
  "fst (main_iteration hello (\<lambda>time w. w) toy_pins (toy_device (AppActive [] [] ForceClosing) (framed [2]))) = Panic"
proof -
  let ?a = "toy_app (AppActive [] [] ForceClosing) (framed [2]) []"
  have "try_recv_participant_msg hello ?a = (Ok (Some Auth), toy_app (AppActive [] [] ForceClosing) [] [])"
    using toy_receives [of "toy_envelope (Sendable WAuthResponseMsg)" None "AppActive [] [] ForceClosing" "[]"]
    by (simp add: try_recv_participant_msg_def bindS_def participant_msg_of_def)
  moreover have "?a\<lparr>app_iface := app_iface ?a\<rparr> = ?a" "app_state ?a = AppActive [] [] ForceClosing"
    by (simp_all add: toy_app_def)
  ultimately show ?thesis
    using refusal_halts_device [of "toy_device (AppActive [] [] ForceClosing) (framed [2])" "[]" "[]" ForceClosing
        hello "\<lambda>time w. w" Auth]
    by (simp add: toy_device_def)
qed

end
