(* ===== verification/Example.thy ===== *)
theory Example
  imports Framed Proposal
begin

text \<open>
  The host example \<open>examples/go-integration.rs\<close>: a client that connects to the Go side over two TCP
  streams, opens a channel as the proposer, makes one update, closes the channel and asks the
  service to register the final state.  A stream of the standard library is the bytes still to be
  read before the peer closes it, the bytes written so far, and how much the operating system takes
  of each coming write.
\<close>

section \<open>Streams of the standard library\<close>

record tcp_stream =
  ts_in :: bytes
  ts_out :: bytes
  ts_accept :: "nat option list"

text \<open>\<open>read_exact\<close> fails at the end of the stream; the example unwraps its result.\<close>

definition read_exact :: "nat \<Rightarrow> (tcp_stream, 'e, bytes) cmd" where
  "read_exact n s =
     (if n \<le> length (ts_in s) then (Ok (take n (ts_in s)), s\<lparr>ts_in := drop n (ts_in s)\<rparr>) else (Panic, s))"

text \<open>
  \<open>write\<close> takes as many bytes as the system accepts, or fails; the example unwraps the result and
  ignores the number.
\<close>

definition stream_write :: "bytes \<Rightarrow> (tcp_stream, 'e, unit) cmd" where
  "stream_write msg s = (case ts_accept s of
     [] \<Rightarrow> (Ok (), s\<lparr>ts_out := ts_out s @ msg\<rparr>)
   | None # ks \<Rightarrow> (Panic, s\<lparr>ts_accept := ks\<rparr>)
   | Some k # ks \<Rightarrow> (Ok (), s\<lparr>ts_out := ts_out s @ take k msg, ts_accept := ks\<rparr>))"

section \<open>The bus\<close>

record ex_bus =
  eb_participant :: nat
  eb_stream :: tcp_stream
  eb_remote_stream :: tcp_stream

definition Bus_new :: "tcp_stream \<Rightarrow> tcp_stream \<Rightarrow> ex_bus" where
  "Bus_new alice remote = \<lparr>eb_participant = 0, eb_stream = alice, eb_remote_stream = remote\<rparr>"

definition on_stream :: "(tcp_stream, 'e, 'a) cmd \<Rightarrow> (ex_bus, 'e, 'a) cmd" where
  "on_stream m bus = (case m (eb_stream bus) of (r, s') \<Rightarrow> (r, bus\<lparr>eb_stream := s'\<rparr>))"

definition on_remote :: "(tcp_stream, 'e, 'a) cmd \<Rightarrow> (ex_bus, 'e, 'a) cmd" where
  "on_remote m bus = (case m (eb_remote_stream bus) of (r, s') \<Rightarrow> (r, bus\<lparr>eb_remote_stream := s'\<rparr>))"

definition ex_recv :: "(tcp_stream, 'e, bytes) cmd" where
  "ex_recv = bindS (read_exact 2) (\<lambda>buf. read_exact (be_val buf))"

definition recv_to :: "(bytes \<Rightarrow> decode_error + 'm) \<Rightarrow> (tcp_stream, 'e, 'm) cmd" where
  "recv_to decode = bindS ex_recv (\<lambda>buf. case decode buf of Inl e \<Rightarrow> crash | Inr msg \<Rightarrow> ret msg)"

definition ex_send_to_watcher :: "bytes \<Rightarrow> (ex_bus, 'e, unit) cmd" where
  "ex_send_to_watcher msg = on_remote (stream_write msg)"

definition ex_send_to_funder :: "bytes \<Rightarrow> (ex_bus, 'e, unit) cmd" where
  "ex_send_to_funder msg = on_remote (stream_write msg)"

definition ex_send_to_participant :: "bytes \<Rightarrow> bytes \<Rightarrow> bytes \<Rightarrow> (ex_bus, 'e, unit) cmd" where
  "ex_send_to_participant sender recipient msg = on_stream (stream_write msg)"

definition ex_deliver :: "bytes_bus_msg \<Rightarrow> (ex_bus, 'e, unit) cmd" where
  "ex_deliver m = (case m of
     BytesToWatcher buf \<Rightarrow> ex_send_to_watcher buf
   | BytesToFunder buf \<Rightarrow> ex_send_to_funder buf
   | BytesToParticipant s r buf \<Rightarrow> ex_send_to_participant s r buf)"

section \<open>The environment\<close>

text \<open>The code outside the repository: the decoder of \<open>prost\<close>, \<open>hex::decode\<close>, and the random generator.\<close>

record 'r ex_env =
  xe_build :: build
  xe_ext :: ext
  xe_prost :: prost
  xe_gen32 :: "'r \<Rightarrow> bytes \<times> 'r"
  xe_hex_decode :: "string \<Rightarrow> bytes option"
  xe_decode_envelope :: "bytes \<Rightarrow> decode_error + envelope"
  xe_decode_message :: "bytes \<Rightarrow> decode_error + service_msg option"

definition recv_envelope :: "'r ex_env \<Rightarrow> (ex_bus, 'e, envelope) cmd" where
  "recv_envelope E = on_stream (recv_to (xe_decode_envelope E))"

definition recv_message :: "'r ex_env \<Rightarrow> (ex_bus, 'e, service_msg option) cmd" where
  "recv_message E = on_remote (recv_to (xe_decode_message E))"

record ex_config =
  xc_eth_holder :: address
  xc_withdraw_receiver :: address

definition hex_address :: "'r ex_env \<Rightarrow> string \<Rightarrow> ('e, address) res" where
  "hex_address E s =
     bind_res (unwrap (xe_hex_decode E s)) (\<lambda>bs. unwrap_res (try_into_array 20 ByteLengthMissmatch bs))"

definition read_config :: "'r ex_env \<Rightarrow> ('e, ex_config) res" where
  "read_config E =
     bind_res (hex_address E ''5992089d61cE79B6CF90506F70DD42B8E42FB21d'') (\<lambda>eth_holder.
     bind_res (hex_address E ''c4bA4815c82727554e4c12A07a139b74c6742322'') (\<lambda>withdraw_receiver.
     Ok \<lparr>xc_eth_holder = eth_holder, xc_withdraw_receiver = withdraw_receiver\<rparr>))"

definition get_peers :: peers where
  "get_peers =
    [[0x7b, 0x7E, 0x21, 0x26, 0x52, 0xb9, 0xC3, 0x75, 0x5C, 0x4E, 0x1f, 0x17, 0x18, 0xa1, 0x42, 0xdD,
      0xE3, 0x81, 0x75, 0x23],
     [0xa6, 0x17, 0xfa, 0x2c, 0xc5, 0xeC, 0x8d, 0x72, 0xd4, 0xA6, 0x0b, 0x9F, 0x42, 0x46, 0x77, 0xe7,
      0x4E, 0x6b, 0xef, 0x68]]"

section \<open>The module \<open>net\<close>\<close>

text \<open>
  What the program uses of its module \<open>net\<close>, of which there are two, selected by a feature: the one over
  TCP here, and the scripted one of the theory \<open>Example_Script\<close>.
\<close>

record ('w, 'e) net_module =
  nm_read_config :: "('e, ex_config) res"
  nm_recv_envelope :: "('w, 'e, envelope) cmd"
  nm_recv_message :: "('w, 'e, service_msg option) cmd"
  nm_deliver :: "bytes_bus_msg \<Rightarrow> ('w, 'e, unit) cmd"

definition tcp_net :: "'r ex_env \<Rightarrow> (ex_bus, 'e) net_module" where
  "tcp_net E = \<lparr>nm_read_config = read_config E, nm_recv_envelope = recv_envelope E,
     nm_recv_message = recv_message E, nm_deliver = ex_deliver\<rparr>"

lemma tcp_net_simps [simp]:
  "nm_read_config (tcp_net E) = read_config E" "nm_recv_envelope (tcp_net E) = recv_envelope E"
  "nm_recv_message (tcp_net E) = recv_message E" "nm_deliver (tcp_net E) = ex_deliver"
  by (simp_all add: tcp_net_def)

section \<open>The program\<close>

text \<open>A call of the library through the bus; its error is unwrapped.\<close>

definition call ::
    "('w, 'f) net_module \<Rightarrow> 'r ex_env \<Rightarrow> ('c \<times> bus, 'e, 'a) cmd \<Rightarrow> 'c \<Rightarrow> ('w, 'f, 'a \<times> 'c) cmd" where
  "call N E m c bus =
     (case on_wire (xe_build E) (xe_ext E) (xe_prost E) (nm_deliver N)
         (\<lambda>cb. case m cb of (r, cb') \<Rightarrow> (unwrap_res r, cb')) (c, bus) of
        (r, (c', bus')) \<Rightarrow> (bind_res r (\<lambda>x. Ok (x, c')), bus'))"

definition ex_proposal :: "ex_config \<Rightarrow> address \<Rightarrow> bytes \<Rightarrow> bytes \<Rightarrow> ledger_channel_proposal" where
  "ex_proposal config addr proposal_id nonce_share =
     (let init_balance = [[1000000000000000000, 1000000000000000000]] in
      \<lparr>lp_proposal_id = proposal_id, lp_challenge_duration = 5, lp_nonce_share = nonce_share,
       lp_init_bals = Allocation_new [\<lparr>as_holder = xc_eth_holder config\<rparr>] init_balance,
       lp_funding_agreement = init_balance, lp_participant = addr, lp_peers = get_peers\<rparr>)"

text \<open>The update: 10 from participant 1 to participant 0; \<open>+=\<close> and \<open>-=\<close> panic on overflow.\<close>

definition ex_new_state :: "'r ex_env \<Rightarrow> state \<Rightarrow> ('e, state) res" where
  "ex_new_state E s =
     bind_res (make_next_state (xe_build E) s) (\<lambda>new_state.
     bind_res (index (al_balances (st_outcome new_state)) 0) (\<lambda>bals.
     bind_res (index bals 0) (\<lambda>x.
     bind_res (unwrap (u256_add (xe_ext E) x 10)) (\<lambda>x'.
     bind_res (set_index bals 0 x') (\<lambda>bals1.
     bind_res (index bals1 1) (\<lambda>y.
     bind_res (unwrap (u256_sub (xe_ext E) y 10)) (\<lambda>y'.
     bind_res (set_index bals1 1 y') (\<lambda>bals2.
     Ok (new_state\<lparr>st_outcome := (st_outcome new_state)\<lparr>al_balances :=
           (al_balances (st_outcome new_state))[0 := bals2]\<rparr>\<rparr>)))))))))"

text \<open>The response to an update; a rejection drops it.\<close>

definition handle_update_response ::
    "('w, 'e) net_module \<Rightarrow> 'r ex_env \<Rightarrow> active_channel \<Rightarrow> channel_update \<Rightarrow> ('w, 'e, active_channel) cmd" where
  "handle_update_response N E ch u =
     bindS (nm_recv_envelope N) (\<lambda>env. case env_msg env of
       Some (Sendable (WChannelUpdateAccMsg msg)) \<Rightarrow>
         bindS (lift_res (unwrap_res (LedgerChannelUpdateAccepted_try_from msg))) (\<lambda>acc.
         case participant_accepted (xe_build E) (xe_ext E) ch 1 acc u of
           (Ok _, u') \<Rightarrow> bindS (call N E (apply_update (xe_build E) u') ch) (\<lambda>(_, ch'). ret ch')
         | (Err _, u') \<Rightarrow> crash
         | (Panic, u') \<Rightarrow> crash)
     | Some (Sendable (WChannelUpdateRejMsg _ _ _)) \<Rightarrow> ret ch
     | _ \<Rightarrow> crash)"

text \<open>
  \<open>main\<close> in its three parts: the handshake and the proposal, the signatures on the initial state, and
  the open channel.  The first two return nothing when the peer rejects.
\<close>

definition propose_phase ::
    "('w, 'e) net_module \<Rightarrow> 'r ex_env \<Rightarrow> signer \<Rightarrow> ex_config \<Rightarrow> 'r \<Rightarrow> ('w, 'e, proposed_channel option) cmd" where
  "propose_phase N E signer config rng =
     (let addr = Signer_address signer; client = PerunClient_new signer;
          (proposal_id, rng1) = xe_gen32 E rng; (nonce_share, rng2) = xe_gen32 E rng1;
          prop = ex_proposal config addr proposal_id nonce_share
      in
      bindS (call N E (on_bus (\<lambda>bus. (Ok (), send_handshake_msg (get_peers ! 0) (get_peers ! 1) bus)) ::
               (unit \<times> bus, unit, unit) cmd) ()) (\<lambda>_.
      bindS (nm_recv_envelope N) (\<lambda>_.
      bindS (call N E (on_bus (propose_channel (xe_build E) client prop (xc_withdraw_receiver config))) ()) (\<lambda>(channel, _).
      bindS (nm_recv_envelope N) (\<lambda>env. case env_msg env of
        Some (Sendable (WLedgerChannelProposalAccMsg msg)) \<Rightarrow>
          bindS (lift_res (unwrap_res (LedgerChannelProposalAcc_try_from msg))) (\<lambda>acc.
          case proposal_participant_accepted (xe_build E) 1 acc channel of
            (Ok _, channel') \<Rightarrow> ret (Some channel')
          | (Err _, _) \<Rightarrow> crash
          | (Panic, _) \<Rightarrow> crash)
      | Some (Sendable (WChannelProposalRejMsg _ _)) \<Rightarrow> ret None
      | _ \<Rightarrow> crash)))))"

definition sign_phase ::
    "('w, 'e) net_module \<Rightarrow> 'r ex_env \<Rightarrow> proposed_channel \<Rightarrow> ('w, 'e, active_channel option) cmd" where
  "sign_phase N E channel =
     bindS (lift_res (unwrap_res (build_agreed (xe_build E) (xe_ext E) channel))) (\<lambda>agreed.
     bindS (call N E (sign (xe_build E) (xe_ext E)) agreed) (\<lambda>(_, agreed').
     bindS (nm_recv_envelope N) (\<lambda>env. case env_msg env of
       Some (Sendable (WChannelUpdateAccMsg msg)) \<Rightarrow>
         bindS (lift_res (unwrap_res (LedgerChannelUpdateAccepted_try_from msg))) (\<lambda>acc.
         case add_signature (xe_build E) (xe_ext E) acc agreed' of
           (Ok _, agreed'') \<Rightarrow>
             bindS (call N E (on_bus (build_signed (xe_build E) agreed'')) ()) (\<lambda>(signed, _).
             bindS (nm_recv_message N) (\<lambda>_.
             ret (Some (mark_funded signed))))
         | (Err _, _) \<Rightarrow> crash
         | (Panic, _) \<Rightarrow> crash)
     | Some (Sendable (WChannelUpdateRejMsg _ _ _)) \<Rightarrow> ret None
     | _ \<Rightarrow> crash)))"

definition update_phase :: "('w, 'e) net_module \<Rightarrow> 'r ex_env \<Rightarrow> active_channel \<Rightarrow> ('w, 'e, active_channel) cmd" where
  "update_phase N E channel =
     bindS (lift_res (ex_new_state E (ac_state channel))) (\<lambda>new_state.
     bindS (call N E (on_bus (update (xe_build E) (xe_ext E) channel new_state)) ()) (\<lambda>(u, _).
     bindS (handle_update_response N E channel u) (\<lambda>channel1.
     bindS (call N E (on_bus (close_normal (xe_build E) (xe_ext E) channel1)) ()) (\<lambda>(u', _).
     bindS (handle_update_response N E channel1 u') (\<lambda>channel2.
     bindS (call N E (on_bus (force_close channel2)) ()) (\<lambda>(channel3, _).
     bindS (nm_recv_message N) (\<lambda>_.
     ret channel3)))))))"

definition ex_main :: "('w, 'e) net_module \<Rightarrow> 'r ex_env \<Rightarrow> 'r \<Rightarrow> ('w, 'e, active_channel option) cmd" where
  "ex_main N E rng =
     bindS (lift_res (nm_read_config N)) (\<lambda>config.
     bindS (lift_res (Signer_new (xe_ext E) rng)) (\<lambda>signer.
     bindS (propose_phase N E signer config rng) (\<lambda>proposed. case proposed of
       None \<Rightarrow> ret None
     | Some channel \<Rightarrow>
         bindS (sign_phase N E channel) (\<lambda>active. case active of
           None \<Rightarrow> ret None
         | Some channel \<Rightarrow>
             bindS (update_phase N E channel) (\<lambda>channel'. ret (Some channel'))))))"

section \<open>Receiving\<close>

lemma ex_recv_framed:
  assumes "ts_in s = framed body @ rest" "length body < 2 ^ 16"
  shows "ex_recv s = (Ok body, s\<lparr>ts_in := rest\<rparr>)"
proof -
  have "2 \<le> length (ts_in s)" "be_val (take 2 (ts_in s)) = length body" "drop 2 (ts_in s) = body @ rest"
    using framed_parts [OF assms(2), of rest] assms(1) by simp_all
  then show ?thesis by (simp add: ex_recv_def bindS_def read_exact_def)
qed

text \<open>The example's receiver keeps the contract of the demo's, for bodies of any length a frame can have.\<close>

interpretation host_recv: framed_receiver "\<lambda>s. case ex_recv s of (r, s') \<Rightarrow> (bind_res r (\<lambda>x. Ok (Some x)), s')"
    ts_in "\<lambda>s. True" "2 ^ 16 - 1"
  by unfold_locales (simp add: ex_recv_framed)

lemma recv_to_framed:
  assumes "ts_in s = framed body @ rest" "length body < 2 ^ 16" "decode body = Inr m"
  shows "recv_to decode s = (Ok m, s\<lparr>ts_in := rest\<rparr>)"
  by (simp add: recv_to_def bindS_def ex_recv_framed [OF assms(1,2)] assms(3))

lemma recv_envelope_framed:
  assumes "ts_in (eb_stream bus) = framed body @ rest" "length body < 2 ^ 16"
    "xe_decode_envelope E body = Inr env"
  shows "recv_envelope E bus = (Ok env, bus\<lparr>eb_stream := (eb_stream bus)\<lparr>ts_in := rest\<rparr>\<rparr>)"
  by (simp add: recv_envelope_def on_stream_def recv_to_framed [where decode = "xe_decode_envelope E", OF assms])

lemma recv_message_framed:
  assumes "ts_in (eb_remote_stream bus) = framed body @ rest" "length body < 2 ^ 16"
    "xe_decode_message E body = Inr m"
  shows "recv_message E bus = (Ok m, bus\<lparr>eb_remote_stream := (eb_remote_stream bus)\<lparr>ts_in := rest\<rparr>\<rparr>)"
  by (simp add: recv_message_def on_remote_def recv_to_framed [where decode = "xe_decode_message E", OF assms])

end
