(* ===== verification/Example_Props.thy ===== *)
theory Example_Props
  imports Example Protocol
begin

text \<open>
  The host example against an honest peer.  A calculus of runs (\<open>runs\<close>) says which messages a part of
  the program takes off its two streams, what it returns and what it sends; the three phases of
  \<open>main\<close> are composed in it.
\<close>

section \<open>What waits on the streams\<close>

primrec arrives :: "(bytes \<Rightarrow> decode_error + 'm) \<Rightarrow> 'm list \<Rightarrow> bytes \<Rightarrow> bool" where
  "arrives decode [] bs \<longleftrightarrow> bs = []"
| "arrives decode (m # ms) bs \<longleftrightarrow> (case unframe bs of
     None \<Rightarrow> False | Some (body, rest) \<Rightarrow> decode body = Inr m \<and> arrives decode ms rest)"

text \<open>Frames with the given messages wait on the two streams, and the system takes every write.\<close>

definition waiting :: "'r ex_env \<Rightarrow> envelope list \<Rightarrow> service_msg option list \<Rightarrow> ex_bus \<Rightarrow> bool" where
  "waiting E es ms bus \<longleftrightarrow> arrives (xe_decode_envelope E) es (ts_in (eb_stream bus)) \<and>
     arrives (xe_decode_message E) ms (ts_in (eb_remote_stream bus)) \<and>
     ts_accept (eb_stream bus) = [] \<and> ts_accept (eb_remote_stream bus) = []"

section \<open>What is sent\<close>

text \<open>A message converts without a panic when the parameters it carries are those of two participants.\<close>

fun sendable :: "bus_msg \<Rightarrow> bool" where
  "sendable (ToParticipant s r m) \<longleftrightarrow> True"
| "sendable (ToWatcher (WatchRequest r)) \<longleftrightarrow> params_wf 2 (sl_params r)"
| "sendable (ToWatcher (StartDispute i)) \<longleftrightarrow> params_wf 2 (wi_params i)"
| "sendable (ToFunder (FundReq r)) \<longleftrightarrow> params_wf 2 (fr_params r)"
| "sendable (ToFunder (RegisterReqMsg r)) \<longleftrightarrow> params_wf 2 (ar_params (rr_adj_req r))"
| "sendable (ToFunder (WithdrawReqMsg r)) \<longleftrightarrow> params_wf 2 (ar_params (wr_adj_req r))"

text \<open>The body the encoder makes of a message is shorter than 64 KiB, so that it has a frame.\<close>

definition fits :: "'r ex_env \<Rightarrow> bus_msg \<Rightarrow> bool" where
  "fits E m = (case m of
     ToParticipant s r p \<Rightarrow> length (encode_envelope (xe_prost E)
       \<lparr>we_sender = s, we_recipient = r, we_msg = participant_wiremsg (xe_ext E) p\<rparr>) < 2 ^ 16
   | ToWatcher w \<Rightarrow> (\<forall>x. watcher_wiremsg (xe_build E) (xe_ext E) w = (Ok x :: (unit, _) res) \<longrightarrow>
       length (encode_message (xe_prost E) x) < 2 ^ 16)
   | ToFunder r \<Rightarrow> (\<forall>x. funder_wiremsg (xe_build E) (xe_ext E) r = (Ok x :: (unit, _) res) \<longrightarrow>
       length (encode_message (xe_prost E) x) < 2 ^ 16))"

text \<open>The buffers the protocol buffer layer makes of a message, for the peer and for the service.\<close>

definition buffers :: "'r ex_env \<Rightarrow> bus_msg \<Rightarrow> bytes_bus" where
  "buffers E m = snd (pb_send (xe_build E) (xe_ext E) (xe_prost E) m [] :: (unit, unit) res \<times> bytes_bus)"

fun peer_bytes service_bytes :: "bytes_bus_msg \<Rightarrow> bytes" where
  "peer_bytes (BytesToParticipant s r buf) = buf"
| "peer_bytes _ = []"
| "service_bytes (BytesToParticipant s r buf) = []"
| "service_bytes (BytesToWatcher buf) = buf"
| "service_bytes (BytesToFunder buf) = buf"

definition sent :: "'r ex_env \<Rightarrow> bus \<Rightarrow> ex_bus \<Rightarrow> ex_bus \<Rightarrow> bool" where
  "sent E msgs bus bus' \<longleftrightarrow>
     ts_out (eb_stream bus') = ts_out (eb_stream bus) @ concat (map peer_bytes (concat (map (buffers E) msgs))) \<and>
     ts_out (eb_remote_stream bus') =
       ts_out (eb_remote_stream bus) @ concat (map service_bytes (concat (map (buffers E) msgs)))"

lemma Params_into_Ok:
  assumes "u256_spec X" "params_wf 2 p"
  shows "Params_into b X p = Ok \<lparr>wp_id = keccak256 X (abi_encode (Params_abi p)),
    wp_challenge_duration = pa_challenge_duration p, wp_nonce = u256_to_big_endian X (pa_nonce p),
    wp_parts = pa_participants p, wp_app = [], wp_ledger_channel = pa_ledger_channel p,
    wp_virtual_channel = pa_virtual_channel p\<rparr>"
  by (simp add: Params_into_def Params_channel_id_eq [OF assms])

lemmas into_defs = StartWatching_into_def WatchInfo_into_def ForceClose_into_def
  LedgerChannelFundingRequest_into_def AdjudicatorReq_into_def RegisterReq_into_def WithdrawReq_into_def

lemma pb_send_Ok:
  assumes "u256_spec (xe_ext E)" "fits E m" "sendable m"
  shows "\<exists>buf. (\<forall>bus. pb_send (xe_build E) (xe_ext E) (xe_prost E) m bus = ((Ok () :: ('e, unit) res), bus @ [buf])) \<and>
    buffers E m = [buf]"
  using assms(2,3)
  by (induction m rule: sendable.induct)
    (simp_all add: pb_send_def buffers_def pb_send_to_participant_def pb_send_to_watcher_def pb_send_to_funder_def
      watcher_wiremsg_def funder_wiremsg_def into_defs Params_into_Ok [OF assms(1)] frame_def fits_def)

lemma pb_send_all_Ok:
  assumes "u256_spec (xe_ext E)" "list_all (fits E) msgs" "list_all sendable msgs"
  shows "pb_send_all (xe_build E) (xe_ext E) (xe_prost E) msgs bus =
    ((Ok () :: ('e, unit) res), bus @ concat (map (buffers E) msgs))"
  using assms(2,3)
proof (induction msgs arbitrary: bus)
  case (Cons m msgs)
  obtain buf where "\<And>bus. pb_send (xe_build E) (xe_ext E) (xe_prost E) m bus = ((Ok () :: ('e, unit) res), bus @ [buf])"
    "buffers E m = [buf]"
    using pb_send_Ok [OF assms(1), where ?'e = 'e] Cons.prems by auto
  then show ?case using Cons by (simp add: bindS_def)
qed simp

lemma deliver_all_Ok:
  assumes "waiting E es ms bus"
  shows "\<exists>bus'. deliver_all ex_deliver bufs bus = ((Ok () :: ('e, unit) res), bus') \<and> waiting E es ms bus' \<and>
    ts_out (eb_stream bus') = ts_out (eb_stream bus) @ concat (map peer_bytes bufs) \<and>
    ts_out (eb_remote_stream bus') = ts_out (eb_remote_stream bus) @ concat (map service_bytes bufs)"
  using assms
proof (induction bufs arbitrary: bus)
  case (Cons buf bufs)
  have "\<exists>bus1. ex_deliver buf bus = ((Ok () :: ('e, unit) res), bus1) \<and> waiting E es ms bus1 \<and>
      ts_out (eb_stream bus1) = ts_out (eb_stream bus) @ peer_bytes buf \<and>
      ts_out (eb_remote_stream bus1) = ts_out (eb_remote_stream bus) @ service_bytes buf"
    using Cons.prems
    by (cases buf) (simp_all add: ex_deliver_def ex_send_to_watcher_def ex_send_to_funder_def
        ex_send_to_participant_def on_stream_def on_remote_def stream_write_def waiting_def)
  then obtain bus1 where bus1: "ex_deliver buf bus = ((Ok () :: ('e, unit) res), bus1)" "waiting E es ms bus1"
      "ts_out (eb_stream bus1) = ts_out (eb_stream bus) @ peer_bytes buf"
      "ts_out (eb_remote_stream bus1) = ts_out (eb_remote_stream bus) @ service_bytes buf"
    by blast
  show ?case using Cons.IH [OF bus1(2)] bus1 by (auto simp: bindS_def)
qed simp

section \<open>Runs\<close>

text \<open>
  \<open>runs E m es ms x msgs es' ms'\<close>: with \<open>es\<close> and \<open>ms\<close> waiting, and if every message of \<open>msgs\<close> has a frame,
  \<open>m\<close> returns \<open>x\<close>, has sent \<open>msgs\<close> and leaves \<open>es'\<close> and \<open>ms'\<close> waiting.
\<close>

definition runs :: "'r ex_env \<Rightarrow> (ex_bus, 'e, 'a) cmd \<Rightarrow> envelope list \<Rightarrow> service_msg option list \<Rightarrow> 'a \<Rightarrow> bus \<Rightarrow>
    envelope list \<Rightarrow> service_msg option list \<Rightarrow> bool" where
  "runs E m es ms x msgs es' ms' \<longleftrightarrow> (\<forall>bus. list_all (fits E) msgs \<longrightarrow> waiting E es ms bus \<longrightarrow>
     (\<exists>bus'. m bus = (Ok x, bus') \<and> waiting E es' ms' bus' \<and> sent E msgs bus bus'))"

lemma runs_ret: "runs E (ret x) es ms x [] es ms"
  by (simp add: runs_def sent_def)

lemma runs_bind:
  "runs E m es ms x msgs es1 ms1 \<Longrightarrow> runs E (f x) es1 ms1 y msgs' es2 ms2 \<Longrightarrow>
    runs E (bindS m f) es ms y (msgs @ msgs') es2 ms2"
  unfolding runs_def sent_def by (fastforce simp: bindS_def)

lemma bindS_lift_Ok [simp]: "bindS (lift_res (Ok x)) f = f x"
  by (rule ext) simp

lemma runs_recv_envelope: "runs E (recv_envelope E :: (ex_bus, 'e, envelope) cmd) (e # es) ms e [] es ms"
proof -
  have "\<exists>bus'. recv_envelope E bus = ((Ok e :: ('e, envelope) res), bus') \<and> waiting E es ms bus' \<and> sent E [] bus bus'"
    if "waiting E (e # es) ms bus" for bus
  proof -
    from that obtain body rest where u: "unframe (ts_in (eb_stream bus)) = Some (body, rest)"
      "xe_decode_envelope E body = Inr e" "arrives (xe_decode_envelope E) es rest"
      by (auto simp: waiting_def split: option.splits)
    then have "recv_envelope E bus = ((Ok e :: ('e, envelope) res), bus\<lparr>eb_stream := (eb_stream bus)\<lparr>ts_in := rest\<rparr>\<rparr>)"
      by (intro recv_envelope_framed) (simp_all add: unframe_parts)
    then show ?thesis using that u(3) by (simp add: waiting_def sent_def)
  qed
  then show ?thesis by (simp add: runs_def)
qed

lemma runs_recv_message: "runs E (recv_message E :: (ex_bus, 'e, service_msg option) cmd) es (m # ms) m [] es ms"
proof -
  have "\<exists>bus'. recv_message E bus = ((Ok m :: ('e, service_msg option) res), bus') \<and> waiting E es ms bus' \<and> sent E [] bus bus'"
    if "waiting E es (m # ms) bus" for bus
  proof -
    from that obtain body rest where u: "unframe (ts_in (eb_remote_stream bus)) = Some (body, rest)"
      "xe_decode_message E body = Inr m" "arrives (xe_decode_message E) ms rest"
      by (auto simp: waiting_def split: option.splits)
    then have "recv_message E bus =
        ((Ok m :: ('e, service_msg option) res), bus\<lparr>eb_remote_stream := (eb_remote_stream bus)\<lparr>ts_in := rest\<rparr>\<rparr>)"
      by (intro recv_message_framed) (simp_all add: unframe_parts)
    then show ?thesis using that u(3) by (simp add: waiting_def sent_def)
  qed
  then show ?thesis by (simp add: runs_def)
qed

lemma call_Ok:
  fixes m :: "('c \<times> bus, 'e, 'a) cmd" and N :: "('w, 'f) net_module"
  assumes "u256_spec (xe_ext E)" "list_all (fits E) msgs" "list_all sendable msgs" "m (c, []) = (Ok x, (c', msgs))"
    "deliver_all (nm_deliver N) (concat (map (buffers E) msgs)) w = (Ok (), w')"
  shows "call N E m c w = (Ok (x, c'), w')"
  using assms(4,5) pb_send_all_Ok [OF assms(1-3), where bus = "[]" and ?'e = 'f] by (simp add: call_def on_wire_def)

lemma runs_call:
  fixes m :: "('c \<times> bus, 'e, 'a) cmd"
  assumes "u256_spec (xe_ext E)" "m (c, []) = (Ok x, (c', msgs))" "list_all sendable msgs"
  shows "runs E (call (tcp_net E) E m c :: (ex_bus, 'f, _) cmd) es ms (x, c') msgs es ms"
proof -
  have "\<exists>bus'. call (tcp_net E) E m c bus = ((Ok (x, c') :: ('f, _) res), bus') \<and> waiting E es ms bus' \<and> sent E msgs bus bus'"
    if f: "list_all (fits E) msgs" and w: "waiting E es ms bus" for bus
    using deliver_all_Ok [OF w, where bufs = "concat (map (buffers E) msgs)" and ?'e = 'f]
      call_Ok [OF assms(1) f assms(3), where m = m and N = "tcp_net E :: (ex_bus, 'f) net_module", OF assms(2)]
    by (auto simp: sent_def)
  then show ?thesis by (simp add: runs_def)
qed

text \<open>The same with what follows.\<close>

lemma then_recv_envelope:
  "runs E (f e) es ms y msgs es' ms' \<Longrightarrow> runs E (bindS (recv_envelope E) f) (e # es) ms y msgs es' ms'"
  using runs_bind [OF runs_recv_envelope] by fastforce

lemma then_recv_message:
  "runs E (f m) es ms y msgs es' ms' \<Longrightarrow> runs E (bindS (recv_message E) f) es (m # ms) y msgs es' ms'"
  using runs_bind [OF runs_recv_message] by fastforce

lemma then_call:
  assumes "m (c, []) = (Ok x, (c', msgs))" "u256_spec (xe_ext E)" "list_all sendable msgs"
    "runs E (f (x, c')) es ms y msgs' es' ms'"
  shows "runs E (bindS (call (tcp_net E) E m c) f) es ms y (msgs @ msgs') es' ms'"
  using runs_bind [where f = f, OF runs_call [where m = m, OF assms(2,1,3)] assms(4)] .

lemma then_call_bus:
  assumes "m [] = (Ok x, msgs)" "u256_spec (xe_ext E)" "list_all sendable msgs"
    "runs E (f (x, c)) es ms y msgs' es' ms'"
  shows "runs E (bindS (call (tcp_net E) E (on_bus m) c) f) es ms y (msgs @ msgs') es' ms'"
  using assms by (intro then_call [where x = x and c' = c]) (simp_all add: on_bus_def)

lemma then_call_bus1:
  assumes "m [] = (Ok x, [msg])" "u256_spec (xe_ext E)" "sendable msg"
    "runs E (f (x, c)) es ms y msgs es' ms'"
  shows "runs E (bindS (call (tcp_net E) E (on_bus m) c) f) es ms y (msg # msgs) es' ms'"
  using then_call_bus [of m x "[msg]" E f c] assms by simp

lemma then_call1:
  assumes "m (c, []) = (Ok x, (c', [msg]))" "u256_spec (xe_ext E)" "sendable msg"
    "runs E (f (x, c')) es ms y msgs es' ms'"
  shows "runs E (bindS (call (tcp_net E) E m c) f) es ms y (msg # msgs) es' ms'"
  using then_call [of m c x c' "[msg]" E f] assms by simp

section \<open>The run\<close>

text \<open>The update of the example, and the update that closes the channel.\<close>

definition paid :: "state \<Rightarrow> state" where
  "paid s = s\<lparr>st_version := st_version s + 1,
     st_outcome := (st_outcome s)\<lparr>al_balances := [[1000000000000000010, 999999999999999990]]\<rparr>\<rparr>"

definition finished :: "state \<Rightarrow> state" where
  "finished s = s\<lparr>st_version := st_version s + 1, st_is_final := True\<rparr>"

definition ex_states :: "ext \<Rightarrow> ledger_channel_proposal \<Rightarrow> ledger_channel_proposal_acc \<Rightarrow> state list" where
  "ex_states X p a = (let s = opened_state X p a in [s, paid s, finished (paid s)])"

text \<open>The peer's acceptance of a state.\<close>

definition accepts :: "state \<Rightarrow> signature \<Rightarrow> envelope_msg" where
  "accepts s sig = Sendable (WChannelUpdateAccMsg (LedgerChannelUpdateAccepted_into
     \<lparr>lua_channel = st_id s, lua_version = st_version s, lua_sig = sig\<rparr>))"

text \<open>
  What the example sends, in order: \<open>own\<close> are its signatures on the three states, \<open>theirs\<close> the peer's.
\<close>

definition watch :: "params \<Rightarrow> state \<Rightarrow> signature list \<Rightarrow> bus_msg" where
  "watch P s sigs = ToWatcher (WatchRequest \<lparr>sl_params = P, sl_state = s, sl_sigs = sigs\<rparr>)"

definition propose_msgs :: "ledger_channel_proposal \<Rightarrow> bus" where
  "propose_msgs p = map (ToParticipant (lp_peers p ! 0) (lp_peers p ! 1)) [Auth, ChannelProposal p]"

definition sign_msgs :: "ext \<Rightarrow> ledger_channel_proposal \<Rightarrow> ledger_channel_proposal_acc \<Rightarrow> signature \<Rightarrow> signature \<Rightarrow> bus" where
  "sign_msgs X p a own sig =
     (let s = opened_state X p a; P = opened_params X p a in
      [ToParticipant (lp_peers p ! 0) (lp_peers p ! 1)
         (ChannelUpdateAccepted \<lparr>lua_channel = st_id s, lua_version = 0, lua_sig = own\<rparr>),
       watch P s [own, sig],
       ToFunder (FundReq \<lparr>fr_part_idx = 0, fr_funding_agreement = lp_funding_agreement p, fr_params = P, fr_state = s\<rparr>)])"

definition update_msgs :: "peers \<Rightarrow> params \<Rightarrow> address \<Rightarrow> state \<Rightarrow> signature list \<Rightarrow> signature list \<Rightarrow> bus" where
  "update_msgs peers P r s own theirs =
     (let propose = (\<lambda>t sig. ToParticipant (peers ! 0) (peers ! 1)
            (ChannelUpdate \<lparr>lu_state = t, lu_actor_idx = 0, lu_sig = sig\<rparr>));
          s1 = paid s; s2 = finished s1
      in
      [propose s1 (own ! 0), watch P s1 [own ! 0, theirs ! 0], propose s2 (own ! 1), watch P s2 [own ! 1, theirs ! 1],
       ToFunder (RegisterReqMsg \<lparr>rr_adj_req = \<lparr>ar_params = P, ar_acc = r,
         ar_tx = \<lparr>tx_state = s2, tx_sigs = [own ! 1, theirs ! 1]\<rparr>, ar_idx = 0, ar_secondary = False\<rparr>\<rparr>)])"

definition ex_trace :: "ext \<Rightarrow> ledger_channel_proposal \<Rightarrow> ledger_channel_proposal_acc \<Rightarrow> address \<Rightarrow>
    signature list \<Rightarrow> signature list \<Rightarrow> bus" where
  "ex_trace X p a r own theirs = propose_msgs p @ sign_msgs X p a (hd own) (hd theirs) @
     update_msgs (lp_peers p) (opened_params X p a) r (opened_state X p a) (tl own) (tl theirs)"

lemma ex_proposal_wf:
  assumes "length (xc_eth_holder config) = 20" "length addr = 20" "length pid = 32" "length share = 32"
  shows "proposal_wf (ex_proposal config addr pid share)" "lp_challenge_duration (ex_proposal config addr pid share) \<noteq> 0"
  using assms by (simp_all add: proposal_wf_def proposal_ok_def ex_proposal_def Let_def Allocation_new_def allocation_wf_def get_peers_def)

lemma accepts_decodes:
  assumes "length (st_id s) = 32" "length sig = 65"
  shows "LedgerChannelUpdateAccepted_try_from (LedgerChannelUpdateAccepted_into
    \<lparr>lua_channel = st_id s, lua_version = st_version s, lua_sig = sig\<rparr>) =
      Ok \<lparr>lua_channel = st_id s, lua_version = st_version s, lua_sig = sig\<rparr>"
  using assms by (simp add: LedgerChannelUpdateAccepted_try_from_def LedgerChannelUpdateAccepted_into_def try_into_array_def)

lemma propose_phase_runs:
  fixes E :: "'r ex_env"
  assumes env: "env_ok (xe_ext E)"
    and p: "proposal_wf p" "lp_challenge_duration p \<noteq> 0" "p = ex_proposal config (Signer_address s) pid share"
    and gen: "xe_gen32 E rng = (pid, rng1)" "xe_gen32 E rng1 = (share, rng2)"
    and acc: "proposal_acc_wf (acc_of p n s1)"
    and e: "env_msg e = Some (Sendable (WLedgerChannelProposalAccMsg (LedgerChannelProposalAcc_into (acc_of p n s1))))"
  shows "runs E (propose_phase (tcp_net E) E s config rng :: (ex_bus, 'e, _) cmd) (e0 # e # es) ms
    (Some ((ProposedChannel_new (PerunClient_new s) 0 (xc_withdraw_receiver config) p)
      \<lparr>pr_responses := [Some (acc_of p n s1)]\<rparr>))
    (propose_msgs p) es ms"
proof -
  have u: "u256_spec (xe_ext E)" using env by (simp add: env_ok_def)
  have peers: "lp_peers p = get_peers" by (simp add: p(3) ex_proposal_def Let_def)
  have wire: "LedgerChannelProposalAcc_try_from (LedgerChannelProposalAcc_into (acc_of p n s1)) = Ok (acc_of p n s1)"
    using acc by (simp add: LedgerChannelProposalAcc_try_from_def LedgerChannelProposalAcc_into_def proposal_acc_wf_def
        try_into_array_def)
  note phase = proposal_phase [OF env p(1,2) acc]
  have handshake: "(\<lambda>bus. (Ok (), send_handshake_msg (get_peers ! 0) (get_peers ! 1) bus)) [] =
      ((Ok () :: (unit, unit) res), [ToParticipant (lp_peers p ! 0) (lp_peers p ! 1) Auth])"
    by (simp add: send_handshake_msg_def send_to_participant_def peers)
  show ?thesis
    unfolding propose_phase_def tcp_net_simps Let_def gen prod.case p(3) [symmetric] propose_msgs_def list.map
    by (rule then_call_bus1, rule handshake, rule u, simp, rule then_recv_envelope,
        rule then_call_bus1, rule phase(1), rule u, simp, unfold prod.case, rule then_recv_envelope)
      (simp add: e wire phase(3) [simplified] runs_ret del: ret_apply)
qed

lemma own_opening_signature:
  assumes "env_ok X" "agreed_wf X (agreed_side X p a s 0 r)"
  obtains own where "length own = 65" "sig_valid b X (opened_params X p a) (opened_state X p a) 0 own"
    "sign b X (agreed_side X p a s 0 r, []) = (Ok (), ((agreed_side X p a s 0 r)\<lparr>ag_signatures := [Some own, None]\<rparr>,
      [ToParticipant (lp_peers p ! 0) (lp_peers p ! 1) (ChannelUpdateAccepted (opening_msg X p a own))]))"
proof (rule sign_valid [of X "agreed_side X p a s 0 r" b])
  let ?c = "agreed_side X p a s 0 r"
  fix own
  assume own: "length own = 65" "sig_valid b X (ag_params ?c) (ag_init_state ?c) (ag_part_idx ?c) own"
    and "\<And>bus. sign b X (?c, bus) = (Ok (), (?c\<lparr>ag_signatures := (ag_signatures ?c)[ag_part_idx ?c := Some own]\<rparr>,
      bus @ [ToParticipant (ag_peers ?c ! ag_part_idx ?c) (ag_peers ?c ! (1 - ag_part_idx ?c))
        (ChannelUpdateAccepted \<lparr>lua_channel = st_id (ag_init_state ?c), lua_version = 0, lua_sig = own\<rparr>)]))"
  from this(3) [of "[]"] own show thesis by (intro that [of own]) (simp_all add: opening_msg_def)
qed (use assms in simp_all)

lemma sign_phase_runs:
  fixes E :: "'r ex_env"
  defines "X \<equiv> xe_ext E"
  assumes env: "env_ok X"
    and p: "proposal_wf p" "lp_challenge_duration p \<noteq> 0" and s: "signer_ok X s" "lp_participant p = sg_addr s"
    and acc: "a = acc_of p n s1" "proposal_acc_wf a" "sg_addr s \<noteq> sg_addr s1"
    and sig: "length sig = 65" "sig_valid (xe_build E) X (opened_params X p a) (opened_state X p a) 1 sig"
    and e: "env_msg e = Some (accepts (opened_state X p a) sig)"
  obtains own where "length own = 65" "sig_valid (xe_build E) X (opened_params X p a) (opened_state X p a) 0 own"
    "channel_wf X (opened_channel ((agreed_side X p a s 0 r)\<lparr>ag_signatures := [Some own, Some sig]\<rparr>))"
    "\<And>es m ms. runs E (sign_phase (tcp_net E) E ((ProposedChannel_new (PerunClient_new s) 0 r p)\<lparr>pr_responses := [Some a]\<rparr>)
        :: (ex_bus, 'e, _) cmd) (e # es) (m # ms)
      (Some (opened_channel ((agreed_side X p a s 0 r)\<lparr>ag_signatures := [Some own, Some sig]\<rparr>)))
      (sign_msgs X p a own sig) es ms"
proof -
  let ?b = "xe_build E"
  let ?c = "agreed_side X p a s 0 r" and ?s0 = "opened_state X p a"
  have u: "u256_spec (xe_ext E)" using env by (simp add: env_ok_def X_def)
  have wf: "agreed_wf X ?c"
    unfolding agreed_side_def using opened_agreed_wf [OF env p(1) acc(2) s(1), of 0] s(2) by simp
  obtain own where len: "length own = 65" and own: "sig_valid ?b X (opened_params X p a) ?s0 0 own"
    "sign ?b X (?c, []) = (Ok (), (?c\<lparr>ag_signatures := [Some own, None]\<rparr>,
        [ToParticipant (lp_peers p ! 0) (lp_peers p ! 1) (ChannelUpdateAccepted (opening_msg X p a own))]))"
    using env wf by (rule own_opening_signature)
  have id: "length (st_id ?s0) = 32" "st_version ?s0 = 0"
    using opened_state_wf [OF env proposal_wf_ok [OF p(1)], of a] by (simp_all add: state_wf_def opened_state_def)
  note wire = accepts_decodes [OF id(1) sig(1)]
  have "agreed_wf X (?c\<lparr>ag_signatures := [Some own, None]\<rparr>)" using wf by (simp add: agreed_wf_def agreed_ok_def)
  from add_signature_honest [OF this, of 1 ?b sig] sig(2) acc(3) s(2) id(2)
  have add: "add_signature ?b X \<lparr>lua_channel = st_id ?s0, lua_version = st_version ?s0, lua_sig = sig\<rparr>
      (?c\<lparr>ag_signatures := [Some own, None]\<rparr>) = (Ok (), ?c\<lparr>ag_signatures := [Some own, Some sig]\<rparr>)"
    by (simp add: opened_params_def acc(1) acc_of_def)
  note side = build_side [OF env wf own(1) sig(2)]
  have reqs: "list_all sendable (opening_requests (?c\<lparr>ag_signatures := [Some own, Some sig]\<rparr>))"
    using wf by (simp add: opening_requests_def agreed_wf_def agreed_ok_def)
  have build: "build_agreed ?b X ((ProposedChannel_new (PerunClient_new s) 0 r p)\<lparr>pr_responses := [Some a]\<rparr>) = Ok ?c"
    unfolding acc(1) by (rule proposal_phase(4) [OF env p acc(2) [unfolded acc(1)]])
  have "runs E (sign_phase (tcp_net E) E ((ProposedChannel_new (PerunClient_new s) 0 r p)\<lparr>pr_responses := [Some a]\<rparr>)
        :: (ex_bus, 'e, _) cmd) (e # es) (m # ms)
      (Some (opened_channel (?c\<lparr>ag_signatures := [Some own, Some sig]\<rparr>)))
      ([ToParticipant (lp_peers p ! 0) (lp_peers p ! 1) (ChannelUpdateAccepted (opening_msg X p a own))]
        @ opening_requests (?c\<lparr>ag_signatures := [Some own, Some sig]\<rparr>) @ []) es ms" for es m ms
    unfolding sign_phase_def tcp_net_simps X_def [symmetric] build unwrap_res.simps bindS_lift_Ok
    by (rule then_call [where m = "sign ?b X", OF own(2) u], simp, unfold prod.case, rule then_recv_envelope,
      simp add: e accepts_def wire add del: append_Nil2,
      rule then_call_bus [where m = "build_signed ?b _", OF side(1) u reqs], unfold prod.case, rule then_recv_message)
      (simp add: mark_funded_def runs_ret del: ret_apply)
  moreover have "[ToParticipant (lp_peers p ! 0) (lp_peers p ! 1) (ChannelUpdateAccepted (opening_msg X p a own))]
      @ opening_requests (?c\<lparr>ag_signatures := [Some own, Some sig]\<rparr>) @ [] = sign_msgs X p a own sig"
    by (simp add: sign_msgs_def Let_def opening_msg_def opening_requests_def watch_def)
      (simp add: agreed_side_def AgreedUponChannel_new_def)
  ultimately show ?thesis using len own(1) side(2) by (intro that) (simp_all only:)
qed

text \<open>One update, from the call that proposes it to the peer's acceptance.\<close>

lemma handle_update_response_runs:
  fixes E :: "'r ex_env"
  assumes env: "env_ok (xe_ext E)" and ch: "channel_wf (xe_ext E) ch"
    and t: "state_wf 1 2 t" "valid_transition (xe_build E) (ac_state ch) t"
    and sig: "length sig = 65" "sig_valid (xe_build E) (xe_ext E) (ac_params ch) t 1 sig"
    and e: "env_msg e = Some (accepts t sig)"
  shows "runs E (handle_update_response (tcp_net E) E ch (fresh_update ch t 0 own) :: (ex_bus, 'e, _) cmd) (e # es) ms
    (ch\<lparr>ac_state := t, ac_signatures := [own, sig]\<rparr>)
    [watch (ac_params ch) t [own, sig]] es ms"
proof -
  have u: "u256_spec (xe_ext E)" using env by (simp add: env_ok_def)
  have wire: "LedgerChannelUpdateAccepted_try_from (LedgerChannelUpdateAccepted_into
      \<lparr>lua_channel = st_id t, lua_version = st_version t, lua_sig = sig\<rparr>) =
      Ok \<lparr>lua_channel = st_id (ac_state ch), lua_version = st_version t, lua_sig = sig\<rparr>"
    using accepts_decodes [of t sig] t sig(1) by (simp add: state_wf_def valid_transition_def)
  have acc: "participant_accepted (xe_build E) (xe_ext E) ch (Suc 0)
      \<lparr>lua_channel = st_id (ac_state ch), lua_version = st_version t, lua_sig = sig\<rparr> (fresh_update ch t 0 own)
    = (Ok (), (fresh_update ch t 0 own)\<lparr>cu_signatures := map Some [own, sig]\<rparr>)"
    using honest_proposer [OF env t, of 0 sig own] sig(2) by (simp add: both_def)
  have "sendable (watch (ac_params ch) t [own, sig])" using ch by (simp add: channel_wf_def channel_ok_def watch_def)
  moreover have "apply_update (xe_build E) ((fresh_update ch t 0 own)\<lparr>cu_signatures := [Some own, Some sig]\<rparr>) (ch, []) =
      (Ok (), (ch\<lparr>ac_state := t, ac_signatures := [own, sig]\<rparr>, [watch (ac_params ch) t [own, sig]]))"
    using apply_fresh_signed [OF t(2), where i = 0 and sig = own and sigs = "[own, sig]"] by (simp add: watch_def)
  ultimately show ?thesis
    unfolding handle_update_response_def tcp_net_simps
    by (intro then_recv_envelope) (simp add: e accepts_def wire acc then_call1 [OF _ u] runs_ret del: ret_apply)
qed

lemma ex_new_state_paid:
  assumes "u256_spec (xe_ext E)" "al_balances (st_outcome s) = [[1000000000000000000, 1000000000000000000]]"
    "st_version s = 0"
  shows "ex_new_state E s = Ok (paid s)"
  using assms by (simp add: ex_new_state_def make_next_state_def u64_add_def u256_spec_def paid_def index_def set_index_def)

lemma paid_valid:
  assumes "state_wf 1 2 s" "al_balances (st_outcome s) = [[1000000000000000000, 1000000000000000000]]"
    "st_version s = 0" "\<not> st_is_final s"
  shows "state_wf 1 2 (paid s)" "valid_transition b s (paid s)"
  using assms by (simp_all add: paid_def state_wf_def allocation_wf_def valid_transition_def)

lemma finished_valid:
  assumes "state_wf 1 2 s" "st_version s = 1" "\<not> st_is_final s" "list_all (\<lambda>n. n < 2 ^ 256) (totals s)"
  shows "state_wf 1 2 (finished s)" "valid_transition b s (finished s)"
    "make_next_state b s = Ok ((finished s)\<lparr>st_is_final := False\<rparr>)"
  using assms by (simp_all add: finished_def state_wf_def valid_transition_def make_next_state_def u64_add_def)

lemma update_first:
  assumes "env_ok X" "channel_wf X ch" "state_wf 1 2 t" "valid_transition b (ac_state ch) t" "ac_part_idx ch = 0"
  obtains own where "length own = 65" "sig_valid b X (ac_params ch) t 0 own"
    "update b X ch t [] = (Ok (fresh_update ch t 0 own), [ToParticipant (ac_peers ch ! 0) (ac_peers ch ! 1)
      (ChannelUpdate \<lparr>lu_state = t, lu_actor_idx = 0, lu_sig = own\<rparr>)])"
proof (rule update_valid [OF assms(1-4)])
  fix own
  assume "length own = 65" "sig_valid b X (ac_params ch) t (ac_part_idx ch) own"
    "\<And>bus. update b X ch t bus = (Ok (fresh_update ch t (ac_part_idx ch) own),
       bus @ [ToParticipant (ac_peers ch ! ac_part_idx ch) (ac_peers ch ! (1 - ac_part_idx ch))
         (ChannelUpdate \<lparr>lu_state = t, lu_actor_idx = ac_part_idx ch, lu_sig = own\<rparr>)])"
  then show thesis using assms(5) by (intro that [of own]) simp_all
qed

text \<open>An update that a call proposes and the peer accepts, and what follows it.\<close>

lemma then_update:
  fixes E :: "'r ex_env" and f :: "active_channel \<Rightarrow> (ex_bus, 'e, 'a) cmd"
  defines "X \<equiv> xe_ext E" and "b \<equiv> xe_build E"
  assumes env: "env_ok X" and ch: "channel_wf X ch" "ac_part_idx ch = 0"
    and t: "state_wf 1 2 t" "valid_transition b (ac_state ch) t"
    and sig: "length sig = 65" "sig_valid b X (ac_params ch) t 1 sig" and e: "env_msg e = Some (accepts t sig)"
    and propose: "propose [] = update b X ch t []"
  obtains own where "length own = 65" "sig_valid b X (ac_params ch) t 0 own"
    "channel_wf X (ch\<lparr>ac_state := t, ac_signatures := [own, sig]\<rparr>)"
    "\<And>es ms y msgs es' ms'. runs E (f (ch\<lparr>ac_state := t, ac_signatures := [own, sig]\<rparr>)) es ms y msgs es' ms' \<Longrightarrow>
      runs E (bindS (call (tcp_net E) E (on_bus propose) ()) (\<lambda>(u, _). bindS (handle_update_response (tcp_net E) E ch u) f)) (e # es) ms y
       (ToParticipant (ac_peers ch ! 0) (ac_peers ch ! 1) (ChannelUpdate \<lparr>lu_state = t, lu_actor_idx = 0, lu_sig = own\<rparr>)
         # [watch (ac_params ch) t [own, sig]] @ msgs) es' ms'"
proof -
  have u: "u256_spec (xe_ext E)" using env by (simp add: env_ok_def X_def)
  obtain own where len: "length own = 65" and own: "sig_valid b X (ac_params ch) t 0 own"
    "update b X ch t [] = (Ok (fresh_update ch t 0 own), [ToParticipant (ac_peers ch ! 0) (ac_peers ch ! 1)
      (ChannelUpdate \<lparr>lu_state = t, lu_actor_idx = 0, lu_sig = own\<rparr>)])"
    using env ch(1) t ch(2) by (rule update_first)
  have h: "runs E (handle_update_response (tcp_net E) E ch (fresh_update ch t 0 own) :: (ex_bus, 'e, _) cmd) (e # es) ms
      (ch\<lparr>ac_state := t, ac_signatures := [own, sig]\<rparr>) [watch (ac_params ch) t [own, sig]] es ms" for es ms
    using env ch(1) t sig e unfolding X_def b_def by (rule handle_update_response_runs)
  show ?thesis
  proof (rule that [OF len own(1)])
    show "channel_wf X (ch\<lparr>ac_state := t, ac_signatures := [own, sig]\<rparr>)"
      using ch(1) t(1) by (simp add: channel_wf_def channel_ok_def)
  qed (rule then_call_bus1, rule propose [unfolded own(2)], rule u, simp, unfold prod.case,
      rule runs_bind, rule h)
qed

lemma update_phase_runs:
  fixes E :: "'r ex_env" and s :: state
  defines "X \<equiv> xe_ext E" and "b \<equiv> xe_build E"
  assumes env: "env_ok X" and ch: "channel_wf X ch" "ac_part_idx ch = 0" "ac_state ch = s"
    and s: "al_balances (st_outcome s) = [[1000000000000000000, 1000000000000000000]]" "st_version s = 0" "\<not> st_is_final s"
    and sig: "length sig1 = 65" "length sig2 = 65" "sig_valid b X (ac_params ch) (paid s) 1 sig1"
      "sig_valid b X (ac_params ch) (finished (paid s)) 1 sig2"
    and e: "env_msg e1 = Some (accepts (paid s) sig1)" "env_msg e2 = Some (accepts (finished (paid s)) sig2)"
  obtains own1 own2 where "length own1 = 65" "length own2 = 65" "sig_valid b X (ac_params ch) (paid s) 0 own1"
    "sig_valid b X (ac_params ch) (finished (paid s)) 0 own2"
    "\<And>es m ms. runs E (update_phase (tcp_net E) E ch :: (ex_bus, 'e, _) cmd) (e1 # e2 # es) (m # ms)
      (ch\<lparr>ac_state := finished (paid s), ac_signatures := [own2, sig2]\<rparr>)
      (update_msgs (ac_peers ch) (ac_params ch) (ac_withdraw_receiver ch) s [own1, own2] [sig1, sig2]) es ms"
proof -
  have u: "u256_spec (xe_ext E)" using env by (simp add: env_ok_def X_def)
  have wf: "state_wf 1 2 s" "params_wf 2 (ac_params ch)" using ch(1,3) by (simp_all add: channel_wf_def channel_ok_def)
  note s1 = paid_valid [OF wf(1) s]
  have "st_version (paid s) = 1" "\<not> st_is_final (paid s)" "list_all (\<lambda>n. n < 2 ^ 256) (totals (paid s))"
    using s by (simp_all add: paid_def)
  note s2 = finished_valid [OF s1(1) this]
  define close :: "active_channel \<Rightarrow> (ex_bus, 'e, active_channel) cmd" where
    "close c = bindS (call (tcp_net E) E (on_bus (force_close c)) ()) (\<lambda>(c', _). bindS (recv_message E) (\<lambda>_. ret c'))" for c
  define finish :: "active_channel \<Rightarrow> (ex_bus, 'e, active_channel) cmd" where
    "finish c = bindS (call (tcp_net E) E (on_bus (close_normal b X c)) ()) (\<lambda>(u, _). bindS (handle_update_response (tcp_net E) E c u) close)" for c
  have phase: "update_phase (tcp_net E) E ch = bindS (call (tcp_net E) E (on_bus (update b X ch (paid s))) ())
      (\<lambda>(u, _). bindS (handle_update_response (tcp_net E) E ch u) finish)"
    unfolding update_phase_def tcp_net_simps ch(3) ex_new_state_paid [OF u s(1,2)] bindS_lift_Ok finish_def close_def X_def b_def ..
  have v1: "valid_transition b (ac_state ch) (paid s)" using s1(2) ch(3) by simp
  let ?c1 = "\<lambda>own. ch\<lparr>ac_state := paid s, ac_signatures := [own, sig1]\<rparr>"
  obtain own1 where l1: "length own1 = 65" and o1: "sig_valid b X (ac_params ch) (paid s) 0 own1" "channel_wf X (?c1 own1)"
    and r1: "\<And>es ms y msgs es' ms'. runs E (finish (?c1 own1)) es ms y msgs es' ms' \<Longrightarrow>
      runs E (update_phase (tcp_net E) E ch :: (ex_bus, 'e, _) cmd) (e1 # es) ms y (ToParticipant (ac_peers ch ! 0) (ac_peers ch ! 1)
        (ChannelUpdate \<lparr>lu_state = paid s, lu_actor_idx = 0, lu_sig = own1\<rparr>)
        # [watch (ac_params ch) (paid s) [own1, sig1]] @ msgs) es' ms'"
  proof (rule then_update [where E = E and f = finish, folded X_def b_def,
        OF env ch(1,2) s1(1) v1 sig(1,3) e(1), where propose = "update b X ch (paid s)", folded phase])
  qed (rule refl, rule that)
  let ?c = "\<lambda>own. ch\<lparr>ac_state := finished (paid s), ac_signatures := [own, sig2]\<rparr>"
  have c1: "ac_part_idx (?c1 own1) = 0" "valid_transition b (ac_state (?c1 own1)) (finished (paid s))"
    "sig_valid b X (ac_params (?c1 own1)) (finished (paid s)) 1 sig2"
    "close_normal b X (?c1 own1) [] = update b X (?c1 own1) (finished (paid s)) []"
    using ch(2) s2(2) sig(4) by (simp_all add: close_normal_def s2(3)) (simp add: finished_def)
  obtain own2 where l2: "length own2 = 65" and o2: "sig_valid b X (ac_params ch) (finished (paid s)) 0 own2"
    and r2: "\<And>es ms y msgs es' ms'. runs E (close (?c own2)) es ms y msgs es' ms' \<Longrightarrow>
      runs E (finish (?c1 own1)) (e2 # es) ms y (ToParticipant (ac_peers ch ! 0) (ac_peers ch ! 1)
        (ChannelUpdate \<lparr>lu_state = finished (paid s), lu_actor_idx = 0, lu_sig = own2\<rparr>)
        # [watch (ac_params ch) (finished (paid s)) [own2, sig2]] @ msgs) es' ms'"
  proof (rule then_update [where E = E and f = close and propose = "close_normal b X (?c1 own1)", folded X_def b_def,
        OF env o1(2) c1(1) s2(1) c1(2) sig(2) c1(3) e(2) c1(4), folded finish_def])
  qed (rule that, simp_all)
  have r3: "runs E (close (?c own2)) es (m # ms) (?c own2)
      [ToFunder (RegisterReqMsg \<lparr>rr_adj_req = adjudicator_request (?c own2)\<rparr>)] es ms" for es m ms
    unfolding close_def using wf(2)
    by (intro then_call_bus1 [where x = "?c own2"])
      (simp_all add: sends u then_recv_message runs_ret del: ret_apply)
  show ?thesis
    using r1 [OF r2 [OF r3]] ch(2) by (intro that [OF l1 l2 o1(1) o2]) (simp add: update_msgs_def Let_def adjudicator_request_def)
qed

lemma read_config_lengths:
  "read_config E = Ok config \<Longrightarrow> length (xc_eth_holder config) = 20 \<and> length (xc_withdraw_receiver config) = 20"
  by (auto simp: read_config_def hex_address_def bind_res_Ok_iff try_into_array_def split: if_splits)

lemma signer_address_length: "env_ok X \<Longrightarrow> signer_ok X s \<Longrightarrow> length (Signer_address s) = 20"
  using Address_from_vk_length by (auto simp: signer_ok_def env_ok_def crypto_spec_def Signer_address_def)

lemma opened_state_simps:
  "al_balances (st_outcome (opened_state X (ex_proposal config addr pid share) a)) =
    [[1000000000000000000, 1000000000000000000]]"
  "st_version (opened_state X p a) = 0" "\<not> st_is_final (opened_state X p a)"
  by (simp_all add: opened_state_def ex_proposal_def Let_def Allocation_new_def)

lemma ex_main_runs:
  fixes E :: "'r ex_env"
  defines "X \<equiv> xe_ext E" and "b \<equiv> xe_build E"
  assumes env: "env_ok X"
    and set_up: "read_config E = (Ok config :: ('e, ex_config) res)" "Signer_new X rng = (Ok s :: ('e, signer) res)"
    and gen: "xe_gen32 E rng = (pid, rng1)" "xe_gen32 E rng1 = (share, rng2)" "length pid = 32" "length share = 32"
    and p: "p = ex_proposal config (Signer_address s) pid share" and a: "a = acc_of p n s1"
    and peer: "signer_ok X s1" "sg_addr s1 \<noteq> Signer_address s" "length n = 32"
    and len: "length theirs = 3" and sigs: "\<And>k. k < 3 \<Longrightarrow> length (theirs ! k) = 65 \<and>
        sig_valid b X (opened_params X p a) (ex_states X p a ! k) 1 (theirs ! k)"
    and e: "env_msg e1 = Some (Sendable (WLedgerChannelProposalAccMsg (LedgerChannelProposalAcc_into a)))"
      "env_msg e2 = Some (accepts (ex_states X p a ! 0) (theirs ! 0))"
      "env_msg e3 = Some (accepts (ex_states X p a ! 1) (theirs ! 1))"
      "env_msg e4 = Some (accepts (ex_states X p a ! 2) (theirs ! 2))"
  obtains own ch where "length own = 3" "\<forall>sig\<in>set own. length sig = 65" "ac_state ch = ex_states X p a ! 2" "ac_params ch = opened_params X p a"
    "ac_signatures ch = [own ! 2, theirs ! 2]"
    "\<And>k. k < 3 \<Longrightarrow> sig_valid b X (opened_params X p a) (ex_states X p a ! k) 0 (own ! k)"
    "runs E (ex_main (tcp_net E) E rng :: (ex_bus, 'e, _) cmd) [e0, e1, e2, e3, e4] [m1, m2] (Some ch)
      (ex_trace X p a (xc_withdraw_receiver config) own theirs) [] []"
proof -
  let ?r = "xc_withdraw_receiver config" and ?s0 = "opened_state X p a"
  have s: "signer_ok X s" "lp_participant p = sg_addr s"
    using Signer_new_signer_ok [OF set_up(2)] by (simp_all add: p ex_proposal_def Signer_address_def Let_def)
  have pwf: "proposal_wf p" "lp_challenge_duration p \<noteq> 0"
    using ex_proposal_wf read_config_lengths [OF set_up(1)] signer_address_length [OF env s(1)] gen(3,4)
    unfolding p by blast+
  have awf: "proposal_acc_wf (acc_of p n s1)" using env proposal_wf_ok [OF pwf(1)] peer(1,3) by (rule acc_of_wf)
  have ne: "sg_addr s \<noteq> sg_addr s1" using peer(2) by (auto simp: Signer_address_def)
  have S: "ex_states X p a ! 0 = ?s0" "ex_states X p a ! 1 = paid ?s0" "ex_states X p a ! 2 = finished (paid ?s0)"
    by (simp_all add: ex_states_def Let_def)
  have g: "length (theirs ! 0) = 65" "length (theirs ! 1) = 65" "length (theirs ! 2) = 65"
    "sig_valid b X (opened_params X p a) ?s0 1 (theirs ! 0)"
    "sig_valid b X (opened_params X p a) (paid ?s0) 1 (theirs ! 1)"
    "sig_valid b X (opened_params X p a) (finished (paid ?s0)) 1 (theirs ! 2)"
    using sigs [of 0] sigs [of 1] sigs [of 2] by (simp_all only: S)
  have propose: "runs E (propose_phase (tcp_net E) E s config rng :: (ex_bus, 'e, _) cmd) (e0 # e1 # es) ms
      (Some ((ProposedChannel_new (PerunClient_new s) 0 ?r p)\<lparr>pr_responses := [Some a]\<rparr>))
      (propose_msgs p) es ms" for es ms
    unfolding a using env [unfolded X_def] pwf p gen(1,2) awf e(1) [unfolded a] by (rule propose_phase_runs)
  define c where "c own = (agreed_side X p a s 0 ?r)\<lparr>ag_signatures := [Some own, Some (theirs ! 0)]\<rparr>" for own
  obtain own0 where l0: "length own0 = 65" and o0: "sig_valid b X (opened_params X p a) ?s0 0 own0" "channel_wf X (opened_channel (c own0))"
    and sign: "\<And>es m ms. runs E (sign_phase (tcp_net E) E ((ProposedChannel_new (PerunClient_new s) 0 ?r p)\<lparr>pr_responses := [Some a]\<rparr>)
        :: (ex_bus, 'e, _) cmd) (e2 # es) (m # ms) (Some (opened_channel (c own0)))
      (sign_msgs X p a own0 (theirs ! 0)) es ms"
  proof (rule sign_phase_runs [where E = E and ?'e = 'e and r = ?r and e = e2 and sig = "theirs ! 0", folded X_def b_def,
        OF env pwf s a awf [folded a] ne g(1,4) e(2) [unfolded S], folded c_def])
  qed (rule that)
  have c: "ac_part_idx (opened_channel (c own0)) = 0" "ac_state (opened_channel (c own0)) = ?s0"
    "ac_params (opened_channel (c own0)) = opened_params X p a" "ac_peers (opened_channel (c own0)) = lp_peers p"
    "ac_withdraw_receiver (opened_channel (c own0)) = ?r"
    by (simp_all add: opened_channel_def c_def) (simp add: agreed_side_def AgreedUponChannel_new_def)
  have P: "sig_valid b X (ac_params (opened_channel (c own0))) t 1 g" if "sig_valid b X (opened_params X p a) t 1 g" for t g
    using that by (simp add: c)
  note start = opened_state_simps(1) [of X config "Signer_address s" pid share a, folded p] opened_state_simps(2,3) [of X p a]
  obtain own1 own2 where l: "length own1 = 65" "length own2 = 65" and o: "sig_valid b X (opened_params X p a) (paid ?s0) 0 own1"
    "sig_valid b X (opened_params X p a) (finished (paid ?s0)) 0 own2"
    and upd: "\<And>es m ms. runs E (update_phase (tcp_net E) E (opened_channel (c own0)) :: (ex_bus, 'e, _) cmd) (e3 # e4 # es) (m # ms)
      ((opened_channel (c own0))\<lparr>ac_state := finished (paid ?s0), ac_signatures := [own2, theirs ! 2]\<rparr>)
      (update_msgs (lp_peers p) (opened_params X p a) ?r ?s0 [own1, own2] [theirs ! 1, theirs ! 2]) es ms"
  proof (rule update_phase_runs [where E = E and ?'e = 'e, folded X_def b_def, OF env o0(2) c(1,2) start g(2,3)
        P [OF g(5)] P [OF g(6)] e(3) [unfolded S] e(4) [unfolded S], unfolded c(3-5)])
  qed (rule that)
  let ?ch = "(opened_channel (c own0))\<lparr>ac_state := finished (paid ?s0), ac_signatures := [own2, theirs ! 2]\<rparr>"
  have trace: "ex_trace X p a ?r [own0, own1, own2] theirs = propose_msgs p @ sign_msgs X p a own0 (theirs ! 0) @
      update_msgs (lp_peers p) (opened_params X p a) ?r ?s0 [own1, own2] [theirs ! 1, theirs ! 2] @ []"
    using len by (simp add: ex_trace_def length_Suc_conv numeral_3_eq_3) auto
  have run: "runs E (ex_main (tcp_net E) E rng :: (ex_bus, 'e, _) cmd) [e0, e1, e2, e3, e4] [m1, m2] (Some ?ch)
      (ex_trace X p a ?r [own0, own1, own2] theirs) [] []"
    unfolding trace ex_main_def tcp_net_simps set_up X_def [symmetric] bindS_lift_Ok
    by (rule runs_bind, rule propose, unfold option.case, rule runs_bind, rule sign, unfold option.case,
        rule runs_bind, rule upd, rule runs_ret)
  show ?thesis
  proof (rule that [OF _ _ _ _ _ _ run])
    show "sig_valid b X (opened_params X p a) (ex_states X p a ! k) 0 ([own0, own1, own2] ! k)" if "k < 3" for k
      using that o0(1) o by (auto simp: numeral_3_eq_3 less_Suc_eq ex_states_def Let_def)
  qed (simp_all add: S c l0 l)
qed

text \<open>
  C14: the example opens, updates and closes a channel with an honest peer.  When the peer answers the
  handshake, accepts the proposal and signs each of the three states, the service answers twice, the
  system takes every write whole, and the encoder makes less than 64 KiB of each of the ten messages
  of this run (their fields have fixed sizes, the signatures 65 bytes), \<open>main\<close> runs to its end without a panic: the channel then is at
  version 2, final, with 10 units moved, and each state carries valid signatures of both sides.  Both
  streams are read to their end, and what has been written is exactly the frames of the protocol's
  messages in order, ending with the request to register that final state.
\<close>

theorem honest_run:
  fixes E :: "'r ex_env" and rng :: 'r
  defines "X \<equiv> xe_ext E" and "b \<equiv> xe_build E"
  assumes env: "env_ok X"
    and set_up: "read_config E = (Ok config :: ('e, ex_config) res)" "Signer_new X rng = (Ok s :: ('e, signer) res)"
    and gen: "xe_gen32 E rng = (pid, rng1)" "xe_gen32 E rng1 = (share, rng2)" "length pid = 32" "length share = 32"
    and p: "p = ex_proposal config (Signer_address s) pid share" and a: "a = acc_of p n s1"
    and peer: "signer_ok X s1" "sg_addr s1 \<noteq> Signer_address s" "length n = 32"
    and len: "length theirs = 3" and sigs: "\<And>k. k < 3 \<Longrightarrow> length (theirs ! k) = 65 \<and>
        sig_valid b X (opened_params X p a) (ex_states X p a ! k) 1 (theirs ! k)"
    and answers: "map env_msg es = greeting #
        map Some (Sendable (WLedgerChannelProposalAccMsg (LedgerChannelProposalAcc_into a)) #
          map2 accepts (ex_states X p a) theirs)"
    and bus: "waiting E es [m1, m2] bus"
    and frames: "\<And>own. length own = 3 \<Longrightarrow> \<forall>sig\<in>set own. length sig = 65 \<Longrightarrow>
      list_all (fits E) (ex_trace X p a (xc_withdraw_receiver config) own theirs)"
  shows "\<exists>ch bus' own. ex_main (tcp_net E) E rng bus = ((Ok (Some ch) :: ('e, _) res), bus') \<and>
    st_version (ac_state ch) = 2 \<and> st_is_final (ac_state ch) \<and>
    al_balances (st_outcome (ac_state ch)) = [[10 ^ 18 + 10, 10 ^ 18 - 10]] \<and>
    ac_state ch = ex_states X p a ! 2 \<and> ac_signatures ch = [own ! 2, theirs ! 2] \<and>
    (\<forall>k<3. fully_signed b X (opened_params X p a) (ex_states X p a ! k) [own ! k, theirs ! k]) \<and>
    waiting E [] [] bus' \<and> sent E (ex_trace X p a (xc_withdraw_receiver config) own theirs) bus bus'"
proof -
  obtain e0 e1 e2 e3 e4 where es: "es = [e0, e1, e2, e3, e4]" and
    e: "env_msg e1 = Some (Sendable (WLedgerChannelProposalAccMsg (LedgerChannelProposalAcc_into a)))"
      "env_msg e2 = Some (accepts (ex_states X p a ! 0) (theirs ! 0))"
      "env_msg e3 = Some (accepts (ex_states X p a ! 1) (theirs ! 1))"
      "env_msg e4 = Some (accepts (ex_states X p a ! 2) (theirs ! 2))"
    using answers len by (auto simp: map_eq_Cons_conv ex_states_def Let_def numeral_3_eq_3 length_Suc_conv)
  obtain own ch where own: "length own = 3" "\<forall>sig\<in>set own. length sig = 65" and ch: "ac_state ch = ex_states X p a ! 2" "ac_params ch = opened_params X p a"
    "ac_signatures ch = [own ! 2, theirs ! 2]"
    "\<And>k. k < 3 \<Longrightarrow> sig_valid b X (opened_params X p a) (ex_states X p a ! k) 0 (own ! k)"
    and run: "runs E (ex_main (tcp_net E) E rng :: (ex_bus, 'e, _) cmd) [e0, e1, e2, e3, e4] [m1, m2] (Some ch)
      (ex_trace X p a (xc_withdraw_receiver config) own theirs) [] []"
  proof (rule ex_main_runs [where E = E and ?'e = 'e, folded X_def b_def, OF env set_up gen p a peer len sigs e])
  qed (assumption, rule that)
  have "ex_states X p a ! 2 = finished (paid (opened_state X p a))" by (simp add: ex_states_def Let_def)
  then have "st_version (ac_state ch) = 2" "st_is_final (ac_state ch)"
    "al_balances (st_outcome (ac_state ch)) = [[10 ^ 18 + 10, 10 ^ 18 - 10]]"
    by (simp_all add: ch(1) finished_def paid_def opened_state_simps(2))
  moreover have "fully_signed b X (opened_params X p a) (ex_states X p a ! k) [own ! k, theirs ! k]" if "k < 3" for k
    using ch(4) [OF that] sigs [OF that] by (simp add: fully_signed_def)
  ultimately show ?thesis using run bus ch(1,3) frames [OF own] unfolding runs_def es by blast
qed

section \<open>A run on concrete streams\<close>

text \<open>
  The environment of the toy cryptography: the peer is the toy signer 9, and a received body is the
  number of an answer in a table.
\<close>

definition toy_config :: ex_config where
  "toy_config = \<lparr>xc_eth_holder = replicate 20 1, xc_withdraw_receiver = replicate 20 1\<rparr>"

definition host_signer :: signer where
  "host_signer = \<lparr>sg_key = private_key_bytes, sg_addr = rev (take 20 private_key_bytes)\<rparr>"

definition run_proposal :: ledger_channel_proposal where
  "run_proposal = ex_proposal toy_config (Signer_address host_signer) (replicate 32 5) (replicate 32 5)"

definition run_acc :: ledger_channel_proposal_acc where
  "run_acc = acc_of run_proposal (replicate 32 3) (toy_signer 9)"

definition run_sigs :: "signature list" where
  "run_sigs = map (toy_sig 9) (ex_states toy_ext run_proposal run_acc)"

definition run_answers :: "envelope list" where
  "run_answers = map (\<lambda>m. \<lparr>env_sender = get_peers ! 1, env_recipient = get_peers ! 0, env_msg = Some m\<rparr>)
     (Sendable WAuthResponseMsg # Sendable (WLedgerChannelProposalAccMsg (LedgerChannelProposalAcc_into run_acc)) #
      map2 accepts (ex_states toy_ext run_proposal run_acc) run_sigs)"

definition run_env :: "nat ex_env" where
  "run_env = \<lparr>xe_build = dbg32, xe_ext = toy_ext,
     xe_prost = \<lparr>encode_message = (\<lambda>_. [1]), encode_envelope = (\<lambda>_. [2])\<rparr>,
     xe_gen32 = (\<lambda>g. (replicate 32 5, g)), xe_hex_decode = (\<lambda>_. Some (replicate 20 1)),
     xe_decode_envelope = (\<lambda>bs. Inr (run_answers ! unat (hd bs))),
     xe_decode_message = (\<lambda>bs. Inr None)\<rparr>"

definition run_bus :: ex_bus where
  "run_bus = Bus_new
     \<lparr>ts_in = concat (map framed [[0], [1], [2], [3], [4]]), ts_out = [], ts_accept = []\<rparr>
     \<lparr>ts_in = framed [9] @ framed [9], ts_out = [], ts_accept = []\<rparr>"

lemma run_set_up:
  "read_config run_env = Ok toy_config" "Signer_new toy_ext rng = Ok host_signer"
  by (simp_all add: read_config_def hex_address_def run_env_def try_into_array_def toy_config_def Signer_new_def
      Address_from_vk_def Let_def host_signer_def toy_ext_def toy_hash_def private_key_bytes_def)

lemma unframe_framed: "length body < 2 ^ 16 \<Longrightarrow> unframe (framed body @ rest) = Some (body, rest)"
  by (simp add: unframe_parts)

lemma run_waiting: "waiting run_env run_answers [None, None] run_bus"
proof -
  obtain a0 a1 a2 a3 a4 where five: "run_answers = [a0, a1, a2, a3, a4]"
    by (simp add: run_answers_def run_sigs_def ex_states_def Let_def)
  have "unframe (framed [k]) = Some ([k], [])" for k using unframe_framed [of "[k]" "[]"] by simp
  then show ?thesis
    unfolding waiting_def run_env_def five by (simp add: run_bus_def Bus_new_def unframe_framed)
qed

lemma run_proposal_wf: "proposal_wf run_proposal"
  unfolding run_proposal_def
  by (intro ex_proposal_wf) (simp_all add: toy_config_def Signer_address_def host_signer_def private_key_bytes_def)

lemma run_states: "k < 3 \<Longrightarrow> state_wf 1 2 (ex_states toy_ext run_proposal run_acc ! k)"
proof -
  have s: "state_wf 1 2 (opened_state toy_ext run_proposal run_acc)"
    using toy_env_ok proposal_wf_ok [OF run_proposal_wf] by (rule opened_state_wf)
  then have "state_wf 1 2 (paid (opened_state toy_ext run_proposal run_acc))"
    by (intro paid_valid) (simp_all add: opened_state_simps run_proposal_def)
  with s show "k < 3 \<Longrightarrow> ?thesis"
    by (auto simp: ex_states_def Let_def numeral_3_eq_3 less_Suc_eq) (simp add: finished_def state_wf_def)
qed

lemma toy_sig_length:
  assumes "state_wf 1 2 s"
  shows "length (toy_sig k s) = 65"
proof -
  obtain h where h: "to_hash dbg32 toy_ext (State_sval toy_ext s) = Ok h"
    using toy_env_ok assms by (rule state_hash_Ok)
  obtain sig where "sign_eth dbg32 toy_ext (toy_signer k) h = (Ok sig :: (unit, signature) res)" "length sig = 65"
    using toy_crypto_spec toy_signer_ok [of k] by (rule sign_recover)
  then show ?thesis using h by (simp add: toy_sig_def)
qed

theorem honest_run_witness:
  "\<exists>ch bus'. ex_main (tcp_net run_env) run_env 0 run_bus = ((Ok (Some ch) :: (unit, _) res), bus') \<and>
    st_version (ac_state ch) = 2 \<and> st_is_final (ac_state ch)"
proof -
  have X: "xe_ext run_env = toy_ext" "xe_build run_env = dbg32" by (simp_all add: run_env_def)
  have ok: "env_ok (xe_ext run_env)" using toy_env_ok by (simp add: X)
  have frames: "list_all (fits run_env) msgs" for msgs
    by (auto simp: list_all_iff fits_def run_env_def split: bus_msg.split)
  have gen: "xe_gen32 run_env g = (replicate 32 5, g)" for g by (simp add: run_env_def)
  have "hd (sg_addr (toy_signer 9)) \<noteq> hd (Signer_address host_signer)"
    by (simp add: toy_signer_def Signer_address_def host_signer_def private_key_bytes_def)
  then have ne: "sg_addr (toy_signer 9) \<noteq> Signer_address host_signer" by auto
  have len: "length run_sigs = 3" by (simp add: run_sigs_def ex_states_def Let_def)
  have sigs: "length (run_sigs ! k) = 65 \<and> sig_valid dbg32 toy_ext (opened_params toy_ext run_proposal run_acc)
      (ex_states toy_ext run_proposal run_acc ! k) 1 (run_sigs ! k)" if "k < 3" for k
    using that toy_sig_length [OF run_states [OF that]] toy_sig_valid [OF run_states [OF that]] len
    by (simp add: run_sigs_def opened_params_def run_acc_def acc_of_def toy_signer_def)
  have answers: "map env_msg run_answers = Some (Sendable WAuthResponseMsg) #
      map Some (Sendable (WLedgerChannelProposalAccMsg (LedgerChannelProposalAcc_into run_acc)) #
        map2 accepts (ex_states toy_ext run_proposal run_acc) run_sigs)"
    by (simp add: run_answers_def)
  show ?thesis
    using honest_run [where ?'e = unit, OF ok run_set_up(1), unfolded X, OF run_set_up(2) gen gen _ _ run_proposal_def run_acc_def toy_signer_ok
        ne _ len sigs answers run_waiting] frames by simp blast
qed

end
