(* ===== verification/Agreement.thy ===== *)
theory Agreement
  imports Transitions "HOL-Library.Sublist"
begin

text \<open>
  The protocol two ends of a channel follow, without signatures and encodings: what each end
  has agreed to so far, the update it has proposed and not heard of, and the messages in flight
  in either direction, in order.  This is the specification the network of two demo channels
  refines; its invariant says where the two logs can be.
\<close>

section \<open>The protocol\<close>

text \<open>
  Which states may follow which, which are final, and the one the channel opens with.
\<close>

record 's rules =
  ru_next :: "'s \<Rightarrow> 's \<Rightarrow> bool"
  ru_final :: "'s \<Rightarrow> bool"
  ru_init :: 's

text \<open>
  An end has proposed the channel, agreed to it and signed, waits for its watcher and funder,
  takes updates, or takes none any more.
\<close>

datatype status = S_Proposed | S_Agreed | S_Waiting | S_Open | S_Done

record 's endpoint =
  ep_status :: status
  ep_log :: "'s list"
  ep_pending :: "'s option"

datatype 's amsg = A_Proposal | A_Accept 's | A_Update 's

record 's aconf =
  cf_end :: "bool \<Rightarrow> 's endpoint"
  cf_in :: "bool \<Rightarrow> 's amsg list"

definition extend_log :: "'s rules \<Rightarrow> 's \<Rightarrow> 's endpoint \<Rightarrow> 's endpoint" where
  "extend_log R t e = e\<lparr>ep_log := ep_log e @ [t], ep_pending := None,
     ep_status := if ru_final R t then S_Done else S_Open\<rparr>"

fun receive :: "'s rules \<Rightarrow> 's amsg \<Rightarrow> 's endpoint \<Rightarrow> 's endpoint \<times> 's amsg list" where
  "receive R A_Proposal e = (if ep_status e = S_Proposed
     then (e\<lparr>ep_status := S_Agreed\<rparr>, [A_Accept (ru_init R)]) else (e, []))"
| "receive R (A_Accept t) e = (case ep_status e of
     S_Agreed \<Rightarrow> (e\<lparr>ep_status := S_Waiting, ep_log := [t]\<rparr>, [])
   | S_Open \<Rightarrow> (if ep_pending e = Some t then (extend_log R t e, []) else (e, []))
   | _ \<Rightarrow> (e, []))"
| "receive R (A_Update t) e = (if ep_status e = S_Open \<and> ep_pending e = None
     then (extend_log R t e, [A_Accept t]) else (e, []))"

definition deliver :: "'s rules \<Rightarrow> bool \<Rightarrow> 's amsg \<Rightarrow> 's amsg list \<Rightarrow> 's aconf \<Rightarrow> 's aconf" where
  "deliver R p m q c = (case receive R m (cf_end c p) of (e, out) \<Rightarrow>
     \<lparr>cf_end = (cf_end c)(p := e), cf_in = (cf_in c)(p := q, \<not> p := cf_in c (\<not> p) @ out)\<rparr>)"

inductive astep :: "'s rules \<Rightarrow> 's aconf \<Rightarrow> 's aconf \<Rightarrow> bool" for R where
  receiving: "cf_in c p = m # q \<Longrightarrow> astep R c (deliver R p m q c)"
| proposing: "ep_status (cf_end c p) = S_Open \<Longrightarrow> ep_pending (cf_end c p) = None \<Longrightarrow>
    ru_next R (last (ep_log (cf_end c p))) t \<Longrightarrow>
    astep R c \<lparr>cf_end = (cf_end c)(p := (cf_end c p)\<lparr>ep_pending := Some t\<rparr>),
      cf_in = (cf_in c)(\<not> p := cf_in c (\<not> p) @ [A_Update t])\<rparr>"
| funding: "ep_status (cf_end c p) = S_Waiting \<Longrightarrow>
    astep R c (c\<lparr>cf_end := (cf_end c)(p := (cf_end c p)\<lparr>ep_status := S_Open\<rparr>)\<rparr>)"
| leaving: "ep_status (cf_end c p) = S_Open \<Longrightarrow>
    astep R c (c\<lparr>cf_end := (cf_end c)(p := (cf_end c p)\<lparr>ep_status := S_Done\<rparr>)\<rparr>)"

section \<open>The invariant\<close>

definition end_ok :: "'s rules \<Rightarrow> 's endpoint \<Rightarrow> bool" where
  "end_ok R e \<longleftrightarrow> (case ep_status e of
     S_Proposed \<Rightarrow> ep_log e = [] \<and> ep_pending e = None
   | S_Agreed \<Rightarrow> ep_log e = [] \<and> ep_pending e = None
   | S_Waiting \<Rightarrow> ep_log e = [ru_init R] \<and> ep_pending e = None
   | _ \<Rightarrow> ep_log e \<noteq> [] \<and> hd (ep_log e) = ru_init R \<and> successively (ru_next R) (ep_log e) \<and>
       (\<forall>t. ep_pending e = Some t \<longrightarrow> ru_next R (last (ep_log e)) t))"

text \<open>The log an end has, or will have once the opening is through.\<close>

definition agreed_log :: "'s rules \<Rightarrow> 's endpoint \<Rightarrow> 's list" where
  "agreed_log R e = (if ep_log e = [] then [ru_init R] else ep_log e)"

text \<open>What an end's proposal may have left on the way.\<close>

definition in_flight :: "'s option \<Rightarrow> 's amsg list \<Rightarrow> bool" where
  "in_flight u q \<longleftrightarrow> q = [] \<or> (\<exists>t. u = Some t \<and> q = [A_Update t])"

text \<open>
  The ends are level, or the second is one ahead because it accepted a proposal whose
  acceptance is still under way to the first, or was lost on it.
\<close>

definition level :: "'s rules \<Rightarrow> 's endpoint \<Rightarrow> 's endpoint \<Rightarrow> 's amsg list \<Rightarrow> 's amsg list \<Rightarrow> bool" where
  "level R e f qe qf \<longleftrightarrow> agreed_log R e = agreed_log R f \<and>
     in_flight (ep_pending e) qf \<and> in_flight (ep_pending f) qe"

definition ahead :: "'s rules \<Rightarrow> 's endpoint \<Rightarrow> 's endpoint \<Rightarrow> 's amsg list \<Rightarrow> 's amsg list \<Rightarrow> bool" where
  "ahead R e f qe qf \<longleftrightarrow> (\<exists>t. ep_pending e = Some t \<and> agreed_log R f = agreed_log R e @ [t] \<and> qf = [] \<and>
     (\<exists>q. in_flight (ep_pending f) q \<and> (qe = A_Accept t # q \<or> ep_status e = S_Done \<and> qe = q)))"

definition related :: "'s rules \<Rightarrow> 's endpoint \<Rightarrow> 's endpoint \<Rightarrow> 's amsg list \<Rightarrow> 's amsg list \<Rightarrow> bool" where
  "related R e f qe qf \<longleftrightarrow> level R e f qe qf \<or> ahead R e f qe qf \<or> ahead R f e qf qe"

text \<open>The messages of the opening that still have to come, in front of everything else.\<close>

definition opening_in :: "'s rules \<Rightarrow> 's aconf \<Rightarrow> bool \<Rightarrow> 's amsg list" where
  "opening_in R c p = (case ep_status (cf_end c p) of
     S_Proposed \<Rightarrow> [A_Proposal, A_Accept (ru_init R)]
   | S_Agreed \<Rightarrow> if p \<or> ep_status (cf_end c (\<not> p)) \<noteq> S_Proposed then [A_Accept (ru_init R)] else []
   | _ \<Rightarrow> [])"

definition early :: "status \<Rightarrow> bool" where
  "early s \<longleftrightarrow> s \<in> {S_Proposed, S_Agreed, S_Waiting}"

definition opening_order :: "'s aconf \<Rightarrow> bool" where
  "opening_order c \<longleftrightarrow> ep_status (cf_end c False) \<noteq> S_Proposed \<and>
     (ep_status (cf_end c True) = S_Proposed \<longrightarrow> ep_status (cf_end c False) = S_Agreed)"

definition agree_inv :: "'s rules \<Rightarrow> 's aconf \<Rightarrow> bool" where
  "agree_inv R c \<longleftrightarrow> (\<forall>p. end_ok R (cf_end c p)) \<and> opening_order c \<and>
     (\<exists>r. (\<forall>p. cf_in c p = opening_in R c p @ r p \<and> (early (ep_status (cf_end c p)) \<longrightarrow> r (\<not> p) = [])) \<and>
          related R (cf_end c True) (cf_end c False) (r True) (r False))"

definition initial_aconf :: "'s rules \<Rightarrow> 's aconf" where
  "initial_aconf R = \<lparr>
     cf_end = (\<lambda>p. \<lparr>ep_status = if p then S_Proposed else S_Agreed, ep_log = [], ep_pending = None\<rparr>),
     cf_in = (\<lambda>p. if p then [A_Proposal, A_Accept (ru_init R)] else [])\<rparr>"

lemma initial_agree_inv: "agree_inv R (initial_aconf R)"
  unfolding agree_inv_def
  by (auto simp: initial_aconf_def end_ok_def opening_in_def related_def level_def in_flight_def
      agreed_log_def opening_order_def intro!: exI [of _ "\<lambda>p. []"])

lemma related_sym: "related R e f qe qf \<Longrightarrow> related R f e qf qe"
  by (auto simp: related_def level_def)

text \<open>The invariant, seen from either end.\<close>

lemma agree_inv_side:
  "agree_inv R c \<longleftrightarrow> end_ok R (cf_end c p) \<and> end_ok R (cf_end c (\<not> p)) \<and>
     opening_order c \<and>
     (\<exists>qp qq. cf_in c p = opening_in R c p @ qp \<and> cf_in c (\<not> p) = opening_in R c (\<not> p) @ qq \<and>
        (early (ep_status (cf_end c p)) \<longrightarrow> qq = []) \<and> (early (ep_status (cf_end c (\<not> p))) \<longrightarrow> qp = []) \<and>
        related R (cf_end c p) (cf_end c (\<not> p)) qp qq)"
  (is "_ \<longleftrightarrow> ?rhs")
proof
  assume "agree_inv R c"
  then obtain r where r: "\<forall>p. end_ok R (cf_end c p)" "opening_order c"
    "\<forall>p. cf_in c p = opening_in R c p @ r p \<and> (early (ep_status (cf_end c p)) \<longrightarrow> r (\<not> p) = [])"
    "related R (cf_end c True) (cf_end c False) (r True) (r False)"
    unfolding agree_inv_def by blast
  have "related R (cf_end c p) (cf_end c (\<not> p)) (r p) (r (\<not> p))"
    using r(4) by (cases p) (auto intro: related_sym)
  with r(1,2) r(3) [rule_format, of p] r(3) [rule_format, of "\<not> p"] show ?rhs
    by (intro conjI exI [of _ "r p"] exI [of _ "r (\<not> p)"]) simp_all
next
  assume ?rhs
  then obtain qp qq where r: "end_ok R (cf_end c p)" "end_ok R (cf_end c (\<not> p))"
    "opening_order c"
    "cf_in c p = opening_in R c p @ qp" "cf_in c (\<not> p) = opening_in R c (\<not> p) @ qq"
    "early (ep_status (cf_end c p)) \<longrightarrow> qq = []" "early (ep_status (cf_end c (\<not> p))) \<longrightarrow> qp = []"
    "related R (cf_end c p) (cf_end c (\<not> p)) qp qq"
    by blast
  have all: "(\<forall>q. P q) \<longleftrightarrow> P p \<and> P (\<not> p)" for P by (cases p) (auto simp: all_bool_eq)
  have "related R (cf_end c True) (cf_end c False) (((\<lambda>_. qq)(p := qp)) True) (((\<lambda>_. qq)(p := qp)) False)"
    using r(8) by (cases p) (auto intro: related_sym)
  then show "agree_inv R c"
    unfolding agree_inv_def all using r
    by (intro conjI exI [of _ "(\<lambda>_. qq)(p := qp)"]) simp_all
qed

section \<open>Every step keeps the invariant\<close>

lemmas status_defs = end_ok_def early_def agreed_log_def

text \<open>Without the opening: what one end does with the next message of the other.\<close>

lemma extend_log_simps [simp]:
  "ep_log (extend_log R t e) = ep_log e @ [t]" "ep_pending (extend_log R t e) = None"
  "ep_status (extend_log R t e) = (if ru_final R t then S_Done else S_Open)"
  by (simp_all add: extend_log_def)

lemma agreed_log_extend [simp]: "ep_log e \<noteq> [] \<Longrightarrow> agreed_log R (extend_log R t e) = agreed_log R e @ [t]"
  by (simp add: agreed_log_def)

lemma end_ok_extend:
  "end_ok R e \<Longrightarrow> ep_status e = S_Open \<Longrightarrow> ru_next R (last (ep_log e)) t \<Longrightarrow> end_ok R (extend_log R t e)"
  by (auto simp: end_ok_def successively_append_iff)

lemma end_ok_open: "end_ok R e \<Longrightarrow> ep_status e = S_Open \<Longrightarrow> ep_log e \<noteq> []"
  by (simp add: end_ok_def)

lemma end_ok_pending:
  assumes "end_ok R e" "ep_pending e = Some t"
  shows "\<not> early (ep_status e)" "ep_log e \<noteq> []" "ru_next R (last (agreed_log R e)) t"
  using assms by (auto simp: status_defs split: status.splits)

lemma in_flight_simps [simp]:
  "in_flight u []" "in_flight u (m # q) \<longleftrightarrow> q = [] \<and> (\<exists>t. u = Some t \<and> m = A_Update t)"
  "in_flight None q \<longleftrightarrow> q = []"
  by (auto simp: in_flight_def)

text \<open>The message an end finds next: an update of the other end, or the acceptance of its own.\<close>

lemma related_next_cases:
  assumes "related R e f (m # qe) qf" "end_ok R e" "end_ok R f"
  obtains (update) t where "m = A_Update t" "qe = []" "ep_pending f = Some t" "agreed_log R e = agreed_log R f"
      "in_flight (ep_pending e) qf"
  | (accept) t where "m = A_Accept t" "ep_pending e = Some t" "agreed_log R f = agreed_log R e @ [t]"
      "qf = []" "in_flight (ep_pending f) qe"
  | (lost) t t' where "m = A_Update t'" "qe = []" "qf = []" "ep_status e = S_Done" "ep_pending e = Some t"
      "agreed_log R f = agreed_log R e @ [t]" "ep_pending f = Some t'"
  using assms(1) unfolding related_def level_def ahead_def by (auto elim: that)

lemma related_receive:
  assumes "related R e f (m # qe) qf" "end_ok R e" "end_ok R f" "receive R m e = (e', out)"
    "ep_status e \<noteq> S_Proposed" "ep_status e \<noteq> S_Agreed"
  shows "related R e' f qe (qf @ out) \<and> end_ok R e' \<and> (early (ep_status e) \<longrightarrow> out = [] \<and> e' = e) \<and>
    (\<not> early (ep_status e) \<longrightarrow> \<not> early (ep_status e'))"
  using assms(1-3)
proof (cases rule: related_next_cases)
  case (update t)
  have level: "related R e f [] qf" using update by (simp add: related_def level_def)
  show ?thesis
  proof (cases "ep_status e = S_Open \<and> ep_pending e = None")
    case True
    have succ: "ru_next R (last (ep_log e)) t"
      using end_ok_pending [OF assms(3) update(3)] update(4) end_ok_open [OF assms(2)] True
      by (simp add: agreed_log_def)
    have "ahead R f e' [A_Accept t] []"
      using assms(4) True update end_ok_open [OF assms(2)] by (auto simp: ahead_def)
    then show ?thesis
      using assms(4) True update end_ok_extend [OF assms(2) _ succ]
      by (auto simp: related_def early_def split: if_splits)
  qed (use update level assms(2,4) in auto)
next
  case (accept t)
  note pend = end_ok_pending [OF assms(2) accept(2)]
  show ?thesis
  proof (cases "ep_status e = S_Open")
    case True
    have "ru_next R (last (ep_log e)) t" using pend by (simp add: agreed_log_def)
    then show ?thesis
      using assms(4) True accept pend end_ok_extend [OF assms(2) True]
      by (auto simp: related_def level_def early_def split: if_splits)
  next
    case False
    then have "ep_status e = S_Done" using pend(1) by (cases "ep_status e") (simp_all add: early_def)
    then show ?thesis using assms(2,4) accept by (auto simp: related_def ahead_def early_def)
  qed
next
  case (lost t t')
  then show ?thesis using assms(2,4) by (auto simp: related_def ahead_def early_def)
qed

lemma related_propose:
  "related R e f qe qf \<Longrightarrow> ep_pending e = None \<Longrightarrow> related R (e\<lparr>ep_pending := Some t\<rparr>) f qe (qf @ [A_Update t])"
  by (auto simp: related_def level_def ahead_def agreed_log_def dest!: spec [of _ "[A_Update t]"])

lemma related_status:
  assumes "related R e f qe qf" "agreed_log R e' = agreed_log R e" "ep_pending e' = ep_pending e"
    "ep_pending e = None \<or> ep_status e' = S_Done"
  shows "related R e' f qe qf"
  using assms by (auto simp: related_def level_def ahead_def)

text \<open>An end in the opening finds the next message of the opening.\<close>

lemma opening_in_if:
  "opening_in R c p = (if ep_status (cf_end c p) = S_Proposed then [A_Proposal, A_Accept (ru_init R)]
   else if ep_status (cf_end c p) = S_Agreed \<and> (p \<or> ep_status (cf_end c (\<not> p)) \<noteq> S_Proposed)
   then [A_Accept (ru_init R)] else [])"
  by (simp add: opening_in_def split: status.split)

lemma opening_in_update:
  assumes "\<And>p. ep_status (cf_end c' p) = S_Proposed \<longleftrightarrow> ep_status (cf_end c p) = S_Proposed"
    "\<And>p. ep_status (cf_end c' p) = S_Agreed \<longleftrightarrow> ep_status (cf_end c p) = S_Agreed"
  shows "opening_in R c' p = opening_in R c p" "opening_order c' = opening_order c"
  by (simp_all only: opening_in_if opening_order_def assms)

text \<open>Steps that leave the opening as it is.\<close>

lemma agree_inv_update:
  assumes inv: "agree_inv R c" and p: "ep_status (cf_end c p) \<noteq> S_Proposed" "ep_status (cf_end c p) \<noteq> S_Agreed"
    and e: "end_ok R e" "ep_status e \<noteq> S_Proposed" "ep_status e \<noteq> S_Agreed"
    and q: "\<And>qp qq. cf_in c p = qp \<Longrightarrow> cf_in c (\<not> p) = opening_in R c (\<not> p) @ qq \<Longrightarrow>
      related R (cf_end c p) (cf_end c (\<not> p)) qp qq \<Longrightarrow> end_ok R (cf_end c (\<not> p)) \<Longrightarrow>
      (early (ep_status (cf_end c p)) \<Longrightarrow> qq = []) \<Longrightarrow>
      related R e (cf_end c (\<not> p)) q' (qq @ out) \<and> (early (ep_status e) \<longrightarrow> qq @ out = []) \<and>
      (qp = [] \<longrightarrow> q' = [])"
  shows "agree_inv R \<lparr>cf_end = (cf_end c)(p := e), cf_in = (cf_in c)(p := q', \<not> p := cf_in c (\<not> p) @ out)\<rparr>"
    (is "agree_inv R ?c")
proof -
  have none: "opening_in R c p = []" using p by (auto simp: opening_in_def split: status.splits)
  obtain qp qq where r: "end_ok R (cf_end c (\<not> p))" "opening_order c" "cf_in c p = qp"
    "cf_in c (\<not> p) = opening_in R c (\<not> p) @ qq" "early (ep_status (cf_end c p)) \<longrightarrow> qq = []"
    "early (ep_status (cf_end c (\<not> p))) \<longrightarrow> qp = []" "related R (cf_end c p) (cf_end c (\<not> p)) qp qq"
    using inv none unfolding agree_inv_side [of R c p] by auto
  note n = q [OF r(3,4,7,1)]
  have "ep_status (cf_end ?c x) = S_Proposed \<longleftrightarrow> ep_status (cf_end c x) = S_Proposed"
    "ep_status (cf_end ?c x) = S_Agreed \<longleftrightarrow> ep_status (cf_end c x) = S_Agreed" for x
    using p e by (cases "x = p"; simp)+
  note same = opening_in_update [of ?c c, OF this]
  show ?thesis
    unfolding agree_inv_side [of R _ p] same using r none n e(1)
    by (auto intro!: exI [of _ q'] exI [of _ "qq @ out"])
qed

lemma receive_opening:
  assumes inv: "agree_inv R c" "cf_in c p = m # q" and
    early: "ep_status (cf_end c p) = S_Proposed \<or> ep_status (cf_end c p) = S_Agreed"
  shows "agree_inv R (deliver R p m q c)"
proof -
  obtain qq qp where r: "end_ok R (cf_end c p)" "end_ok R (cf_end c (\<not> p))" "opening_order c"
    "m # q = opening_in R c p @ qp" "cf_in c (\<not> p) = opening_in R c (\<not> p) @ qq"
    "early (ep_status (cf_end c p)) \<longrightarrow> qq = []" "early (ep_status (cf_end c (\<not> p))) \<longrightarrow> qp = []"
    "related R (cf_end c p) (cf_end c (\<not> p)) qp qq"
    using inv unfolding agree_inv_side [of R c p] by auto
  have qq: "qq = []" using r(6) early by (auto simp: early_def)
  have log: "ep_log (cf_end c p) = []" "ep_pending (cf_end c p) = None" using r(1) early by (auto simp: end_ok_def)
  show ?thesis
  proof (cases "ep_status (cf_end c p) = S_Proposed")
    case True
    then have p: "p" "ep_status (cf_end c (\<not> p)) = S_Agreed" using r(3) by (cases p; simp add: opening_order_def)+
    have "qp = []" using r(7) p by (simp add: early_def)
    then have m: "m = A_Proposal" "q = [A_Accept (ru_init R)]" using r(4) True by (simp_all add: opening_in_def)
    have "related R ((cf_end c p)\<lparr>ep_status := S_Agreed\<rparr>) (cf_end c (\<not> p)) [] []"
      using log by (intro related_status [OF r(8) [unfolded qq \<open>qp = []\<close>]])
        (auto simp: agreed_log_def)
    then show ?thesis
      unfolding agree_inv_side [of R _ p] using m p r qq \<open>qp = []\<close> log True
      by (simp add: deliver_def opening_in_def opening_order_def end_ok_def)
  next
    case False
    then have ag: "ep_status (cf_end c p) = S_Agreed" using early by simp
    have first: "p \<or> ep_status (cf_end c (\<not> p)) \<noteq> S_Proposed"
      using r(4,7) ag by (auto simp: opening_in_def early_def split: if_splits)
    then have m: "m = A_Accept (ru_init R)" "q = qp" using r(4) ag by (simp_all add: opening_in_def)
    let ?e = "(cf_end c p)\<lparr>ep_status := S_Waiting, ep_log := [ru_init R]\<rparr>"
    have "related R ?e (cf_end c (\<not> p)) qp []"
      using log qq by (intro related_status [OF r(8) [unfolded qq]]) (auto simp: agreed_log_def)
    moreover have "opening_in R (deliver R p m q c) (\<not> p) = opening_in R c (\<not> p)"
      using ag m first by (auto simp: deliver_def opening_in_def split: status.splits)
    moreover have "opening_order (deliver R p m q c)"
      using ag m first r(3) by (cases p) (auto simp: deliver_def opening_order_def)
    ultimately show ?thesis
      unfolding agree_inv_side [of R _ p] using m r qq log ag
      by (simp add: deliver_def opening_in_def end_ok_def)
  qed
qed

lemma receive_inv:
  assumes inv: "agree_inv R c" "cf_in c p = m # q"
  shows "agree_inv R (deliver R p m q c)"
proof (cases "ep_status (cf_end c p) = S_Proposed \<or> ep_status (cf_end c p) = S_Agreed")
  case False
  obtain e out where e: "receive R m (cf_end c p) = (e, out)" by (cases "receive R m (cf_end c p)")
  have ok: "end_ok R (cf_end c p)" using inv by (simp add: agree_inv_def)
  obtain qq where "related R (cf_end c p) (cf_end c (\<not> p)) (m # q) qq" "end_ok R (cf_end c (\<not> p))"
    using inv False unfolding agree_inv_side [of R c p] by (auto simp: opening_in_def split: status.splits)
  with related_receive [OF this(1) ok this(2) e] False
  have e': "end_ok R e" "ep_status e \<noteq> S_Proposed" "ep_status e \<noteq> S_Agreed"
    by (auto simp: early_def)
  have "agree_inv R \<lparr>cf_end = (cf_end c)(p := e), cf_in = (cf_in c)(p := q, \<not> p := cf_in c (\<not> p) @ out)\<rparr>"
  proof (rule agree_inv_update [OF inv(1) _ _ e'])
    fix qp qq
    assume "cf_in c p = qp" and rel: "related R (cf_end c p) (cf_end c (\<not> p)) qp qq"
      and f: "end_ok R (cf_end c (\<not> p))" and qq: "early (ep_status (cf_end c p)) \<Longrightarrow> qq = []"
    then have "related R (cf_end c p) (cf_end c (\<not> p)) (m # q) qq" using inv(2) by simp
    from related_receive [OF this ok f e] False qq \<open>cf_in c p = qp\<close> inv(2)
    show "related R e (cf_end c (\<not> p)) q (qq @ out) \<and> (early (ep_status e) \<longrightarrow> qq @ out = []) \<and>
      (qp = [] \<longrightarrow> q = [])" by auto
  qed (use False in auto)
  then show ?thesis by (simp add: deliver_def e)
qed (use receive_opening [OF inv] in blast)

lemma agree_inv_status:
  assumes "agree_inv R c" "ep_status (cf_end c p) = S_Waiting \<and> s = S_Open \<or> ep_status (cf_end c p) = S_Open \<and> s = S_Done"
  shows "agree_inv R (c\<lparr>cf_end := (cf_end c)(p := (cf_end c p)\<lparr>ep_status := s\<rparr>)\<rparr>)"
proof -
  have ok: "end_ok R (cf_end c p)" using assms(1) by (simp add: agree_inv_def)
  have "end_ok R ((cf_end c p)\<lparr>ep_status := s\<rparr>)" "ep_pending (cf_end c p) = None \<or> s = S_Done"
    using ok assms(2) by (auto simp: end_ok_def)
  then have "agree_inv R \<lparr>cf_end = (cf_end c)(p := (cf_end c p)\<lparr>ep_status := s\<rparr>),
      cf_in = (cf_in c)(p := cf_in c p, \<not> p := cf_in c (\<not> p) @ [])\<rparr>"
    using assms by (intro agree_inv_update) (auto simp: early_def agreed_log_def intro: related_status)
  then show ?thesis by (cases c) simp
qed

lemma agree_inv_step:
  assumes inv: "agree_inv R c" and step: "astep R c c'"
  shows "agree_inv R c'"
  using step
proof cases
  case (receiving p m q)
  then show ?thesis using receive_inv [OF inv] by simp
next
  case (proposing p t)
  let ?e = "(cf_end c p)\<lparr>ep_pending := Some t\<rparr>"
  have "end_ok R (cf_end c p)" using inv by (simp add: agree_inv_def)
  then have "end_ok R ?e" using proposing by (simp add: end_ok_def)
  then have "agree_inv R \<lparr>cf_end = (cf_end c)(p := ?e),
      cf_in = (cf_in c)(p := cf_in c p, \<not> p := cf_in c (\<not> p) @ [A_Update t])\<rparr>"
    using inv proposing related_propose by (intro agree_inv_update) (auto simp: early_def)
  then show ?thesis unfolding proposing(1) by simp
next
  case (funding p)
  then show ?thesis using agree_inv_status [OF inv] by simp
next
  case (leaving p)
  then show ?thesis using agree_inv_status [OF inv] by simp
qed

interpretation agree: invariant_system "astep R" "agree_inv R"
  by unfold_locales (rule agree_inv_step)

section \<open>What the invariant gives\<close>

text \<open>An end never finds a message it has no use for, except after a crossing or when it is done.\<close>

definition expected :: "'s rules \<Rightarrow> 's amsg \<Rightarrow> 's endpoint \<Rightarrow> bool" where
  "expected R m e = (case m of
     A_Proposal \<Rightarrow> ep_status e = S_Proposed
   | A_Accept t \<Rightarrow> ep_status e = S_Agreed \<and> t = ru_init R \<or>
       \<not> early (ep_status e) \<and> ep_pending e = Some t \<and> ru_next R (last (ep_log e)) t
   | A_Update t \<Rightarrow> ep_status e = S_Waiting \<or> \<not> early (ep_status e) \<and>
       (ep_pending e = None \<longrightarrow> ep_status e = S_Open \<longrightarrow> ru_next R (last (ep_log e)) t))"

lemma agree_expected:
  assumes inv: "agree_inv R c" "cf_in c p = m # q"
  shows "expected R m (cf_end c p)"
proof -
  obtain qp qq where r: "end_ok R (cf_end c p)" "end_ok R (cf_end c (\<not> p))"
    "m # q = opening_in R c p @ qp" "early (ep_status (cf_end c (\<not> p))) \<longrightarrow> qp = []"
    "related R (cf_end c p) (cf_end c (\<not> p)) qp qq"
    using inv unfolding agree_inv_side [of R c p] by auto
  show ?thesis
  proof (cases "opening_in R c p = []")
    case True
    then have late: "ep_status (cf_end c p) = S_Waiting \<or> \<not> early (ep_status (cf_end c p))"
      using r(3,4) by (auto simp: opening_in_if early_def split: if_splits status.splits)
    have "related R (cf_end c p) (cf_end c (\<not> p)) (m # q) qq" using r(3,5) True by simp
    then show ?thesis using r(1,2)
    proof (cases rule: related_next_cases)
      case (update t)
      with late end_ok_pending(3) [OF r(2) update(3)] r(1) show ?thesis
        by (auto simp: expected_def agreed_log_def end_ok_def)
    next
      case (accept t)
      with end_ok_pending [OF r(1) accept(2)] show ?thesis by (simp add: expected_def agreed_log_def)
    qed (use late in \<open>auto simp: expected_def early_def\<close>)
  next
    case False
    then show ?thesis using r(3) by (auto simp: opening_in_if expected_def split: if_splits)
  qed
qed

text \<open>
  The two logs: successors all along from the initial state, one a prefix of the other, at most
  one state apart, and the same as soon as two open ends have no message left on the way.
\<close>

lemma agree_logs:
  assumes "agree_inv R c"
  shows "prefix (ep_log (cf_end c p)) (ep_log (cf_end c (\<not> p))) \<or>
      prefix (ep_log (cf_end c (\<not> p))) (ep_log (cf_end c p))"
    "length (ep_log (cf_end c p)) \<le> length (ep_log (cf_end c (\<not> p))) + 1"
    "successively (ru_next R) (ep_log (cf_end c p))"
    "ep_log (cf_end c p) \<noteq> [] \<Longrightarrow> hd (ep_log (cf_end c p)) = ru_init R"
    "ep_status (cf_end c p) = S_Open \<Longrightarrow> ep_status (cf_end c (\<not> p)) = S_Open \<Longrightarrow>
      cf_in c p = [] \<Longrightarrow> cf_in c (\<not> p) = [] \<Longrightarrow> ep_log (cf_end c p) = ep_log (cf_end c (\<not> p))"
proof -
  obtain qp qq where r: "end_ok R (cf_end c p)" "end_ok R (cf_end c (\<not> p))"
    "cf_in c p = opening_in R c p @ qp" "cf_in c (\<not> p) = opening_in R c (\<not> p) @ qq"
    "related R (cf_end c p) (cf_end c (\<not> p)) qp qq"
    using assms unfolding agree_inv_side [of R c p] by auto
  have log: "ep_log e = [] \<or> hd (ep_log e) = ru_init R" "successively (ru_next R) (ep_log e)" if "end_ok R e" for e
    using that by (auto simp: end_ok_def split: status.splits)
  show "successively (ru_next R) (ep_log (cf_end c p))"
    "ep_log (cf_end c p) \<noteq> [] \<Longrightarrow> hd (ep_log (cf_end c p)) = ru_init R"
    using log [OF r(1)] by auto
  have pend: "ep_log e \<noteq> []" if "end_ok R e" "ep_pending e = Some t" for e t
    using end_ok_pending(2) [OF that] .
  show "prefix (ep_log (cf_end c p)) (ep_log (cf_end c (\<not> p))) \<or>
      prefix (ep_log (cf_end c (\<not> p))) (ep_log (cf_end c p))"
    "length (ep_log (cf_end c p)) \<le> length (ep_log (cf_end c (\<not> p))) + 1"
    using r(5) pend [OF r(1)] pend [OF r(2)]
    by (auto simp: related_def level_def ahead_def agreed_log_def split: if_splits)
  show "ep_log (cf_end c p) = ep_log (cf_end c (\<not> p))"
    if "ep_status (cf_end c p) = S_Open" "ep_status (cf_end c (\<not> p)) = S_Open" "cf_in c p = []" "cf_in c (\<not> p) = []"
    using that r by (auto simp: related_def level_def ahead_def agreed_log_def end_ok_def)
qed

text \<open>An end can only be behind with a state it proposed itself.\<close>

lemma agree_ahead:
  assumes "agree_inv R c" "ep_log (cf_end c p) \<noteq> []"
    "length (ep_log (cf_end c p)) < length (ep_log (cf_end c (\<not> p)))"
  shows "ep_pending (cf_end c p) = Some (last (ep_log (cf_end c (\<not> p))))"
proof -
  obtain qp qq where "related R (cf_end c p) (cf_end c (\<not> p)) qp qq"
    using assms(1) unfolding agree_inv_side [of R c p] by auto
  with assms(2,3) show ?thesis
    by (auto simp: related_def level_def ahead_def agreed_log_def split: if_splits)
qed

end
