(* ===== verification/Network.thy ===== *)
theory Network
  imports Agreement Demo_Props
begin

text \<open>
  Two demo channels, one at each end of a connection that delivers every message once, in
  order and unchanged: the end that proposed the channel (\<open>True\<close>) and the one that accepted it
  (\<open>False\<close>).  The calls of both applications, the replies of both watchers and funders and the
  deliveries interleave freely.  This is the level of the \<open>MessageBus\<close> trait; what the protocol
  buffer layer makes of the messages is the subject of \<open>Payment\<close> and \<open>Demo_Msgs\<close>.
\<close>

section \<open>The network\<close>

record net =
  nt_end :: "bool \<Rightarrow> channel_inner"
  nt_in :: "bool \<Rightarrow> participant_message list"
  nt_out :: "bool \<Rightarrow> bus"

text \<open>
  Of what an end sends, the messages to the other party travel to the other end, and the rest
  goes to its own watcher and funder.
\<close>

definition to_peer :: "bus \<Rightarrow> participant_message list" where
  "to_peer bus = concat (map (\<lambda>m. case m of ToParticipant _ _ x \<Rightarrow> [x] | _ \<Rightarrow> []) bus)"

definition to_services :: "bus \<Rightarrow> bus" where
  "to_services bus = filter (\<lambda>m. case m of ToParticipant _ _ _ \<Rightarrow> False | _ \<Rightarrow> True) bus"

text \<open>The states an end has handed to its watcher, in order.\<close>

definition watched :: "bus \<Rightarrow> state list" where
  "watched bus = concat (map (\<lambda>m. case m of ToWatcher (WatchRequest w) \<Rightarrow> [sl_state w] | _ \<Rightarrow> []) bus)"

definition acted :: "bool \<Rightarrow> channel_inner \<times> bus \<Rightarrow> net \<Rightarrow> net" where
  "acted p s c = (case s of (inner, bus) \<Rightarrow>
     \<lparr>nt_end = (nt_end c)(p := inner), nt_in = (nt_in c)(\<not> p := nt_in c (\<not> p) @ to_peer bus),
      nt_out = (nt_out c)(p := nt_out c p @ to_services bus)\<rparr>)"

text \<open>
  When the users propose a payment is up to them: a step has as a parameter the phases \<open>U\<close> in which they do.
  \<open>Channel::update\<close> sets no condition, so \<open>\<lambda>_. True\<close> gives all steps of the code; users who keep to \<open>no_pending\<close>
  propose no payment while one of their own is pending.
\<close>

definition no_pending :: "channel_inner \<Rightarrow> bool" where
  "no_pending inner = (case inner of Active _ (Some _) \<Rightarrow> False | _ \<Rightarrow> True)"

definition delivered :: "bool \<Rightarrow> net \<Rightarrow> net" where
  "delivered p c = c\<lparr>nt_in := (nt_in c)(p := tl (nt_in c p))\<rparr>"

inductive delivery :: "build \<Rightarrow> ext \<Rightarrow> net \<Rightarrow> net \<Rightarrow> bool" for b X where
  deliver: "nt_in c p = m # q \<Longrightarrow> process_participant_msg b X m (nt_end c p, []) = (r, s) \<Longrightarrow>
    delivery b X c (acted p s (delivered p c))"

inductive net_step :: "build \<Rightarrow> ext \<Rightarrow> (channel_inner \<Rightarrow> bool) \<Rightarrow> net \<Rightarrow> net \<Rightarrow> bool" for b X U where
  message: "delivery b X c c' \<Longrightarrow> net_step b X U c c'"
| payment: "U (nt_end c p) \<Longrightarrow> channel_update_op b X amount is_final (nt_end c p, []) = (r, s) \<Longrightarrow>
    net_step b X U c (acted p s c)"
| force_close: "channel_force_close (nt_end c p, []) = (r, s) \<Longrightarrow> net_step b X U c (acted p s c)"
| watcher_reply: "process_watcher_reply w (nt_end c p, []) = (r, s) \<Longrightarrow> net_step b X U c (acted p s c)"
| funder_reply: "process_funder_reply f (nt_end c p, []) = (r, s) \<Longrightarrow> net_step b X U c (acted p s c)"

lemma bus_split [simp]:
  "to_peer [] = []" "to_peer (ToParticipant x y m # bus) = m # to_peer bus"
  "to_peer (ToWatcher w # bus) = to_peer bus" "to_peer (ToFunder f # bus) = to_peer bus"
  "watched [] = []" "watched (ToParticipant x y m # bus) = watched bus"
  "watched (ToWatcher (WatchRequest wr) # bus) = sl_state wr # watched bus"
  "watched (ToWatcher (StartDispute d) # bus) = watched bus" "watched (ToFunder f # bus) = watched bus"
  "to_peer (bus @ bus') = to_peer bus @ to_peer bus'" "watched (bus @ bus') = watched bus @ watched bus'"
  by (simp_all add: to_peer_def watched_def)

lemma watched_services [simp]: "watched (to_services bus) = watched bus"
  by (induction bus) (auto simp: to_services_def watched_def split: bus_msg.split)

section \<open>One update\<close>

text \<open>An active end without a pending update takes a valid update of the other participant.\<close>

lemma remote_update_honest:
  assumes "env_ok X" "channel_wf X d" "state_wf 1 2 t" "valid_transition b (ac_state d) t"
    "ac_part_idx d = 1 - i" "i < 2" "sig_valid b X (ac_params d) t i sig"
  obtains sig' where "sig_valid b X (ac_params d) t (1 - i) sig'"
    "process_participant_msg b X (ChannelUpdate \<lparr>lu_state = t, lu_actor_idx = i, lu_sig = sig\<rparr>) (Active d None, []) =
      (Ok (), (after_apply (d\<lparr>ac_state := t, ac_signatures := both i sig sig'\<rparr>)
          ((fresh_update d t i sig)\<lparr>cu_signatures := map Some (both i sig sig')\<rparr>),
        [ToParticipant (ac_peers d ! (1 - i)) (ac_peers d ! i) (ChannelUpdateAccepted
            \<lparr>lua_channel = st_id t, lua_version = st_version t, lua_sig = sig'\<rparr>),
         ToWatcher (WatchRequest \<lparr>sl_params = ac_params d, sl_state = t, sl_sigs = both i sig sig'\<rparr>)]))"
proof -
  have id: "st_id t = st_id (ac_state d)" using assms(4) by (simp add: valid_transition_def)
  let ?v = "fresh_update d t i sig"
  obtain sig' where acc: "sig_valid b X (ac_params d) t (1 - i) sig'"
    "handle_update b X d \<lparr>lu_state = t, lu_actor_idx = i, lu_sig = sig\<rparr> = Ok ?v"
    "accept b X d (?v, []) = (Ok (), (?v\<lparr>cu_signatures := map Some (both i sig sig')\<rparr>,
      [ToParticipant (ac_peers d ! (1 - i)) (ac_peers d ! i) (ChannelUpdateAccepted
        \<lparr>lua_channel = st_id (ac_state d), lua_version = st_version t, lua_sig = sig'\<rparr>)]))"
    using honest_acceptor [OF assms] by metis
  let ?s = "both i sig sig'"
  let ?bus = "[ToParticipant (ac_peers d ! (1 - i)) (ac_peers d ! i) (ChannelUpdateAccepted
      \<lparr>lua_channel = st_id t, lua_version = st_version t, lua_sig = sig'\<rparr>)]"
  have app: "apply_update b (?v\<lparr>cu_signatures := map Some ?s\<rparr>) (d, ?bus) =
      (Ok (), (d\<lparr>ac_state := t, ac_signatures := ?s\<rparr>, ?bus @
        [ToWatcher (WatchRequest \<lparr>sl_params = ac_params d, sl_state = t, sl_sigs = ?s\<rparr>)]))"
    by (rule apply_fresh_signed [OF assms(4)])
  show ?thesis
    by (rule that [OF acc(1)]) (use acc(2,3) app in
      \<open>simp add: process_participant_msg_def progress_def remote_update_arm_def id\<close>)
qed

text \<open>An end takes the acceptance of its pending update.\<close>

lemma update_accepted_honest:
  assumes "env_ok X" "state_wf 1 2 t" "valid_transition b (ac_state c) t" "ac_part_idx c = i" "i < 2"
    "sig_valid b X (ac_params c) t (1 - i) sig'"
  shows "process_participant_msg b X (ChannelUpdateAccepted \<lparr>lua_channel = st_id t, lua_version = st_version t, lua_sig = sig'\<rparr>)
      (Active c (Some (fresh_update c t i sig)), []) =
    (Ok (), (after_apply (c\<lparr>ac_state := t, ac_signatures := both i sig sig'\<rparr>)
        ((fresh_update c t i sig)\<lparr>cu_signatures := map Some (both i sig sig')\<rparr>),
      [ToWatcher (WatchRequest \<lparr>sl_params = ac_params c, sl_state = t, sl_sigs = both i sig sig'\<rparr>)]))"
proof -
  have id: "st_id t = st_id (ac_state c)" using assms(3) by (simp add: valid_transition_def)
  have acc: "participant_accepted b X c (1 - i) \<lparr>lua_channel = st_id t, lua_version = st_version t, lua_sig = sig'\<rparr>
      (fresh_update c t i sig) = (Ok (), (fresh_update c t i sig)\<lparr>cu_signatures := map Some (both i sig sig')\<rparr>)"
    using honest_proposer [OF assms(1,2,3,5,6), of sig] by (simp add: id)
  have "usize_sub b 1 i = (Ok (1 - i) :: (demo_error, nat) res)" using assms(5) by (auto simp: usize_sub_def less_2_cases_iff)
  then show ?thesis
    using acc apply_fresh_signed [OF assms(3), where sigs = "both i sig sig'" and bus = "[]"] assms(4)
    by (simp add: process_participant_msg_def progress_def update_accepted_arm_def)
qed

section \<open>Deliveries come to an end\<close>

text \<open>
  An acceptance of a proposal and an update are answered with at most one message, and that
  message with none.
\<close>

definition msg_weight :: "participant_message \<Rightarrow> nat" where
  "msg_weight m = (case m of ProposalAccepted _ \<Rightarrow> 2 | ChannelUpdate _ \<Rightarrow> 2 | _ \<Rightarrow> 1)"

definition traffic :: "net \<Rightarrow> nat" where
  "traffic c = sum_list (map msg_weight (nt_in c True)) + sum_list (map msg_weight (nt_in c False))"

definition load :: "bus \<Rightarrow> nat" where
  "load bus = sum_list (map msg_weight (to_peer bus))"

text \<open>The peers of an end, as long as its phase has some.\<close>

definition peers_of :: "channel_inner \<Rightarrow> bytes list" where
  "peers_of inner = (case inner of
     Proposed c \<Rightarrow> lp_peers (pr_proposal c)
   | AgreedUpon c \<Rightarrow> ag_peers c
   | Signed sc _ _ \<Rightarrow> ac_peers (mark_funded sc)
   | Active ch _ \<Rightarrow> ac_peers ch
   | Closing ch \<Rightarrow> ac_peers ch
   | _ \<Rightarrow> [])"

lemma load_simps [simp]: "load [] = 0" "load (bus @ bus') = load bus + load bus'"
  by (simp_all add: load_def)

lemma load_sent [simp]:
  "load (ToWatcher w # bus) = load bus" "load (ToFunder f # bus) = load bus"
  "load (ToParticipant x y m # bus) = msg_weight m + load bus"
  by (simp_all add: load_def)

lemma broadcast_load:
  assumes "length peers \<le> 2" "broadcast_to_participants k peers m bus = ((r :: ('e, unit) res), bus')"
  shows "load bus' \<le> load bus + msg_weight m"
proof -
  consider "peers = []" | x where "peers = [x]" | x y where "peers = [x, y]"
    using assms(1) by (cases peers; cases "tl peers") auto
  then show ?thesis
    using assms(2)
    by cases (auto simp: broadcast_to_participants_def index_def send_to_participant_def split: if_splits)
qed

lemma on_bus_load:
  "length peers \<le> 2 \<Longrightarrow> on_bus (broadcast_to_participants k peers m) (x, bus) = (r, (y, bus')) \<Longrightarrow>
    load bus' \<le> load bus + msg_weight m"
  using broadcast_load by (fastforce simp: on_bus_def split: prod.splits)

lemma sign_load:
  assumes "sign b X (c, bus) = (r, (c', bus'))" "length (ag_peers c) \<le> 2"
  shows "load bus' \<le> load bus + 1 \<and> ag_peers c' = ag_peers c"
proof -
  have acc: "msg_weight (ChannelUpdateAccepted m) = 1" for m by (simp add: msg_weight_def)
  show ?thesis
    using assms(1) broadcast_load [OF assms(2), where ?'e = sign_error]
    by (fastforce simp: sign_def bindS_def modify_obj_def on_bus_def acc split: res.splits option.splits prod.splits)
qed

lemma accept_load:
  assumes "accept b X ch (u, bus) = (r, (u', bus'))" "length (ac_peers ch) \<le> 2"
  shows "load bus' \<le> load bus + 1"
proof -
  have acc: "msg_weight (ChannelUpdateAccepted m) = 1" for m by (simp add: msg_weight_def)
  show ?thesis
    using assms(1) broadcast_load [OF assms(2), where ?'e = accept_error]
    by (fastforce simp: accept_def bindS_def modify_obj_def on_bus_def acc split: res.splits option.splits prod.splits)
qed

lemma apply_load:
  assumes "apply_update b u (ch, bus) = (r, (ch', bus'))"
  shows "load bus' = load bus" "ac_peers ch' = ac_peers ch"
  using assms apply_update_not_Ok [OF assms]
  by (cases "r = Ok ()"; auto simp: apply_update_Ok Let_def)+

lemma build_signed_load:
  assumes "build_signed b c bus = (r, bus')"
  shows "load bus' = load bus" "r = Ok sc \<Longrightarrow> ac_peers (mark_funded sc) = ag_peers c" "r = Err (c', e) \<Longrightarrow> c' = c"
  using assms
  by (auto simp: build_signed_def bindS_def send_to_watcher_def send_to_funder_def SignedChannel_new_def
      ActiveChannel_new_def map_err_Err_iff bind_res_Ok_iff debug_assert_def
      split: res.splits prod.splits if_splits)

text \<open>What one message makes an end send weighs less than the message.\<close>

definition lighter :: "nat \<Rightarrow> (channel_inner \<times> demo_error, channel_inner) res \<times> bus \<Rightarrow> bool" where
  "lighter w = (\<lambda>(r, bus). load bus < w \<and>
     (case r of Ok i \<Rightarrow> length (peers_of i) \<le> 2 | Err (i, e) \<Rightarrow> length (peers_of i) \<le> 2 | Panic \<Rightarrow> True))"

lemma lighter_simps [simp]:
  "lighter w (Ok i, bus) \<longleftrightarrow> load bus < w \<and> length (peers_of i) \<le> 2"
  "lighter w (Err (i, e), bus) \<longleftrightarrow> load bus < w \<and> length (peers_of i) \<le> 2"
  "lighter w (Panic, bus) \<longleftrightarrow> load bus < w"
  by (simp_all add: lighter_def)

lemma peers_of_simps [simp]:
  "peers_of (Proposed c) = lp_peers (pr_proposal c)" "peers_of (AgreedUpon ag) = ag_peers ag"
  "peers_of (Signed sc w f) = ac_peers (mark_funded sc)" "peers_of (Active ch upd) = ac_peers ch"
  "peers_of (Closing ch) = ac_peers ch" "peers_of (after_apply ch u) = ac_peers ch"
  "peers_of TemporaryInvalidState = []" "peers_of ForceClosing = []" "peers_of Closed = []"
  by (simp_all add: peers_of_def after_apply_def)

lemma proposal_accepted_lighter:
  assumes "length (lp_peers (pr_proposal c)) \<le> 2"
  shows "lighter 2 (proposal_accepted_arm b X m c [])"
proof -
  obtain r c' where acc: "proposal_participant_accepted b 1 m c = (r, c')"
    by (cases "proposal_participant_accepted b 1 m c")
  then have c': "pr_proposal c' = pr_proposal c"
    by (auto simp: proposal_participant_accepted_def split: res.splits option.splits if_splits)
  have ag: "ag_peers ag = lp_peers (pr_proposal c)" if "build_agreed b X c' = Ok ag" for ag
    using that c' by (auto simp: build_agreed_def bind_res_Ok_iff AgreedUponChannel_new_def)
  have err: "c'' = c'" if "build_agreed b X c' = Err (c'', e)" for c'' e
    using that by (auto simp: build_agreed_def map_err_Err_iff)
  show ?thesis
    using acc c' ag err assms sign_load [of b X _ "[]"]
    by (fastforce simp: proposal_accepted_arm_def split: res.split prod.split)
qed

lemma signature_lighter:
  assumes "length (ag_peers c) \<le> 2"
  shows "lighter 1 (signature_arm b X m c [])"
proof -
  obtain r c' where add: "add_signature b X m c = (r, c')" by (cases "add_signature b X m c")
  then have "ag_peers c' = ag_peers c"
    by (auto simp: add_signature_def split: res.splits option.splits if_splits)
  then show ?thesis
    using add assms build_signed_load [of b c' "[]"]
    by (fastforce simp: signature_arm_def split: res.split prod.split)
qed

lemma remote_update_lighter:
  assumes "length (ac_peers ch) \<le> 2"
  shows "lighter 2 (remote_update_arm b X m ch [])"
proof -
  have "load bus \<le> 1" if "accept b X ch (u, []) = (r, (u', bus))" for u r u' bus
    using accept_load [OF that assms] by simp
  then show ?thesis
    using assms apply_load by (fastforce simp: remote_update_arm_def split: res.split prod.split)
qed

lemma update_accepted_lighter:
  assumes "length (ac_peers ch) \<le> 2"
  shows "lighter 1 (update_accepted_arm b X m ch u [])"
  using assms apply_load by (fastforce simp: update_accepted_arm_def split: res.split prod.split)

lemma participant_lighter:
  assumes "length (peers_of inner) \<le> 2"
  shows "lighter (msg_weight m) (participant_transition b X m inner [])"
  using assms
  by (cases "(b, X, m, inner)" rule: participant_transition.cases)
    (auto simp: msg_weight_def intro: proposal_accepted_lighter signature_lighter [unfolded One_nat_def]
      remote_update_lighter update_accepted_lighter [unfolded One_nat_def]
      split: participant_message.split)

lemma process_lighter:
  assumes "length (peers_of inner) \<le> 2" "process_participant_msg b X m (inner, []) = (r, (inner', bus))"
  shows "load bus < msg_weight m" "length (peers_of inner') \<le> 2"
  using participant_lighter [OF assms(1), of m b X] assms(2)
  by (auto simp: process_participant_msg_def progress_def split: res.splits prod.splits)

lemma delivery_lighter:
  assumes "delivery b X c c'" "\<And>p. length (peers_of (nt_end c p)) \<le> 2"
  shows "traffic c' < traffic c" "length (peers_of (nt_end c' p)) \<le> 2"
proof -
  from assms(1) obtain q m ms r inner bus where d: "nt_in c q = m # ms"
    "process_participant_msg b X m (nt_end c q, []) = (r, (inner, bus))" "c' = acted q (inner, bus) (delivered q c)"
    by (cases rule: delivery.cases) (auto elim: that)
  note light = process_lighter [OF assms(2) d(2)]
  show "traffic c' < traffic c"
    using light(1) d by (cases q) (simp_all add: traffic_def acted_def delivered_def load_def)
  show "length (peers_of (nt_end c' p)) \<le> 2"
    using light(2) d(3) assms(2) by (simp add: acted_def delivered_def)
qed

lemma deliveries_bound:
  assumes "\<And>p. length (peers_of (nt_end c p)) \<le> 2" "(delivery b X ^^ n) c c'"
  shows "n + traffic c' \<le> traffic c" "length (peers_of (nt_end c' p)) \<le> 2"
proof -
  have "n + traffic c' \<le> traffic c \<and> (\<forall>p. length (peers_of (nt_end c' p)) \<le> 2)"
    using assms(2)
  proof (induction n arbitrary: c')
    case (Suc n)
    then obtain d where d: "(delivery b X ^^ n) c d" "delivery b X d c'" by auto
    from delivery_lighter [OF d(2)] Suc.IH [OF d(1)] show ?case by fastforce
  qed (use assms(1) in simp)
  then show "n + traffic c' \<le> traffic c" "length (peers_of (nt_end c' p)) \<le> 2" by simp_all
qed

lemma delivery_possible:
  assumes "nt_in c p \<noteq> []"
  obtains c' where "delivery b X c c'"
proof -
  obtain m q where q: "nt_in c p = m # q" using assms by (cases "nt_in c p") auto
  obtain r s where "process_participant_msg b X m (nt_end c p, []) = (r, s)"
    by (cases "process_participant_msg b X m (nt_end c p, [])")
  with q show ?thesis by (blast intro: that delivery.deliver)
qed

lemma deliveries_finish:
  assumes "\<And>p. length (peers_of (nt_end c p)) \<le> 2"
  shows "\<exists>c'. (delivery b X)\<^sup>*\<^sup>* c c' \<and> (\<forall>p. nt_in c' p = [])"
  using assms
proof (induction "traffic c" arbitrary: c rule: less_induct)
  case less
  show ?case
  proof (cases "\<forall>p. nt_in c p = []")
    case False
    then obtain d where d: "delivery b X c d" using delivery_possible by blast
    from less.hyps [OF delivery_lighter [OF d less.prems]] d show ?thesis
      by (blast intro: converse_rtranclp_into_rtranclp)
  qed blast
qed

text \<open>
  C16: deliveries come to an end.  Between two ends of any phase whose peer lists have at most
  two entries, whatever messages are on the way, every delivery makes the traffic smaller, where
  an acceptance of a proposal and an update weigh two and every other message one.  So there are
  at most that many deliveries, and after some of them nothing is left on the way.
\<close>

theorem deliveries_end:
  assumes "\<forall>p. length (peers_of (nt_end c p)) \<le> 2"
  shows "(\<forall>c'. delivery b X c c' \<longrightarrow> traffic c' < traffic c) \<and>
    (\<forall>n c'. (delivery b X ^^ n) c c' \<longrightarrow> n \<le> traffic c) \<and>
    (\<exists>c'. (delivery b X)\<^sup>*\<^sup>* c c' \<and> (\<forall>p. nt_in c' p = []))"
proof -
  note two = assms [rule_format]
  show ?thesis using deliveries_finish [OF two] delivery_lighter(1) [OF _ two] deliveries_bound(1) [OF two]
    by fastforce
qed

theorem deliveries_end_witness:
  "\<exists>c'. (delivery dbg32 toy_ext)\<^sup>*\<^sup>* \<lparr>nt_end = (\<lambda>p. Active (toy_channel (if p then 0 else 1) (sample_state 4)) None),
      nt_in = (\<lambda>p. [ChannelUpdate \<lparr>lu_state = sample_state 5, lu_actor_idx = 0, lu_sig = replicate 65 0\<rparr>]),
      nt_out = (\<lambda>p. [])\<rparr> c' \<and> (\<forall>p. nt_in c' p = [])"
  by (intro deliveries_end [THEN conjunct2, THEN conjunct2]) (simp add: toy_channel_def)

end
