(* ===== verification/Network_Props.thy ===== *)
theory Network_Props
  imports Network
begin

text \<open>
  The network of two demo channels refines the agreement protocol: signatures, identifiers and
  versions never let an end take a message for another than it is.  From this follow that the
  two ends never disagree on a state, and that they agree once nothing is on the way.
\<close>

section \<open>A deal\<close>

text \<open>What the two sides bring along: the proposal, the nonce share of the acceptor, the signers.\<close>

record deal =
  dl_proposal :: ledger_channel_proposal
  dl_nonce :: bytes
  dl_signer :: "bool \<Rightarrow> signer"
  dl_receiver :: "bool \<Rightarrow> address"

definition dl_acc :: "deal \<Rightarrow> ledger_channel_proposal_acc" where
  "dl_acc D = acc_of (dl_proposal D) (dl_nonce D) (dl_signer D False)"

definition dl_params :: "ext \<Rightarrow> deal \<Rightarrow> params" where
  "dl_params X D = opened_params X (dl_proposal D) (dl_acc D)"

definition dl_state :: "ext \<Rightarrow> deal \<Rightarrow> state" where
  "dl_state X D = opened_state X (dl_proposal D) (dl_acc D)"

definition side :: "bool \<Rightarrow> nat" where
  "side p = (if p then 0 else 1)"

definition deal_ok :: "ext \<Rightarrow> deal \<Rightarrow> bool" where
  "deal_ok X D \<longleftrightarrow> env_ok X \<and> proposal_wf (dl_proposal D) \<and>
     lp_challenge_duration (dl_proposal D) \<noteq> 0 \<and> length (dl_nonce D) = 32 \<and>
     signer_ok X (dl_signer D True) \<and> signer_ok X (dl_signer D False) \<and>
     lp_participant (dl_proposal D) = sg_addr (dl_signer D True) \<and>
     sg_addr (dl_signer D True) \<noteq> sg_addr (dl_signer D False)"

text \<open>
  The proposer has proposed, the acceptor has handled and accepted the proposal and signed the
  channel; what the acceptor sent is on the way.
\<close>

definition net_start :: "build \<Rightarrow> ext \<Rightarrow> deal \<Rightarrow> net \<Rightarrow> bool" where
  "net_start b X D c \<longleftrightarrow> (\<exists>c0 bus0 c1 c1' bus1 ag ag' bus2.
     propose_channel b (PerunClient_new (dl_signer D True)) (dl_proposal D) (dl_receiver D True) [] = (Ok c0, bus0) \<and>
     handle_proposal (PerunClient_new (dl_signer D False)) (dl_proposal D) (dl_receiver D False) = Ok c1 \<and>
     accept_proposal b (dl_nonce D) (sg_addr (dl_signer D False)) (c1, []) = (Ok (), (c1', bus1)) \<and>
     build_agreed b X c1' = Ok ag \<and> sign b X (ag, bus1) = (Ok (), (ag', bus2)) \<and>
     c = \<lparr>nt_end = (\<lambda>p. if p then Channel_new c0 else Channel_new_agreed_upon ag'),
          nt_in = (\<lambda>p. if p then to_peer bus2 else []), nt_out = (\<lambda>p. [])\<rparr>)"

section \<open>The refinement relation\<close>

definition channel_rules :: "build \<Rightarrow> ext \<Rightarrow> deal \<Rightarrow> state rules" where
  "channel_rules b X D = \<lparr>ru_next = (\<lambda>s t. valid_transition b s t \<and> state_wf 1 2 t),
     ru_final = st_is_final, ru_init = dl_state X D\<rparr>"

definition channel_at :: "ext \<Rightarrow> deal \<Rightarrow> bool \<Rightarrow> state \<Rightarrow> active_channel \<Rightarrow> bool" where
  "channel_at X D p s ch \<longleftrightarrow> channel_wf X ch \<and> ac_params ch = dl_params X D \<and> ac_part_idx ch = side p \<and>
     ac_state ch = s"

abbreviation dl_sig :: "build \<Rightarrow> ext \<Rightarrow> deal \<Rightarrow> state \<Rightarrow> bool \<Rightarrow> signature \<Rightarrow> bool" where
  "dl_sig b X D t p sig \<equiv> sig_valid b X (dl_params X D) t (side p) sig"

definition agreed_end :: "ext \<Rightarrow> deal \<Rightarrow> bool \<Rightarrow> signature option list \<Rightarrow> agreed_upon_channel" where
  "agreed_end X D p sigs = (agreed_side X (dl_proposal D) (dl_acc D) (dl_signer D p) (side p)
     (dl_receiver D p))\<lparr>ag_signatures := sigs\<rparr>"

definition end_rel :: "build \<Rightarrow> ext \<Rightarrow> deal \<Rightarrow> bool \<Rightarrow> channel_inner \<Rightarrow> state endpoint \<Rightarrow> bool" where
  "end_rel b X D p inner e = (case ep_status e of
     S_Proposed \<Rightarrow> p \<and> inner = Proposed
       (ProposedChannel_new (PerunClient_new (dl_signer D p)) 0 (dl_receiver D p) (dl_proposal D))
   | S_Agreed \<Rightarrow> (\<exists>sig. inner = AgreedUpon (agreed_end X D p ([None, None][side p := Some sig])) \<and>
       dl_sig b X D (dl_state X D) p sig)
   | S_Waiting \<Rightarrow> (\<exists>sc w f. inner = Signed sc w f \<and> channel_at X D p (dl_state X D) (mark_funded sc))
   | S_Open \<Rightarrow> (\<exists>ch upd. inner = Active ch upd \<and> channel_at X D p (last (ep_log e)) ch \<and>
       (case ep_pending e of None \<Rightarrow> upd = None
        | Some t \<Rightarrow> (\<exists>sig. upd = Some (fresh_update ch t (side p) sig))))
   | S_Done \<Rightarrow> inner = ForceClosing \<or> inner = Closed \<or> (\<exists>ch. inner = Closing ch \<and> channel_at X D p (last (ep_log e)) ch))"

text \<open>A message on the way from end \<open>p\<close>.\<close>

definition msg_rel :: "build \<Rightarrow> ext \<Rightarrow> deal \<Rightarrow> bool \<Rightarrow> participant_message \<Rightarrow> state amsg \<Rightarrow> bool" where
  "msg_rel b X D p m a = (case a of
     A_Proposal \<Rightarrow> m = ProposalAccepted (dl_acc D)
   | A_Accept t \<Rightarrow> \<exists>sig. dl_sig b X D t p sig \<and>
       m = ChannelUpdateAccepted \<lparr>lua_channel = st_id t, lua_version = st_version t, lua_sig = sig\<rparr>
   | A_Update t \<Rightarrow> \<exists>sig. dl_sig b X D t p sig \<and> state_wf 1 2 t \<and>
       m = ChannelUpdate \<lparr>lu_state = t, lu_actor_idx = side p, lu_sig = sig\<rparr>)"

definition net_rel :: "build \<Rightarrow> ext \<Rightarrow> deal \<Rightarrow> net \<Rightarrow> state aconf \<Rightarrow> bool" where
  "net_rel b X D c a \<longleftrightarrow> (\<forall>p. end_rel b X D p (nt_end c p) (cf_end a p) \<and>
     watched (nt_out c p) = ep_log (cf_end a p) \<and>
     list_all2 (msg_rel b X D (\<not> p)) (nt_in c p) (cf_in a p))"

lemma side_simps [simp]: "side True = 0" "side False = 1" "side p < 2" "side (\<not> p) = 1 - side p"
  "Suc 0 - (Suc 0 - side p) = side p"
  by (simp_all add: side_def)

section \<open>One end\<close>

lemma deal_agreed:
  assumes "deal_ok X D" "length sigs = 2"
  shows "agreed_wf X (agreed_end X D p sigs)" "proposal_acc_wf (dl_acc D)" "state_wf 1 2 (dl_state X D)"
proof -
  have acc: "proposal_acc_wf (dl_acc D)" unfolding dl_acc_def
    using assms(1) by (intro acc_of_wf [of X]) (simp_all add: deal_ok_def proposal_wf_ok)
  then show "proposal_acc_wf (dl_acc D)" .
  have "agreed_wf X (agreed_side X (dl_proposal D) (dl_acc D) (dl_signer D p) (side p) (dl_receiver D p))"
    unfolding agreed_side_def using assms(1) acc
    by (intro opened_agreed_wf; cases p) (auto simp: deal_ok_def dl_acc_def acc_of_def side_def)
  then show "agreed_wf X (agreed_end X D p sigs)" using assms(2) by (simp add: agreed_wf_def agreed_ok_def agreed_end_def)
  show "state_wf 1 2 (dl_state X D)" unfolding dl_state_def using assms(1)
    by (intro opened_state_wf) (simp_all add: deal_ok_def proposal_wf_ok)
qed

lemma agreed_end_simps [simp]:
  "ag_signatures (agreed_end X D p s) = s" "ag_init_state (agreed_end X D p s) = dl_state X D"
  "ag_params (agreed_end X D p s) = dl_params X D" "ag_part_idx (agreed_end X D p s) = side p"
  "(agreed_end X D p s)\<lparr>ag_signatures := s'\<rparr> = agreed_end X D p s'"
  by (simp_all add: agreed_end_def dl_state_def dl_params_def)

lemma deal_okD:
  assumes "deal_ok X D"
  shows "env_ok X" "proposal_wf (dl_proposal D)" "lp_challenge_duration (dl_proposal D) \<noteq> 0"
    "pa_participants (dl_params X D) ! 0 \<noteq> pa_participants (dl_params X D) ! 1"
  using assms by (simp_all add: deal_ok_def dl_params_def opened_params_def dl_acc_def acc_of_def)

lemma sign_end:
  assumes "deal_ok X D"
  obtains sig where "dl_sig b X D (dl_state X D) p sig"
    "\<And>bus. sign b X (agreed_end X D p [None, None], bus) = (Ok (), (agreed_end X D p ([None, None][side p := Some sig]),
      bus @ [ToParticipant (lp_peers (dl_proposal D) ! side p) (lp_peers (dl_proposal D) ! (1 - side p))
        (ChannelUpdateAccepted (opening_msg X (dl_proposal D) (dl_acc D) sig))]))"
proof -
  have none: "agreed_end X D p [None, None] =
      agreed_side X (dl_proposal D) (dl_acc D) (dl_signer D p) (side p) (dl_receiver D p)"
    by (simp add: agreed_end_def agreed_side_def AgreedUponChannel_new_def PARTICIPANTS_def numeral_2_eq_2)
  have wf: "agreed_wf X (agreed_side X (dl_proposal D) (dl_acc D) (dl_signer D p) (side p) (dl_receiver D p))"
    using deal_agreed(1) [OF assms, of "[None, None]" p] none by simp
  show ?thesis
    unfolding none unfolding agreed_end_def dl_params_def dl_state_def
    by (rule sign_side [OF deal_okD(1) [OF assms] wf side_simps(3), of b]) (rule that [unfolded none, unfolded agreed_end_def dl_params_def dl_state_def])
qed

lemma opening_msg_rel:
  "dl_sig b X D (dl_state X D) p sig \<Longrightarrow>
    msg_rel b X D p (ChannelUpdateAccepted (opening_msg X (dl_proposal D) (dl_acc D) sig)) (A_Accept (dl_state X D))"
  by (auto simp: msg_rel_def opening_msg_def dl_state_def opened_state_def)

lemma receive_proposal:
  assumes D: "deal_ok X D" and rel: "end_rel b X D p inner e" "ep_status e = S_Proposed"
  obtains inner' bus m where
    "process_participant_msg b X (ProposalAccepted (dl_acc D)) (inner, []) = (Ok (), (inner', bus))"
    "end_rel b X D p inner' (e\<lparr>ep_status := S_Agreed\<rparr>)" "to_peer bus = [m]"
    "msg_rel b X D p m (A_Accept (dl_state X D))" "watched bus = []"
proof -
  have p: p and inner: "inner = Proposed (ProposedChannel_new (PerunClient_new (dl_signer D True)) 0
      (dl_receiver D True) (dl_proposal D))"
    using rel by (auto simp: end_rel_def)
  note ok = deal_okD [OF D] deal_agreed(2) [OF D, of "[None, None]", simplified]
  note phase = proposal_phase(3,4) [OF ok(1-3) ok(5) [unfolded dl_acc_def], folded dl_acc_def]
  have side: "agreed_side X (dl_proposal D) (dl_acc D) (dl_signer D True) 0 (dl_receiver D True) =
      agreed_end X D p [None, None]"
    using p by (simp add: agreed_end_def agreed_side_def AgreedUponChannel_new_def PARTICIPANTS_def numeral_2_eq_2)
  obtain sig where sig: "dl_sig b X D (dl_state X D) p sig"
    "\<And>bus. sign b X (agreed_end X D p [None, None], bus) = (Ok (), (agreed_end X D p ([None, None][side p := Some sig]),
      bus @ [ToParticipant (lp_peers (dl_proposal D) ! side p) (lp_peers (dl_proposal D) ! (1 - side p))
        (ChannelUpdateAccepted (opening_msg X (dl_proposal D) (dl_acc D) sig))]))"
    using D by (rule sign_end) (rule that)
  let ?ag = "AgreedUpon (agreed_end X D p ([None, None][side p := Some sig]))"
  let ?bus = "[ToParticipant (lp_peers (dl_proposal D) ! side p) (lp_peers (dl_proposal D) ! (1 - side p))
      (ChannelUpdateAccepted (opening_msg X (dl_proposal D) (dl_acc D) sig))]"
  have "process_participant_msg b X (ProposalAccepted (dl_acc D)) (inner, []) = (Ok (), (?ag, ?bus))"
    unfolding inner process_participant_msg_def progress_def
    by (simp add: proposal_accepted_arm_def phase [unfolded One_nat_def] side sig(2))
  moreover have "end_rel b X D p ?ag (e\<lparr>ep_status := S_Agreed\<rparr>)" using sig(1) by (auto simp: end_rel_def)
  ultimately show ?thesis using opening_msg_rel [OF sig(1)] that by simp
qed

lemma receive_signature:
  assumes D: "deal_ok X D" and rel: "end_rel b X D p inner e" "ep_status e = S_Agreed"
    and m: "msg_rel b X D (\<not> p) m (A_Accept (dl_state X D))"
  obtains inner' bus where "process_participant_msg b X m (inner, []) = (Ok (), (inner', bus))"
    "end_rel b X D p inner' (e\<lparr>ep_status := S_Waiting, ep_log := [dl_state X D]\<rparr>)" "to_peer bus = []"
    "watched bus = [dl_state X D]"
proof -
  obtain sig where sig: "inner = AgreedUpon (agreed_end X D p ([None, None][side p := Some sig]))"
    "dl_sig b X D (dl_state X D) p sig"
    using rel by (auto simp: end_rel_def)
  obtain sig' where sig': "dl_sig b X D (dl_state X D) (\<not> p) sig'" "m = ChannelUpdateAccepted
      \<lparr>lua_channel = st_id (dl_state X D), lua_version = 0, lua_sig = sig'\<rparr>"
    using m by (auto simp: msg_rel_def dl_state_def opened_state_def)
  let ?c = "agreed_end X D p ([None, None][side p := Some sig])"
  let ?d = "agreed_end X D p ([None, None][side p := Some sig, side (\<not> p) := Some sig'])"
  have sigs: "None \<notin> set ([None, None][side p := Some sig, side (\<not> p) := Some sig'])"
    by (cases p) (simp_all add: side_def)
  have add: "add_signature b X \<lparr>lua_channel = st_id (dl_state X D), lua_version = 0, lua_sig = sig'\<rparr> ?c = (Ok (), ?d)"
    using add_signature_honest [OF deal_agreed(1) [OF D, of "[None, None][side p := Some sig]" p], of "side (\<not> p)" b sig']
      deal_okD(4) [OF D] sig'(1) by (cases p) simp_all
  have wf: "agreed_wf X ?d" by (rule deal_agreed(1) [OF D]) (simp only: length_list_update length_Cons list.size numeral_2_eq_2)
  have inv: "agreed_inv b X ?d"
    using deal_okD(1) [OF D] agreed_wf_ok [OF wf] sig(2) sig'(1)
    by (cases p) (auto simp: agreed_inv_def less_2_cases_iff)
  have build: "build_signed b ?d [] = (Ok (SignedChannel (opened_channel ?d)), opening_requests ?d)"
    using build_signed_complete [OF agreed_wf_ok [OF wf], of b "[]"] sigs by simp
  have "channel_wf X (opened_channel ?d)" using wf by (rule opened_channel_wf)
  then have at: "channel_at X D p (dl_state X D) (opened_channel ?d)"
    by (simp add: channel_at_def opened_channel_def)
  have "process_participant_msg b X m (inner, []) =
      (Ok (), (Signed (SignedChannel (opened_channel ?d)) False False, opening_requests ?d))"
    using add build by (simp add: sig(1) sig'(2) process_participant_msg_def progress_def signature_arm_def)
  then show ?thesis
    by (rule that) (use at in \<open>auto simp: end_rel_def opening_requests_def\<close>)
qed

lemma end_rel_applied:
  assumes "channel_wf X ch" "ac_params ch = dl_params X D" "ac_part_idx ch = side p" "ac_state ch = cu_new_state u"
  shows "end_rel b X D p (after_apply ch u) (extend_log (channel_rules b X D) (cu_new_state u) e)"
  using assms by (auto simp: end_rel_def after_apply_def channel_rules_def channel_at_def)

lemma receive_acceptance:
  assumes D: "deal_ok X D" and rel: "end_rel b X D p inner e" "ep_status e = S_Open" "ep_pending e = Some t"
    and t: "ru_next (channel_rules b X D) (last (ep_log e)) t" and m: "msg_rel b X D (\<not> p) m (A_Accept t)"
  obtains inner' bus where "process_participant_msg b X m (inner, []) = (Ok (), (inner', bus))"
    "end_rel b X D p inner' (extend_log (channel_rules b X D) t e)" "to_peer bus = []" "watched bus = [t]"
proof -
  obtain ch sig where ch: "inner = Active ch (Some (fresh_update ch t (side p) sig))" "channel_at X D p (last (ep_log e)) ch"
    using rel by (auto simp: end_rel_def)
  obtain sig' where sig': "dl_sig b X D t (\<not> p) sig'"
    "m = ChannelUpdateAccepted \<lparr>lua_channel = st_id t, lua_version = st_version t, lua_sig = sig'\<rparr>"
    using m by (auto simp: msg_rel_def)
  have at: "ac_params ch = dl_params X D" "ac_part_idx ch = side p" "ac_state ch = last (ep_log e)" "channel_wf X ch"
    using ch(2) by (simp_all add: channel_at_def)
  have v: "valid_transition b (ac_state ch) t" "state_wf 1 2 t" using t at by (simp_all add: channel_rules_def)
  let ?u = "(fresh_update ch t (side p) sig)\<lparr>cu_signatures := map Some (both (side p) sig sig')\<rparr>"
  let ?ch = "ch\<lparr>ac_state := t, ac_signatures := both (side p) sig sig'\<rparr>"
  have wf: "channel_wf X ?ch" using at(4) v(2) by (simp add: channel_wf_def channel_ok_def both_def)
  have "process_participant_msg b X m (inner, []) = (Ok (), (after_apply ?ch ?u,
      [ToWatcher (WatchRequest \<lparr>sl_params = ac_params ch, sl_state = t, sl_sigs = both (side p) sig sig'\<rparr>)]))"
    using update_accepted_honest [OF deal_okD(1) [OF D] v(2,1) at(2) side_simps(3), of sig' sig] sig' at(1)
    by (simp add: ch(1))
  then show ?thesis by (rule that) (use end_rel_applied [OF wf, of D p ?u b e] at in simp_all)
qed

lemma receive_update:
  assumes D: "deal_ok X D" and rel: "end_rel b X D p inner e" "ep_status e = S_Open" "ep_pending e = None"
    and t: "ru_next (channel_rules b X D) (last (ep_log e)) t" and m: "msg_rel b X D (\<not> p) m (A_Update t)"
  obtains inner' bus m' where "process_participant_msg b X m (inner, []) = (Ok (), (inner', bus))"
    "end_rel b X D p inner' (extend_log (channel_rules b X D) t e)" "to_peer bus = [m']"
    "msg_rel b X D p m' (A_Accept t)" "watched bus = [t]"
proof -
  obtain ch where ch: "inner = Active ch None" "channel_at X D p (last (ep_log e)) ch"
    using rel by (auto simp: end_rel_def)
  obtain sig where sig: "dl_sig b X D t (\<not> p) sig"
    "m = ChannelUpdate \<lparr>lu_state = t, lu_actor_idx = side (\<not> p), lu_sig = sig\<rparr>"
    using m by (auto simp: msg_rel_def)
  have at: "ac_params ch = dl_params X D" "ac_part_idx ch = 1 - side (\<not> p)" "ac_state ch = last (ep_log e)"
    "channel_wf X ch"
    using ch(2) by (simp_all add: channel_at_def)
  have v: "valid_transition b (ac_state ch) t" "state_wf 1 2 t" using t at by (simp_all add: channel_rules_def)
  let ?s = "both (side (\<not> p)) sig" and ?m = "\<lambda>sig'. ChannelUpdateAccepted
    \<lparr>lua_channel = st_id t, lua_version = st_version t, lua_sig = sig'\<rparr>"
  let ?ch = "\<lambda>sig'. ch\<lparr>ac_state := t, ac_signatures := ?s sig'\<rparr>"
    and ?u = "\<lambda>sig'. (fresh_update ch t (side (\<not> p)) sig)\<lparr>cu_signatures := map Some (?s sig')\<rparr>"
  obtain sig' where acc: "sig_valid b X (ac_params ch) t (1 - side (\<not> p)) sig'"
    "process_participant_msg b X m (inner, []) = (Ok (), (after_apply (?ch sig') (?u sig'),
      [ToParticipant (ac_peers ch ! (1 - side (\<not> p))) (ac_peers ch ! side (\<not> p)) (?m sig'),
       ToWatcher (WatchRequest \<lparr>sl_params = ac_params ch, sl_state = t, sl_sigs = ?s sig'\<rparr>)]))"
    using remote_update_honest [OF deal_okD(1) [OF D] at(4) v(2,1) at(2) side_simps(3), of sig] sig at(1)
    unfolding ch(1) by metis
  have "channel_wf X (?ch sig')" using at(4) v(2) by (simp add: channel_wf_def channel_ok_def both_def)
  then have rel': "end_rel b X D p (after_apply (?ch sig') (?u sig')) (extend_log (channel_rules b X D) t e)"
    using end_rel_applied [of X "?ch sig'" D p "?u sig'" b e] at by simp
  have msg: "msg_rel b X D p (?m sig') (A_Accept t)" using acc(1) at(1) by (auto simp: msg_rel_def)
  show ?thesis by (rule that [OF acc(2) rel' _ msg]) simp_all
qed

text \<open>A message an end has no use for changes nothing.\<close>

lemma receive_ignored:
  assumes "end_rel b X D p inner e" "msg_rel b X D q m a"
    "ep_status e = S_Done \<or> (\<exists>t. a = A_Update t) \<and> (ep_status e = S_Waiting \<or> ep_status e = S_Open \<and> ep_pending e \<noteq> None)"
  obtains err where "process_participant_msg b X m (inner, []) = (Err err, (inner, []))"
proof -
  consider ch where "inner = Closing ch" | "inner = ForceClosing" | "inner = Closed"
    | u sc w f where "m = ChannelUpdate u" "inner = Signed sc w f"
    | u ch v where "m = ChannelUpdate u" "inner = Active ch (Some v)"
    using assms by (auto simp: end_rel_def msg_rel_def split: option.splits)
  then show ?thesis
    by cases (auto simp: process_participant_msg_def progress_def intro: that)
qed

text \<open>A step of one end, on both levels.\<close>

definition end_step :: "build \<Rightarrow> ext \<Rightarrow> deal \<Rightarrow> bool \<Rightarrow> channel_inner \<times> bus \<Rightarrow> state endpoint \<Rightarrow>
    state endpoint \<times> state amsg list \<Rightarrow> bool" where
  "end_step b X D p s e t \<longleftrightarrow> end_rel b X D p (fst s) (fst t) \<and>
     list_all2 (msg_rel b X D p) (to_peer (snd s)) (snd t) \<and> ep_log (fst t) = ep_log e @ watched (snd s)"

lemma receive_rel:
  assumes D: "deal_ok X D" and rel: "end_rel b X D p inner e" and ok: "end_ok (channel_rules b X D) e"
    and m: "msg_rel b X D (\<not> p) m a" and exp: "expected (channel_rules b X D) a e"
    and run: "process_participant_msg b X m (inner, []) = (r, s)"
  shows "end_step b X D p s e (receive (channel_rules b X D) a e)" "r \<noteq> Panic"
proof -
  let ?R = "channel_rules b X D"
  have init: "ru_init ?R = dl_state X D" by (simp add: channel_rules_def)
  have "end_step b X D p s e (receive ?R a e) \<and> r \<noteq> Panic"
  proof (cases a)
    case A_Proposal
    then have st: "ep_status e = S_Proposed" using exp by (simp add: expected_def)
    have "m = ProposalAccepted (dl_acc D)" using m A_Proposal by (simp add: msg_rel_def)
    with run A_Proposal st init show ?thesis
      by - (rule receive_proposal [OF D rel st], auto simp: end_step_def)
  next
    case (A_Accept t)
    consider "ep_status e = S_Agreed" "t = dl_state X D"
      | "ep_status e = S_Open" "ep_pending e = Some t" "ru_next ?R (last (ep_log e)) t" | "ep_status e = S_Done"
      using exp init A_Accept by (cases "ep_status e") (auto simp: expected_def early_def)
    then show ?thesis
    proof cases
      case 1
      then have "ep_log e = []" using ok by (simp add: end_ok_def)
      with m run A_Accept 1 show ?thesis
        by - (rule receive_signature [OF D rel 1(1), of m], auto simp: end_step_def)
    next
      case 2
      with m run A_Accept show ?thesis
        by - (rule receive_acceptance [OF D rel 2, of m], auto simp: end_step_def)
    next
      case 3
      with run A_Accept rel show ?thesis by - (rule receive_ignored [OF rel m], auto simp: end_step_def)
    qed
  next
    case (A_Update t)
    show ?thesis
    proof (cases "ep_status e = S_Open \<and> ep_pending e = None")
      case True
      then have "ru_next ?R (last (ep_log e)) t" using exp A_Update by (simp add: expected_def early_def)
      with True m run A_Update show ?thesis
        by - (rule receive_update [OF D rel, of t m], auto simp: end_step_def)
    next
      case False
      then have "ep_status e = S_Done \<or> (\<exists>t. a = A_Update t) \<and>
          (ep_status e = S_Waiting \<or> ep_status e = S_Open \<and> ep_pending e \<noteq> None)"
        using exp A_Update by (cases "ep_status e") (auto simp: expected_def early_def)
      with run A_Update False rel show ?thesis by - (rule receive_ignored [OF rel m], auto simp: end_step_def)
    qed
  qed
  then show "end_step b X D p s e (receive ?R a e)" "r \<noteq> Panic" by simp_all
qed

text \<open>The replies of the services and a forced close open an end or end it.\<close>

definition service_step :: "state endpoint \<Rightarrow> state endpoint \<Rightarrow> bool" where
  "service_step e e' \<longleftrightarrow> e' = e \<or> ep_status e = S_Waiting \<and> e' = e\<lparr>ep_status := S_Open\<rparr> \<or>
     ep_status e = S_Open \<and> e' = e\<lparr>ep_status := S_Done\<rparr>"

definition service_run :: "(channel_inner \<times> bus, demo_error, unit) cmd \<Rightarrow> bool" where
  "service_run f \<longleftrightarrow> f = channel_force_close \<or> (\<exists>w. f = process_watcher_reply w) \<or> (\<exists>r. f = process_funder_reply r)"

lemma service_runs:
  "service_run channel_force_close" "service_run (process_watcher_reply w)" "service_run (process_funder_reply f)"
  by (auto simp: service_run_def)

lemma end_rel_cases:
  assumes "end_rel b X D p inner e"
  obtains c where "inner = Proposed c" | ag where "inner = AgreedUpon ag"
  | sc w f where "ep_status e = S_Waiting" "inner = Signed sc w f" "channel_at X D p (dl_state X D) (mark_funded sc)"
  | ch upd where "ep_status e = S_Open" "inner = Active ch upd" "channel_at X D p (last (ep_log e)) ch"
  | ch where "ep_status e = S_Done" "inner = Closing ch"
  | "ep_status e = S_Done" "inner = ForceClosing" | "ep_status e = S_Done" "inner = Closed"
  using assms by (auto simp: end_rel_def split: status.splits)

text \<open>The phase such a step leads to.\<close>

lemma service_outcome:
  assumes "service_run f" "f (inner, []) = (r, (inner', bus))" "inner \<noteq> TemporaryInvalidState"
  shows "r \<noteq> Panic \<and> to_peer bus = [] \<and> watched bus = [] \<and>
    (inner' = inner \<or>
     (case inner of
        Signed sc w v \<Rightarrow> inner' = Active (mark_funded sc) None \<or> (\<exists>w v. inner' = Signed sc w v)
      | Active _ _ \<Rightarrow> inner' = ForceClosing \<or> inner' = Closed
      | Closing _ \<Rightarrow> inner' = Closed
      | ForceClosing \<Rightarrow> inner' = Closed
      | _ \<Rightarrow> False))"
proof -
  consider "f = channel_force_close" | w where "f = process_watcher_reply w" | g where "f = process_funder_reply g"
    using assms(1) by (auto simp: service_run_def)
  then show ?thesis
  proof cases
    case 1
    with assms(2,3) show ?thesis
      by (cases inner) (auto simp: channel_force_close_def progress_def force_close_transition_def force_close_def
          send_to_funder_def)
  next
    case (2 w)
    with assms(2,3) show ?thesis
      by (cases "(w, inner)" rule: watcher_transition.cases)
        (auto simp: process_watcher_reply_def progress_def split: if_splits)
  next
    case (3 g)
    with assms(2,3) show ?thesis
      by (cases "(g, inner)" rule: funder_transition.cases)
        (auto simp: process_funder_reply_def progress_def split: if_splits)
  qed
qed

lemma service_rel:
  assumes rel: "end_rel b X D p inner e" and ok: "end_ok (channel_rules b X D) e"
    and f: "service_run f" and run: "f (inner, []) = (r, s)"
  shows "\<exists>e'. end_step b X D p s e (e', []) \<and> service_step e e'"
proof -
  obtain inner' bus where s: "s = (inner', bus)" by (cases s)
  have "inner \<noteq> TemporaryInvalidState" using rel by (auto simp: end_rel_def split: status.splits)
  note out = service_outcome [OF f run [unfolded s] this]
  have wait: "ep_pending e = None" "ep_log e = [dl_state X D]" if "ep_status e = S_Waiting"
    using ok that by (auto simp: end_ok_def channel_rules_def)
  have "\<exists>e'. end_rel b X D p inner' e' \<and> ep_log e' = ep_log e \<and> service_step e e'"
  proof (cases "inner' = inner")
    case False
    from rel show ?thesis
    proof (cases rule: end_rel_cases)
      case (3 sc w v)
      with out False consider "inner' = Active (mark_funded sc) None" | w v where "inner' = Signed sc w v" by auto
      then show ?thesis
      proof cases
        case 1
        with 3 wait show ?thesis
          by (intro exI [of _ "e\<lparr>ep_status := S_Open\<rparr>"]) (auto simp: end_rel_def service_step_def)
      qed (use 3 in \<open>auto simp: end_rel_def service_step_def intro!: exI [of _ e]\<close>)
    next
      case (4 ch upd)
      then show ?thesis using out False
        by (auto simp: end_rel_def service_step_def intro!: exI [of _ "e\<lparr>ep_status := S_Done\<rparr>"])
    qed (use out False in \<open>auto simp: end_rel_def service_step_def intro!: exI [of _ e]\<close>)
  qed (use rel in \<open>auto simp: service_step_def intro!: exI [of _ e]\<close>)
  then show ?thesis using out s by (auto simp: end_step_def)
qed

lemma payment_rel:
  assumes D: "deal_ok X D" and rel: "end_rel b X D p inner e"
    and pend: "no_pending inner" and run: "channel_update_op b X amount is_final (inner, []) = (r, s)"
  obtains "s = (inner, [])"
  | t where "ep_status e = S_Open" "ep_pending e = None" "ru_next (channel_rules b X D) (last (ep_log e)) t"
      "end_step b X D p s e (e\<lparr>ep_pending := Some t\<rparr>, [A_Update t])"
proof (cases "\<exists>ch upd t. inner = Active ch upd \<and> payment_state b X ch amount is_final = Ok t \<and>
    valid_transition b (ac_state ch) t")
  case True
  then obtain ch upd t where ch: "inner = Active ch upd" "payment_state b X ch amount is_final = Ok t"
    "valid_transition b (ac_state ch) t" by blast
  have st: "ep_status e = S_Open" "ep_pending e = None" "channel_at X D p (last (ep_log e)) ch"
    using rel ch(1) pend by (auto simp: end_rel_def no_pending_def split: status.splits option.splits)
  have at: "ac_params ch = dl_params X D" "ac_part_idx ch = side p" "ac_state ch = last (ep_log e)" "channel_wf X ch"
    using st(3) by (simp_all add: channel_at_def)
  have t: "state_wf 1 2 t" using payment_state_wf [OF ch(2)] at(4) by (simp add: channel_wf_def channel_ok_def)
  obtain sig where sig: "sig_valid b X (ac_params ch) t (ac_part_idx ch) sig"
    "update b X ch t [] = (Ok (fresh_update ch t (ac_part_idx ch) sig),
      [] @ [ToParticipant (ac_peers ch ! ac_part_idx ch) (ac_peers ch ! (1 - ac_part_idx ch))
        (ChannelUpdate \<lparr>lu_state = t, lu_actor_idx = ac_part_idx ch, lu_sig = sig\<rparr>)])"
    using update_valid [OF deal_okD(1) [OF D] at(4) t ch(3)] by metis
  have "ru_next (channel_rules b X D) (last (ep_log e)) t" using ch(3) t at(3) by (simp add: channel_rules_def)
  moreover have "end_step b X D p s e (e\<lparr>ep_pending := Some t\<rparr>, [A_Update t])"
    using run sig at st(1,3) ch(1,2) t
    by (auto simp: channel_update_op_def end_step_def end_rel_def msg_rel_def)
  ultimately show ?thesis using st that(2) by blast
next
  case False
  have wf: "channel_wf X ch" if "inner = Active ch upd" for ch upd
    using rel that by (auto simp: end_rel_def channel_at_def split: status.splits)
  have "s = (inner, [])"
  proof (cases "\<exists>ch upd t. inner = Active ch upd \<and> payment_state b X ch amount is_final = Ok t")
    case True
    then obtain ch upd t where ch: "inner = Active ch upd" "payment_state b X ch amount is_final = Ok t" by blast
    have "state_wf 1 2 t" using payment_state_wf [OF ch(2)] wf [OF ch(1)] by (simp add: channel_wf_def channel_ok_def)
    then obtain q where "update b X ch t [] = (q, [])" "\<And>u. q \<noteq> Ok u"
      using update_invalid [OF deal_okD(1) [OF D], of t b ch] False ch by metis
    then show ?thesis using run ch by (cases q) (auto simp: channel_update_op_def)
  qed (use run in \<open>auto simp: channel_update_op_def split: channel_inner.splits res.splits\<close>)
  then show ?thesis by (rule that(1))
qed

section \<open>The network refines the protocol\<close>

lemma net_rel_acted:
  assumes rel: "net_rel b X D c a" and step: "end_step b X D p s (cf_end a p) (e, out)"
    and q: "list_all2 (msg_rel b X D (\<not> p)) q qa"
  shows "net_rel b X D (acted p s (c\<lparr>nt_in := (nt_in c)(p := q)\<rparr>))
    \<lparr>cf_end = (cf_end a)(p := e), cf_in = (cf_in a)(p := qa, \<not> p := cf_in a (\<not> p) @ out)\<rparr>"
proof -
  obtain inner bus where s: "s = (inner, bus)" by (cases s)
  have at: "end_rel b X D x (nt_end c x) (cf_end a x)" "watched (nt_out c x) = ep_log (cf_end a x)"
    "list_all2 (msg_rel b X D (\<not> x)) (nt_in c x) (cf_in a x)" for x
    using rel by (simp_all add: net_rel_def)
  have "list_all2 (msg_rel b X D p) (nt_in c (\<not> p) @ to_peer bus) (cf_in a (\<not> p) @ out)"
    using at(3) [of "\<not> p"] step s by (auto simp: end_step_def intro: list_all2_appendI)
  moreover have "(\<forall>x. P x) \<longleftrightarrow> P p \<and> P (\<not> p)" for P by (cases p) (auto simp: all_bool_eq)
  ultimately show ?thesis
    using step s q at by (simp add: net_rel_def acted_def end_step_def)
qed

lemma net_rel_acted_idle:
  assumes "net_rel b X D c a" "end_step b X D p s (cf_end a p) (e, out)"
  shows "net_rel b X D (acted p s c)
    \<lparr>cf_end = (cf_end a)(p := e), cf_in = (cf_in a)(\<not> p := cf_in a (\<not> p) @ out)\<rparr>"
proof -
  have "list_all2 (msg_rel b X D (\<not> p)) (nt_in c p) (cf_in a p)" using assms(1) by (simp add: net_rel_def)
  from net_rel_acted [OF assms this] show ?thesis by simp
qed

lemma acted_nothing: "acted p (nt_end c p, []) c = c"
  by (simp add: acted_def to_services_def)

lemma net_rel_message:
  assumes D: "deal_ok X D" and inv: "agree_inv (channel_rules b X D) a" and rel: "net_rel b X D c a"
    and step: "delivery b X c c'"
  shows "\<exists>a'. astep (channel_rules b X D) a a' \<and> net_rel b X D c' a'"
proof -
  let ?R = "channel_rules b X D"
  from step obtain p m q r s where d: "nt_in c p = m # q"
    "process_participant_msg b X m (nt_end c p, []) = (r, s)" "c' = acted p s (delivered p c)"
    by (cases rule: delivery.cases) (auto elim: that)
  have "list_all2 (msg_rel b X D (\<not> p)) (nt_in c p) (cf_in a p)" "end_rel b X D p (nt_end c p) (cf_end a p)"
    using rel by (simp_all add: net_rel_def)
  with d(1) obtain am qa where am: "cf_in a p = am # qa" "msg_rel b X D (\<not> p) m am"
    "list_all2 (msg_rel b X D (\<not> p)) q qa" "end_rel b X D p (nt_end c p) (cf_end a p)"
    by (auto simp: list_all2_Cons1)
  have ok: "end_ok ?R (cf_end a p)" using inv by (simp add: agree_inv_def)
  obtain e out where e: "receive ?R am (cf_end a p) = (e, out)" by (cases "receive ?R am (cf_end a p)")
  have "end_step b X D p s (cf_end a p) (e, out)"
    using receive_rel(1) [OF D am(4) ok am(2) agree_expected [OF inv am(1)] d(2)] e by simp
  from net_rel_acted [OF rel this am(3)] have "net_rel b X D c' (deliver ?R p am qa a)"
    using d(1,3) e by (simp add: deliver_def delivered_def)
  with astep.receiving [OF am(1)] show ?thesis by blast
qed

lemma net_rel_service:
  assumes inv: "agree_inv (channel_rules b X D) a" and rel: "net_rel b X D c a"
    and f: "service_run f" "f (nt_end c p, []) = (r, s)"
  shows "\<exists>a'. (astep (channel_rules b X D))\<^sup>*\<^sup>* a a' \<and> net_rel b X D (acted p s c) a'"
proof -
  let ?R = "channel_rules b X D"
  have "end_rel b X D p (nt_end c p) (cf_end a p)" "end_ok ?R (cf_end a p)"
    using rel inv by (simp_all add: net_rel_def agree_inv_def)
  from service_rel [OF this f] obtain e where e: "end_step b X D p s (cf_end a p) (e, [])"
    "service_step (cf_end a p) e" by blast
  from net_rel_acted_idle [OF rel e(1)]
  have n: "net_rel b X D (acted p s c) (a\<lparr>cf_end := (cf_end a)(p := e)\<rparr>)" by (cases a) simp
  have "(astep ?R)\<^sup>*\<^sup>* a (a\<lparr>cf_end := (cf_end a)(p := e)\<rparr>)"
    using e(2) astep.funding [of a p ?R] astep.leaving [of a p ?R] by (auto simp: service_step_def)
  with n show ?thesis by blast
qed

lemma net_rel_step:
  assumes D: "deal_ok X D" and inv: "agree_inv (channel_rules b X D) a" and rel: "net_rel b X D c a"
    and step: "net_step b X no_pending c c'"
  shows "\<exists>a'. (astep (channel_rules b X D))\<^sup>*\<^sup>* a a' \<and> net_rel b X D c' a'"
  using step
proof cases
  case message
  then show ?thesis using net_rel_message [OF D inv rel] by blast
next
  case (payment p amount is_final r s)
  have "end_rel b X D p (nt_end c p) (cf_end a p)" using rel by (simp add: net_rel_def)
  from D this payment(2,3) show ?thesis
  proof (cases rule: payment_rel)
    case 1
    then show ?thesis using payment(1) rel by (auto simp: acted_nothing)
  next
    case (2 t)
    then show ?thesis unfolding payment(1)
      using net_rel_acted_idle [OF rel 2(4)] astep.proposing [OF 2(1-3)] by blast
  qed
qed (auto intro: service_runs [THEN net_rel_service [OF inv rel]])

text \<open>Opening a channel reaches the first configuration of the protocol.\<close>

definition net_inv :: "build \<Rightarrow> ext \<Rightarrow> deal \<Rightarrow> net \<Rightarrow> bool" where
  "net_inv b X D c \<longleftrightarrow> deal_ok X D \<and> (\<exists>a. agree_inv (channel_rules b X D) a \<and> net_rel b X D c a)"

lemma net_start_conf:
  assumes D: "deal_ok X D"
  obtains c sig where "dl_sig b X D (dl_state X D) False sig"
    "c = \<lparr>nt_end = (\<lambda>p. if p then Proposed (ProposedChannel_new (PerunClient_new (dl_signer D True)) 0
          (dl_receiver D True) (dl_proposal D)) else AgreedUpon (agreed_end X D False [None, Some sig])),
       nt_in = (\<lambda>p. if p then [ProposalAccepted (dl_acc D),
          ChannelUpdateAccepted (opening_msg X (dl_proposal D) (dl_acc D) sig)] else []),
       nt_out = (\<lambda>p. [])\<rparr>"
    "\<And>c'. net_start b X D c' \<longleftrightarrow> c' = c"
proof -
  obtain sig where sig: "dl_sig b X D (dl_state X D) False sig"
    "\<And>bus. sign b X (agreed_end X D False [None, None], bus) = (Ok (), (agreed_end X D False ([None, None][side False := Some sig]),
      bus @ [ToParticipant (lp_peers (dl_proposal D) ! side False) (lp_peers (dl_proposal D) ! (1 - side False))
        (ChannelUpdateAccepted (opening_msg X (dl_proposal D) (dl_acc D) sig))]))"
    using D by (rule sign_end) (rule that)
  note ok = deal_okD [OF D] deal_agreed(2) [OF D, of "[None, None]", simplified]
  note phase = proposal_phase(1,2,5) [OF ok(1-3) ok(5) [unfolded dl_acc_def], folded dl_acc_def]
  have end1: "agreed_side X (dl_proposal D) (dl_acc D) (dl_signer D False) 1 (dl_receiver D False) =
      agreed_end X D False [None, None]"
    by (simp add: agreed_end_def agreed_side_def AgreedUponChannel_new_def PARTICIPANTS_def numeral_2_eq_2)
  show ?thesis
    by (rule that [OF sig(1) refl])
      (auto simp: net_start_def handle_proposal_def phase [unfolded One_nat_def]
        phase end1 [unfolded One_nat_def] sig(2) Channel_new_def Channel_new_agreed_upon_def fun_eq_iff)
qed

lemma net_start_exists:
  assumes "deal_ok X D"
  obtains c where "net_start b X D c" "nt_in c True \<noteq> []"
proof (rule net_start_conf [OF assms, of b])
  fix c sig
  assume c: "c = \<lparr>nt_end = (\<lambda>p. if p then Proposed (ProposedChannel_new (PerunClient_new (dl_signer D True)) 0
          (dl_receiver D True) (dl_proposal D)) else AgreedUpon (agreed_end X D False [None, Some sig])),
       nt_in = (\<lambda>p. if p then [ProposalAccepted (dl_acc D),
          ChannelUpdateAccepted (opening_msg X (dl_proposal D) (dl_acc D) sig)] else []),
       nt_out = (\<lambda>p. [])\<rparr>" and start: "\<And>c'. net_start b X D c' \<longleftrightarrow> c' = c"
  have "nt_in c True \<noteq> []" unfolding c by simp
  then show thesis using start by (blast intro: that)
qed

lemma net_start_inv:
  assumes D: "deal_ok X D" and start: "net_start b X D c"
  shows "net_inv b X D c"
proof -
  obtain c0 sig where s: "dl_sig b X D (dl_state X D) False sig" and c0: "c0 = \<lparr>nt_end = (\<lambda>p. if p then Proposed (ProposedChannel_new (PerunClient_new (dl_signer D True)) 0
          (dl_receiver D True) (dl_proposal D)) else AgreedUpon (agreed_end X D False [None, Some sig])),
       nt_in = (\<lambda>p. if p then [ProposalAccepted (dl_acc D),
          ChannelUpdateAccepted (opening_msg X (dl_proposal D) (dl_acc D) sig)] else []),
       nt_out = (\<lambda>p. [])\<rparr>" and "\<And>c'. net_start b X D c' \<longleftrightarrow> c' = c0"
    using D by (rule net_start_conf) (rule that)
  then have c: "c = c0" using start by simp
  have "msg_rel b X D False (ProposalAccepted (dl_acc D)) A_Proposal" by (simp add: msg_rel_def)
  then have "net_rel b X D c0 (initial_aconf (channel_rules b X D))"
    using s opening_msg_rel [OF s]
    by (auto simp: net_rel_def c0 initial_aconf_def end_rel_def channel_rules_def)
  then show ?thesis using D initial_agree_inv c by (auto simp: net_inv_def)
qed

lemma net_inv_step:
  assumes "net_inv b X D c" "net_step b X no_pending c c'"
  shows "net_inv b X D c'"
  using assms net_rel_step agree.reachable_inv unfolding net_inv_def by metis

interpretation network: invariant_system "net_step b X no_pending" "net_inv b X D"
  by unfold_locales (rule net_inv_step)

text \<open>What an end holds is what it last handed to its watcher.\<close>

definition holds_last :: "channel_inner \<Rightarrow> state list \<Rightarrow> bool" where
  "holds_last inner l = (case inner of
     Proposed _ \<Rightarrow> l = []
   | AgreedUpon _ \<Rightarrow> l = []
   | Signed sc _ _ \<Rightarrow> l = [ac_state (mark_funded sc)]
   | Active ch _ \<Rightarrow> l \<noteq> [] \<and> ac_state ch = last l
   | Closing ch \<Rightarrow> l \<noteq> [] \<and> ac_state ch = last l
   | TemporaryInvalidState \<Rightarrow> False
   | _ \<Rightarrow> True)"

lemma end_rel_holds_last:
  "end_rel b X D p inner e \<Longrightarrow> end_ok (channel_rules b X D) e \<Longrightarrow> holds_last inner (ep_log e)"
  by (auto simp: end_rel_def end_ok_def holds_last_def channel_at_def channel_rules_def split: status.splits)

lemma net_inv_logs:
  assumes "net_inv b X D c"
  shows "prefix (watched (nt_out c p)) (watched (nt_out c (\<not> p))) \<or>
      prefix (watched (nt_out c (\<not> p))) (watched (nt_out c p))"
    "length (watched (nt_out c p)) \<le> length (watched (nt_out c (\<not> p))) + 1"
    "successively (valid_transition b) (watched (nt_out c p))"
    "watched (nt_out c p) \<noteq> [] \<longrightarrow> hd (watched (nt_out c p)) = dl_state X D"
    "holds_last (nt_end c p) (watched (nt_out c p))"
    "nt_end c p = Active ch u \<Longrightarrow> nt_end c (\<not> p) = Active ch' u' \<Longrightarrow> nt_in c p = [] \<Longrightarrow> nt_in c (\<not> p) = [] \<Longrightarrow>
      watched (nt_out c p) = watched (nt_out c (\<not> p))"
proof -
  let ?R = "channel_rules b X D"
  obtain a where a: "agree_inv ?R a" "net_rel b X D c a" using assms by (auto simp: net_inv_def)
  have rel: "end_rel b X D x (nt_end c x) (cf_end a x)" "watched (nt_out c x) = ep_log (cf_end a x)"
    "list_all2 (msg_rel b X D (\<not> x)) (nt_in c x) (cf_in a x)" "end_ok ?R (cf_end a x)" for x
    using a by (simp_all add: net_rel_def agree_inv_def)
  note logs = agree_logs [OF a(1), of p]
  show "prefix (watched (nt_out c p)) (watched (nt_out c (\<not> p))) \<or>
      prefix (watched (nt_out c (\<not> p))) (watched (nt_out c p))"
    "length (watched (nt_out c p)) \<le> length (watched (nt_out c (\<not> p))) + 1"
    using logs(1,2) by (simp_all add: rel(2))
  show "successively (valid_transition b) (watched (nt_out c p))"
    using logs(3) by (auto simp: rel(2) channel_rules_def elim: successively_mono)
  show "watched (nt_out c p) \<noteq> [] \<longrightarrow> hd (watched (nt_out c p)) = dl_state X D"
    using logs(4) by (auto simp: rel(2) channel_rules_def)
  show "holds_last (nt_end c p) (watched (nt_out c p))"
    unfolding rel(2) using rel(1,4) by (rule end_rel_holds_last)
  have active: "ep_status (cf_end a x) = S_Open" if "nt_end c x = Active ch u" for x ch u
    using rel(1) [of x] that by (auto simp: end_rel_def split: status.splits)
  show "watched (nt_out c p) = watched (nt_out c (\<not> p))"
    if "nt_end c p = Active ch u" "nt_end c (\<not> p) = Active ch' u'" "nt_in c p = []" "nt_in c (\<not> p) = []"
    using logs(5) [OF active [OF that(1)] active [OF that(2)]] rel(3) [of p] rel(3) [of "\<not> p"] that(3,4)
    by (simp add: rel(2))
qed

lemma net_inv_peers:
  assumes "net_inv b X D c"
  shows "length (peers_of (nt_end c p)) \<le> 2"
proof -
  obtain a where "net_rel b X D c a" and D: "deal_ok X D" using assms by (auto simp: net_inv_def)
  then have "end_rel b X D p (nt_end c p) (cf_end a p)" by (simp add: net_rel_def)
  moreover have "length (lp_peers (dl_proposal D)) = 2" using deal_okD(2) [OF D] by (simp add: proposal_wf_def proposal_ok_def)
  ultimately show ?thesis
    by (auto simp: end_rel_def channel_at_def channel_wf_def channel_ok_def ProposedChannel_new_def agreed_end_def
        split: status.splits)
qed

section \<open>Properties\<close>

text \<open>
  C3: the two ends never disagree.  From a deal between participants with different keys on, over a
  connection that delivers the messages unchanged, and with users who propose no payment while one of
  their own is pending (\<open>Channel::update\<close> does not check that; \<open>Network_Races\<close> has what happens
  otherwise), whatever the watchers, the funders and the network do and in whatever order: the states
  the two ends have handed to their watchers are the same up to the last one, that is, one list is
  a prefix of the other and at most one longer; both start with the agreed initial state, every state
  is a valid successor of the one before, and each end holds the last of its own.  No message and no
  reply makes an end panic into \<open>TemporaryInvalidState\<close>; a payment that panics leaves the
  channel as it was.
\<close>

theorem network_agreement:
  assumes "deal_ok X D" "net_start b X D c0" "(net_step b X no_pending)\<^sup>*\<^sup>* c0 c"
  shows "let l = watched (nt_out c True); l' = watched (nt_out c False) in
    (prefix l l' \<and> length l' \<le> length l + 1 \<or> prefix l' l \<and> length l \<le> length l' + 1) \<and>
    (\<forall>p. successively (valid_transition b) (watched (nt_out c p)) \<and>
       (watched (nt_out c p) \<noteq> [] \<longrightarrow> hd (watched (nt_out c p)) = dl_state X D) \<and>
       holds_last (nt_end c p) (watched (nt_out c p)) \<and> nt_end c p \<noteq> TemporaryInvalidState)"
proof -
  have inv: "net_inv b X D c" using network.reachable_inv [OF assms(3) net_start_inv [OF assms(1,2)]] .
  have "nt_end c p \<noteq> TemporaryInvalidState" for p
    using net_inv_logs(5) [OF inv, of p] by (auto simp: holds_last_def)
  with net_inv_logs(1,2) [OF inv, of True] net_inv_logs(2) [OF inv, of False] net_inv_logs(3-5) [OF inv]
  show ?thesis by (auto simp: Let_def)
qed

definition toy_deal :: deal where
  "toy_deal = \<lparr>dl_proposal = toy_proposal 60, dl_nonce = replicate 32 3,
     dl_signer = (\<lambda>p. if p then toy_signer 7 else toy_signer 9), dl_receiver = (\<lambda>p. replicate 20 1)\<rparr>"

lemma toy_deal_ok: "deal_ok toy_ext toy_deal"
  using toy_env_ok toy_signer_ok toy_proposal_wf
  by (simp add: deal_ok_def toy_deal_def) (simp add: toy_proposal_def toy_signer_def)

theorem network_agreement_witness:
  "\<exists>c0 c. net_start dbg32 toy_ext toy_deal c0 \<and> delivery dbg32 toy_ext c0 c \<and>
    holds_last (nt_end c True) (watched (nt_out c True))"
proof -
  obtain c0 where start: "net_start dbg32 toy_ext toy_deal c0" and "nt_in c0 True \<noteq> []"
    using toy_deal_ok by (rule net_start_exists)
  then obtain c where c: "delivery dbg32 toy_ext c0 c" using delivery_possible by blast
  have "(net_step dbg32 toy_ext no_pending)\<^sup>*\<^sup>* c0 c" using net_step.message [OF c] by blast
  from network_agreement [OF toy_deal_ok start this] start c show ?thesis by (auto simp: Let_def)
qed

text \<open>
  C9: the two ends converge.  Under the same conditions (different keys, unchanged delivery, no
  second payment of an end while one of its own is pending), in every reachable configuration the messages on
  the way are used up after a bounded number of deliveries, the bound being the traffic; and
  whenever nothing is on the way and both ends are still active, they hold the same state and
  have handed the same states to their watchers.
\<close>

theorem network_converges:
  assumes "deal_ok X D" "net_start b X D c0" "(net_step b X no_pending)\<^sup>*\<^sup>* c0 c"
  shows "(\<exists>n c'. n \<le> traffic c \<and> (delivery b X ^^ n) c c' \<and> (\<forall>p. nt_in c' p = [])) \<and>
    ((\<forall>p. nt_in c p = []) \<longrightarrow> (\<forall>ch u ch' u'. nt_end c True = Active ch u \<and> nt_end c False = Active ch' u' \<longrightarrow>
       ac_state ch = ac_state ch' \<and> watched (nt_out c True) = watched (nt_out c False)))"
proof -
  have inv: "net_inv b X D c" using network.reachable_inv [OF assms(3) net_start_inv [OF assms(1,2)]] .
  obtain c' where "(delivery b X)\<^sup>*\<^sup>* c c'" "\<forall>p. nt_in c' p = []"
    using deliveries_finish [OF net_inv_peers [OF inv]] by blast
  moreover obtain n where "(delivery b X ^^ n) c c'" using calculation(1) by (auto simp: rtranclp_power)
  moreover have "n \<le> traffic c" using deliveries_bound(1) [OF net_inv_peers [OF inv] calculation(3)] by simp
  moreover have "ac_state ch = ac_state ch' \<and> watched (nt_out c True) = watched (nt_out c False)"
    if "\<forall>p. nt_in c p = []" "nt_end c True = Active ch u" "nt_end c False = Active ch' u'" for ch u ch' u'
    using net_inv_logs(6) [OF inv, of True ch u ch' u'] that
      net_inv_logs(5) [OF inv, of True] net_inv_logs(5) [OF inv, of False] by (simp add: holds_last_def)
  ultimately show ?thesis by blast
qed

theorem network_converges_witness:
  "\<exists>c0 n c. net_start dbg32 toy_ext toy_deal c0 \<and> (delivery dbg32 toy_ext ^^ n) c0 c \<and> (\<forall>p. nt_in c p = [])"
proof -
  obtain c0 where start: "net_start dbg32 toy_ext toy_deal c0"
    using toy_deal_ok by (rule net_start_exists)
  from network_converges [OF toy_deal_ok start rtranclp.rtrancl_refl] start show ?thesis by blast
qed

end
