(* ===== verification/Network_Races.thy ===== *)
theory Network_Races
  imports Network_Props
begin

text \<open>
  What the discipline of one pending payment is for, and what no discipline helps against: an
  end that proposes twice before it hears from the other loses track of the channel, and two
  proposals that cross leave both ends waiting.
\<close>

section \<open>Messages that come too late\<close>

text \<open>An update for a version the channel already has.\<close>

lemma stale_update:
  assumes "state_wf 1 2 t'" "st_id t' = st_id (ac_state d)" "\<not> st_is_final (ac_state d)"
    "st_version t' = st_version (ac_state d)" "st_version (ac_state d) \<noteq> - 1"
  shows "process_participant_msg b X (ChannelUpdate \<lparr>lu_state = t', lu_actor_idx = i, lu_sig = sig\<rparr>) (Active d None, []) =
    (Err (DE_HandleUpdate (HU_InvalidUpdate IU_InvalidVersionNumber)), (Active d None, []))"
proof -
  have "debug_assert_valid b (st_outcome t') = (Ok () :: (invalid_update, unit) res)"
    using assms(1) by (intro debug_assert_valid_wf) (simp add: state_wf_def)
  moreover have "u64_add b (st_version (ac_state d)) 1 = (Ok (st_version (ac_state d) + 1) :: (invalid_update, u64) res)"
    using assms(5) by (simp only: u64_add_one_Ok simp_thms)
  ultimately have "check_valid_transition b X d t' = Err IU_InvalidVersionNumber"
    using assms by (simp add: check_valid_transition_def)
  then show ?thesis
    by (simp add: process_participant_msg_def progress_def remote_update_arm_def handle_update_def)
qed

lemma stale_update_applied:
  assumes "state_wf 1 2 t'" "st_id t' = st_id t" "st_version t' = st_version t" "st_version t \<noteq> - 1"
    "ac_state d = t" "cu_new_state u = t"
  obtains e where "process_participant_msg b X (ChannelUpdate \<lparr>lu_state = t', lu_actor_idx = i, lu_sig = sig\<rparr>)
    (after_apply d u, []) = (Err e, (after_apply d u, []))"
proof (cases "st_is_final t")
  case True
  then show ?thesis
    using assms by (intro that [of DE_Closed]) (simp add: after_apply_def process_participant_msg_def progress_def)
next
  case False
  then show ?thesis
    using stale_update [of t' d b X i sig] assms
    by (intro that [of "DE_HandleUpdate (HU_InvalidUpdate IU_InvalidVersionNumber)"]) (simp add: after_apply_def)
qed

text \<open>A well-formed signature on another state: recovering its signer fails or gives somebody else.\<close>

lemma recover_signer_other:
  assumes "crypto_spec X" "recover_signer b X h sig = Ok a"
  shows "recover_signer b X h' sig \<noteq> Panic"
proof -
  have "Address_from_vk X vk \<noteq> (Panic :: (sig_error, address) res)" for vk
    using assms(1) by (simp add: Address_from_vk_def crypto_spec_def Let_def)
  moreover obtain v s where "u8_sub b (sig ! 64) 27 = (Ok v :: (sig_error, u8) res)"
    "sig_from_bytes X (sig[64 := v]) = Some s"
    using assms(2) by (auto simp: recover_signer_def bind_res_Ok_iff)
  ultimately show ?thesis
    by (cases "sig_recover X s (hash_to_eth_signed_msg_hash X h')") (simp_all add: recover_signer_def)
qed

lemma foreign_acceptance:
  assumes "env_ok X" "channel_wf X c" "state_wf 1 2 t" "state_wf 1 2 t'" "valid_transition b (ac_state c) t"
    "valid_transition b (ac_state c) t'" "ac_part_idx c = i" "sig_valid b X (ac_params c) t (1 - i) sig"
    "\<not> sig_valid b X (ac_params c) t' (1 - i) sig"
  obtains e where "process_participant_msg b X (ChannelUpdateAccepted
      \<lparr>lua_channel = st_id t, lua_version = st_version t, lua_sig = sig\<rparr>) (Active c (Some (fresh_update c t' i sig')), []) =
    (Err (DE_AddSignature e), (Active c (Some (fresh_update c t' i sig')), []))"
proof -
  let ?u = "fresh_update c t' i sig'"
  have i: "i < 2" "length (pa_participants (ac_params c)) = 2"
    using assms(2,7) by (auto simp: channel_wf_def channel_ok_def params_wf_def)
  obtain h h' where h: "to_hash b X (State_sval X t) = Ok h" "to_hash b X (State_sval X t') = Ok h'"
    using state_hash_Ok [OF assms(1,3)] state_hash_Ok [OF assms(1,4)] by metis
  have eq: "ensure_valid_channel b ?u c = Ok ()" "st_id t = st_id (ac_state c)" "st_version t' = st_version t"
    using fresh_update_valid_channel [OF assms(6), of ?u] assms(5,6) by (simp_all add: valid_transition_def)
  have "recover_signer b X h' sig \<noteq> Panic" "recover_signer b X h' sig \<noteq> Ok (pa_participants (ac_params c) ! (1 - i))"
    using assms(1,8,9) h i recover_signer_other [of X b h sig] by (auto simp: sig_valid_def env_ok_def)
  then obtain e where acc: "participant_accepted b X c (1 - i)
      \<lparr>lua_channel = st_id t, lua_version = st_version t, lua_sig = sig\<rparr> ?u = (Err e, ?u)"
    using eq h(2) i less_imp_diff_less [of 1 2 i]
    by (cases "recover_signer b X h' sig") (auto simp: participant_accepted_def index_def)
  have "usize_sub b 1 i = (Ok (1 - i) :: (demo_error, nat) res)" using i(1) by (auto simp: usize_sub_def less_2_cases_iff)
  with acc show ?thesis
    using assms(7) by (intro that [of e]) (simp add: process_participant_msg_def progress_def update_accepted_arm_def)
qed

section \<open>Properties\<close>

lemma payment_proposed:
  assumes "env_ok X" "channel_wf X c" "payment_state b X c a f = Ok t" "valid_transition b (ac_state c) t"
  obtains sig where "sig_valid b X (ac_params c) t (ac_part_idx c) sig"
    "\<And>upd. channel_update_op b X a f (Active c upd, []) = (Ok (), (Active c (Some (fresh_update c t (ac_part_idx c) sig)),
      [ToParticipant (ac_peers c ! ac_part_idx c) (ac_peers c ! (1 - ac_part_idx c))
        (ChannelUpdate \<lparr>lu_state = t, lu_actor_idx = ac_part_idx c, lu_sig = sig\<rparr>)]))"
proof -
  have "state_wf 1 2 t" using payment_state_wf [OF assms(3)] assms(2) by (simp add: channel_wf_def channel_ok_def)
  from update_valid [OF assms(1,2) this assms(4)] obtain sig where
    "sig_valid b X (ac_params c) t (ac_part_idx c) sig"
    "update b X c t [] = (Ok (fresh_update c t (ac_part_idx c) sig),
       [] @ [ToParticipant (ac_peers c ! ac_part_idx c) (ac_peers c ! (1 - ac_part_idx c))
         (ChannelUpdate \<lparr>lu_state = t, lu_actor_idx = ac_part_idx c, lu_sig = sig\<rparr>)])"
    by metis
  then show ?thesis
    by (intro that [of sig]) (simp_all add: channel_update_op_def assms(3))
qed

text \<open>A delivery, with what it does to the ends and the queues spelled out.\<close>

lemma delivery_to:
  assumes "q p = m # ms" "process_participant_msg b X m (e p, []) = (r, (inner, bus))"
  shows "delivery b X \<lparr>nt_end = e, nt_in = q, nt_out = w\<rparr>
    \<lparr>nt_end = e(p := inner), nt_in = q(p := ms, \<not> p := q (\<not> p) @ to_peer bus),
     nt_out = w(p := w p @ to_services bus)\<rparr>"
  using delivery.deliver [of "\<lparr>nt_end = e, nt_in = q, nt_out = w\<rparr>" p m ms b X r "(inner, bus)"] assms
  by (simp add: acted_def delivered_def)

text \<open>Three messages: the first is taken and answered, the second is refused, the answer needs no other.\<close>

lemma answered_run:
  assumes "process_participant_msg b X m1 (d, []) = (r1, (d', bus))" "to_peer bus = [a]"
    "process_participant_msg b X m2 (d', []) = (r2, (d', []))"
    "process_participant_msg b X a (c, []) = (r3, (c', bus'))" "to_peer bus' = []"
  shows "\<exists>n. (delivery b X)\<^sup>*\<^sup>* \<lparr>nt_end = (\<lambda>p. if p then c else d), nt_in = (\<lambda>p. if p then [] else [m1, m2]),
      nt_out = (\<lambda>p. [])\<rparr> n \<and>
    (\<forall>p. nt_in n p = []) \<and> nt_end n True = c' \<and> nt_end n False = d' \<and>
    watched (nt_out n True) = watched bus' \<and> watched (nt_out n False) = watched bus"
proof -
  let ?e = "\<lambda>p. if p then c else d" and ?q = "\<lambda>p. if p then [] else [m1, m2]"
  let ?n1 = "\<lparr>nt_end = ?e(False := d'), nt_in = ?q(False := [m2], True := [] @ to_peer bus),
    nt_out = (\<lambda>p. [])(False := [] @ to_services bus)\<rparr>"
  let ?n2 = "\<lparr>nt_end = (nt_end ?n1)(False := d'), nt_in = (nt_in ?n1)(False := [], True := nt_in ?n1 True @ to_peer []),
    nt_out = (nt_out ?n1)(False := nt_out ?n1 False @ to_services [])\<rparr>"
  let ?n3 = "\<lparr>nt_end = (nt_end ?n2)(True := c'), nt_in = (nt_in ?n2)(True := [], False := nt_in ?n2 False @ to_peer bus'),
    nt_out = (nt_out ?n2)(True := nt_out ?n2 True @ to_services bus')\<rparr>"
  have d1: "delivery b X \<lparr>nt_end = ?e, nt_in = ?q, nt_out = (\<lambda>p. [])\<rparr> ?n1"
    using delivery_to [of ?q False m1 "[m2]" b X ?e r1 d' bus "\<lambda>p. []"] assms(1) by simp
  have d2: "delivery b X ?n1 ?n2"
    using delivery_to [of "nt_in ?n1" False m2 "[]" b X "nt_end ?n1" r2 d' "[]" "nt_out ?n1"] assms(3) by simp
  have d3: "delivery b X ?n2 ?n3"
    using delivery_to [of "nt_in ?n2" True a "[]" b X "nt_end ?n2" r3 c' bus' "nt_out ?n2"] assms(2,4) by simp
  have "(delivery b X)\<^sup>*\<^sup>* \<lparr>nt_end = ?e, nt_in = ?q, nt_out = (\<lambda>p. [])\<rparr> ?n3"
    using d1 d2 d3 by (blast intro: rtranclp.rtrancl_into_rtrancl)
  moreover have "(\<forall>p. nt_in ?n3 p = []) \<and> nt_end ?n3 True = c' \<and> nt_end ?n3 False = d' \<and>
      watched (nt_out ?n3 True) = watched bus' \<and> watched (nt_out ?n3 False) = watched bus"
    using assms(5) by (simp add: all_bool_eq to_services_def [of "[]"])
  ultimately show ?thesis by blast
qed

text \<open>What the payee makes of two proposals in a row: it takes the first and refuses the second.\<close>

lemma overtaken_proposal:
  assumes "env_ok X" "channel_wf X d" "state_wf 1 2 t1" "state_wf 1 2 t2"
    "valid_transition b (ac_state d) t1" "valid_transition b (ac_state d) t2" "st_version t1 \<noteq> - 1"
    "ac_part_idx d = 1 - i" "i < 2" "sig_valid b X (ac_params d) t1 i s1"
  obtains s d' w e where "sig_valid b X (ac_params d) t1 (1 - i) s" "holds_last d' [t1]"
    "process_participant_msg b X (ChannelUpdate \<lparr>lu_state = t1, lu_actor_idx = i, lu_sig = s1\<rparr>) (Active d None, []) =
      (Ok (), (d', [ToParticipant (ac_peers d ! (1 - i)) (ac_peers d ! i) (ChannelUpdateAccepted
        \<lparr>lua_channel = st_id t1, lua_version = st_version t1, lua_sig = s\<rparr>), ToWatcher (WatchRequest w)]))" "sl_state w = t1"
    "process_participant_msg b X (ChannelUpdate \<lparr>lu_state = t2, lu_actor_idx = i, lu_sig = s2\<rparr>) (d', []) = (Err e, (d', []))"
proof -
  obtain s where s: "sig_valid b X (ac_params d) t1 (1 - i) s"
    "process_participant_msg b X (ChannelUpdate \<lparr>lu_state = t1, lu_actor_idx = i, lu_sig = s1\<rparr>) (Active d None, []) =
      (Ok (), (after_apply (d\<lparr>ac_state := t1, ac_signatures := both i s1 s\<rparr>)
        ((fresh_update d t1 i s1)\<lparr>cu_signatures := map Some (both i s1 s)\<rparr>),
        [ToParticipant (ac_peers d ! (1 - i)) (ac_peers d ! i) (ChannelUpdateAccepted
          \<lparr>lua_channel = st_id t1, lua_version = st_version t1, lua_sig = s\<rparr>),
         ToWatcher (WatchRequest \<lparr>sl_params = ac_params d, sl_state = t1, sl_sigs = both i s1 s\<rparr>)]))"
    (is "_ = (_, (?d, _))")
    using assms(1-3,5,8-10) by (rule remote_update_honest) (rule that)
  obtain e where e: "process_participant_msg b X (ChannelUpdate \<lparr>lu_state = t2, lu_actor_idx = i, lu_sig = s2\<rparr>)
      (?d, []) = (Err e, (?d, []))"
    by (rule stale_update_applied [OF assms(4), of t1 "d\<lparr>ac_state := t1, ac_signatures := both i s1 s\<rparr>"
        "(fresh_update d t1 i s1)\<lparr>cu_signatures := map Some (both i s1 s)\<rparr>"])
      (use assms(5-7) in \<open>simp_all add: valid_transition_def\<close>)
  have "holds_last ?d [t1]" by (simp add: holds_last_def after_apply_def)
  from that [OF s(1) this s(2) _ e] show ?thesis by simp
qed

text \<open>
  C18: two payments in a row.  \<open>Channel::update\<close> does not look at the pending update and overwrites it.
  If a payer proposes two payments before the first is accepted, the messages are delivered and
  the payee takes the first, refuses the second and hands the first to its watcher.  If the two
  proposed states are the same, as from two equal payments, the payer takes it too.  If they
  differ, to the extent that no signature of the payee is valid for both, the channel is torn
  apart: the payer refuses the acceptance of the first, keeps the old state, waits for the second and
  has handed its watcher nothing.
\<close>

theorem overlapping_payments_diverge:
  assumes env: "env_ok X" and c: "channel_wf X c" and d: "channel_wf X d" and m: "mirrored c d"
    and pay: "payment_state b X c a1 f1 = Ok t1" "payment_state b X c a2 f2 = Ok t2"
    and v: "valid_transition b (ac_state c) t1" "valid_transition b (ac_state c) t2" "st_version t1 \<noteq> - 1"
  shows "\<exists>u1 u2 bus1 bus2.
    channel_update_op b X a1 f1 (Active c None, []) = (Ok (), (Active c (Some u1), bus1)) \<and>
    channel_update_op b X a2 f2 (Active c (Some u1), []) = (Ok (), (Active c (Some u2), bus2)) \<and>
    (let start = \<lparr>nt_end = (\<lambda>p. if p then Active c (Some u2) else Active d None),
       nt_in = (\<lambda>p. if p then [] else to_peer (bus1 @ bus2)), nt_out = (\<lambda>p. [])\<rparr> in
     (t1 = t2 \<longrightarrow> (\<exists>n. (delivery b X)\<^sup>*\<^sup>* start n \<and> (\<forall>p. nt_in n p = []) \<and>
        (\<forall>p. holds_last (nt_end n p) [t1] \<and> watched (nt_out n p) = [t1]))) \<and>
     ((\<forall>sig. \<not> (sig_valid b X (ac_params c) t1 (ac_part_idx d) sig \<and> sig_valid b X (ac_params c) t2 (ac_part_idx d) sig)) \<longrightarrow>
        (\<exists>n. (delivery b X)\<^sup>*\<^sup>* start n \<and> (\<forall>p. nt_in n p = []) \<and>
          nt_end n True = Active c (Some u2) \<and> watched (nt_out n True) = [] \<and>
          holds_last (nt_end n False) [t1] \<and> watched (nt_out n False) = [t1])))"
proof -
  let ?i = "ac_part_idx c"
  have i: "?i < 2" "ac_part_idx d = 1 - ?i" and same: "ac_state d = ac_state c" "ac_params d = ac_params c"
    using c m by (simp_all add: channel_wf_def channel_ok_def mirrored_def)
  have wf: "state_wf 1 2 t1" "state_wf 1 2 t2"
    using payment_state_wf [OF pay(1)] payment_state_wf [OF pay(2)] c by (simp_all add: channel_wf_def channel_ok_def)
  obtain s1 where s1: "sig_valid b X (ac_params c) t1 ?i s1"
    "\<And>upd. channel_update_op b X a1 f1 (Active c upd, []) = (Ok (), (Active c (Some (fresh_update c t1 ?i s1)),
      [ToParticipant (ac_peers c ! ?i) (ac_peers c ! (1 - ?i)) (ChannelUpdate \<lparr>lu_state = t1, lu_actor_idx = ?i, lu_sig = s1\<rparr>)]))"
    using env c pay(1) v(1) by (rule payment_proposed) (rule that)
  obtain s2 where s2: "sig_valid b X (ac_params c) t2 ?i s2"
    "\<And>upd. channel_update_op b X a2 f2 (Active c upd, []) = (Ok (), (Active c (Some (fresh_update c t2 ?i s2)),
      [ToParticipant (ac_peers c ! ?i) (ac_peers c ! (1 - ?i)) (ChannelUpdate \<lparr>lu_state = t2, lu_actor_idx = ?i, lu_sig = s2\<rparr>)]))"
    using env c pay(2) v(2) by (rule payment_proposed) (rule that)
  let ?u2 = "fresh_update c t2 ?i s2"
  let ?start = "\<lparr>nt_end = (\<lambda>p. if p then Active c (Some ?u2) else Active d None), nt_in = (\<lambda>p. if p then []
    else [ChannelUpdate \<lparr>lu_state = t1, lu_actor_idx = ?i, lu_sig = s1\<rparr>,
      ChannelUpdate \<lparr>lu_state = t2, lu_actor_idx = ?i, lu_sig = s2\<rparr>]), nt_out = (\<lambda>p. [])\<rparr>"
  have dv: "valid_transition b (ac_state d) t1" "valid_transition b (ac_state d) t2" "sig_valid b X (ac_params d) t1 ?i s1"
    using v(1,2) s1(1) same by simp_all
  let ?acc = "\<lambda>s. ChannelUpdateAccepted \<lparr>lua_channel = st_id t1, lua_version = st_version t1, lua_sig = s\<rparr>"
  obtain s d' w e where s: "sig_valid b X (ac_params d) t1 (1 - ?i) s" "holds_last d' [t1]"
    and first: "process_participant_msg b X (ChannelUpdate \<lparr>lu_state = t1, lu_actor_idx = ?i, lu_sig = s1\<rparr>) (Active d None, []) =
      (Ok (), (d', [ToParticipant (ac_peers d ! (1 - ?i)) (ac_peers d ! ?i) (?acc s), ToWatcher (WatchRequest w)]))" "sl_state w = t1"
    and second: "process_participant_msg b X (ChannelUpdate \<lparr>lu_state = t2, lu_actor_idx = ?i, lu_sig = s2\<rparr>) (d', []) = (Err e, (d', []))"
    by (rule overtaken_proposal [OF env d wf dv(1,2) v(3) i(2,1) dv(3), of s2]) (rule that)
  note run = answered_run [OF first(1) _ second]
  have equal: "\<exists>n. (delivery b X)\<^sup>*\<^sup>* ?start n \<and> (\<forall>p. nt_in n p = []) \<and>
      (\<forall>p. holds_last (nt_end n p) [t1] \<and> watched (nt_out n p) = [t1])" if "t1 = t2"
    using run [of "?acc s", OF _ update_accepted_honest [OF env wf(1) v(1) refl i(1), of s s2, folded same(2), OF s(1), folded that]]
      that s(2) first(2) by (auto simp: all_bool_eq holds_last_def after_apply_def)
  have differ: "\<exists>n. (delivery b X)\<^sup>*\<^sup>* ?start n \<and> (\<forall>p. nt_in n p = []) \<and> nt_end n True = Active c (Some ?u2) \<and>
      watched (nt_out n True) = [] \<and> holds_last (nt_end n False) [t1] \<and> watched (nt_out n False) = [t1]"
    if no: "\<forall>sig. \<not> (sig_valid b X (ac_params c) t1 (ac_part_idx d) sig \<and> sig_valid b X (ac_params c) t2 (ac_part_idx d) sig)"
  proof -
    obtain e2 where "process_participant_msg b X (?acc s) (Active c (Some ?u2), []) =
        (Err (DE_AddSignature e2), (Active c (Some ?u2), []))"
      by (rule foreign_acceptance [OF env c wf v(1,2) refl, of s s2]) (use s(1) no i(2) same in auto)
    from run [OF _ this] s(2) first(2) show ?thesis by auto
  qed
  show ?thesis
    by (intro exI conjI, rule s1(2), rule s2(2), unfold bus_split append_Cons append_Nil Let_def)
      (use equal differ in blast)
qed

subsection \<open>Crossing payments\<close>

text \<open>
  Both ends wait for an answer, or have left; whatever is on the way is an update.  Users who do not pay
  while a payment is pending keep waiting for the same one.
\<close>

definition stuck :: "(channel_inner \<Rightarrow> bool) \<Rightarrow> (bool \<Rightarrow> active_channel) \<Rightarrow> (bool \<Rightarrow> channel_update) \<Rightarrow> net \<Rightarrow> bool" where
  "stuck U ch u n \<longleftrightarrow> (\<forall>p. ((\<exists>v. nt_end n p = Active (ch p) (Some v) \<and> (U = no_pending \<longrightarrow> v = u p)) \<or>
       nt_end n p = ForceClosing \<or> nt_end n p = Closed) \<and>
     list_all (\<lambda>m. \<exists>x. m = ChannelUpdate x) (nt_in n p) \<and> watched (nt_out n p) = [])"

lemma stuck_acted:
  assumes "stuck U ch u n" "list_all (\<lambda>m. \<exists>x. m = ChannelUpdate x) (to_peer bus)" "watched bus = []"
    "list_all (\<lambda>m. \<exists>x. m = ChannelUpdate x) q"
    "inner = nt_end n p \<or> inner = ForceClosing \<or> inner = Closed \<or> U \<noteq> no_pending \<and> (\<exists>v. inner = Active (ch p) (Some v))"
  shows "stuck U ch u (acted p (inner, bus) (n\<lparr>nt_in := (nt_in n)(p := q)\<rparr>))"
  using assms by (auto simp: stuck_def acted_def)

text \<open>A payment of a waiting end overwrites the pending update and sends an update, or does nothing.\<close>

lemma payment_waiting:
  assumes "channel_update_op b X amount is_final (Active c (Some v), []) = (r, (inner, bus))"
  shows "list_all (\<lambda>m. \<exists>x. m = ChannelUpdate x) (to_peer bus)" "watched bus = []" "\<exists>v. inner = Active c (Some v)"
proof -
  have sends: "list_all (\<lambda>m. \<exists>x. m = ChannelUpdate x) (to_peer bus') \<and> watched bus' = []"
    if "update b X c t [] = (r', bus')" for t r' bus'
  proof -
    have "to_peer (map (\<lambda>p. ToParticipant x p (ChannelUpdate y)) ps) = map (\<lambda>_. ChannelUpdate y) ps"
      "watched (map (\<lambda>p. ToParticipant x p (ChannelUpdate y)) ps) = []" for x y ps
      by (induction ps) simp_all
    then show ?thesis using that
      by (auto simp: update_def bindS_def broadcast_outcome list_all_iff split: res.splits if_splits)
  qed
  show "list_all (\<lambda>m. \<exists>x. m = ChannelUpdate x) (to_peer bus)" "watched bus = []" "\<exists>v. inner = Active c (Some v)"
    using assms sends
    by (auto simp: channel_update_op_def split: res.splits prod.splits)
qed

lemma stuck_step:
  assumes stuck: "stuck U ch u n" and step: "net_step b X U n n'"
  shows "stuck U ch u n'"
proof -
  have here: "(\<exists>v. nt_end n p = Active (ch p) (Some v)) \<or> nt_end n p = ForceClosing \<or> nt_end n p = Closed"
    "list_all (\<lambda>m. \<exists>x. m = ChannelUpdate x) (nt_in n p)" for p
    using stuck by (auto simp: stuck_def)
  have run: "stuck U ch u (acted p s n)" if "service_run f" "f (nt_end n p, []) = (r, s)" for f p r s
  proof -
    obtain inner bus where s: "s = (inner, bus)" by (cases s)
    have "inner = nt_end n p \<or> inner = ForceClosing \<or> inner = Closed" "to_peer bus = []" "watched bus = []"
      using service_outcome [OF that(1) that(2) [unfolded s]] here(1) [of p] by auto
    then show ?thesis using stuck_acted [OF stuck, of bus "nt_in n p" inner p] here(2) s by force
  qed
  from step show ?thesis
  proof cases
    case message
    then obtain p m q r s where d: "nt_in n p = m # q" "process_participant_msg b X m (nt_end n p, []) = (r, s)"
      "n' = acted p s (delivered p n)"
      by (cases rule: delivery.cases) (auto elim: that)
    then obtain x where "m = ChannelUpdate x" "list_all (\<lambda>m. \<exists>x. m = ChannelUpdate x) q" using here(2) [of p] by auto
    then have "s = (nt_end n p, [])"
      using here(1) [of p] d(2) by (auto simp: process_participant_msg_def progress_def)
    then show ?thesis
      using d stuck_acted [OF stuck, of "[]" q "nt_end n p" p] \<open>list_all _ q\<close> by (simp add: delivered_def)
  next
    case (payment p amount is_final r s)
    obtain inner bus where s: "s = (inner, bus)" by (cases s)
    have guard: "U \<noteq> no_pending" if "nt_end n p = Active (ch p) (Some v)" for v
      using payment(2) that by (auto simp: no_pending_def)
    from here(1) [of p] consider v where "nt_end n p = Active (ch p) (Some v)" "U \<noteq> no_pending" | "s = (nt_end n p, [])"
      using payment(3) guard by (cases "nt_end n p") (auto simp: channel_update_op_def)
    then show ?thesis
    proof cases
      case (1 v)
      then show ?thesis
        using payment_waiting [OF payment(3) [unfolded 1(1) s]] stuck_acted [OF stuck, of bus "nt_in n p" inner p] here(2)
        by (simp add: payment(1) s)
    next
      case 2
      then show ?thesis using payment(1) stuck by (simp add: acted_nothing)
    qed
  qed (auto intro: service_runs [THEN run])
qed

interpretation stuck: invariant_system "net_step b X U" "stuck U ch u"
  by unfold_locales (rule stuck_step)

text \<open>
  C17: two payments that cross block the channel for good.  If both ends propose before either
  proposal arrives, each refuses the other's without an answer; from then on, whatever the users,
  the services and the network do, neither end ever takes another state: it keeps waiting until it is
  closed by force or by a dispute.  Users may propose further payments meanwhile, which replace
  the pending one; those who do not wait for the same answer for ever.
\<close>

theorem crossing_payments_block:
  assumes env: "env_ok X" and c: "channel_wf X c" "channel_wf X d"
    and pay: "payment_state b X c a1 f1 = Ok t1" "payment_state b X d a2 f2 = Ok t2"
    and v: "valid_transition b (ac_state c) t1" "valid_transition b (ac_state d) t2"
  shows "\<exists>u1 u2 bus1 bus2.
    channel_update_op b X a1 f1 (Active c None, []) = (Ok (), (Active c (Some u1), bus1)) \<and>
    channel_update_op b X a2 f2 (Active d None, []) = (Ok (), (Active d (Some u2), bus2)) \<and>
    (\<forall>U n. (net_step b X U)\<^sup>*\<^sup>* \<lparr>nt_end = (\<lambda>p. if p then Active c (Some u1) else Active d (Some u2)),
        nt_in = (\<lambda>p. if p then to_peer bus2 else to_peer bus1), nt_out = (\<lambda>p. [])\<rparr> n \<longrightarrow>
      (nt_end n True \<in> {ForceClosing, Closed} \<or> (\<exists>v. nt_end n True = Active c (Some v) \<and> (U = no_pending \<longrightarrow> v = u1))) \<and>
      (nt_end n False \<in> {ForceClosing, Closed} \<or> (\<exists>v. nt_end n False = Active d (Some v) \<and> (U = no_pending \<longrightarrow> v = u2))) \<and>
      watched (nt_out n True) = [] \<and> watched (nt_out n False) = [])"
proof -
  obtain s1 where s1: "channel_update_op b X a1 f1 (Active c None, []) = (Ok (), (Active c (Some (fresh_update c t1 (ac_part_idx c) s1)),
      [ToParticipant (ac_peers c ! ac_part_idx c) (ac_peers c ! (1 - ac_part_idx c))
        (ChannelUpdate \<lparr>lu_state = t1, lu_actor_idx = ac_part_idx c, lu_sig = s1\<rparr>)]))" (is "_ = (_, (Active c (Some ?u1), ?bus1))")
    using payment_proposed [OF env c(1) pay(1) v(1)] by metis
  obtain s2 where s2: "channel_update_op b X a2 f2 (Active d None, []) = (Ok (), (Active d (Some (fresh_update d t2 (ac_part_idx d) s2)),
      [ToParticipant (ac_peers d ! ac_part_idx d) (ac_peers d ! (1 - ac_part_idx d))
        (ChannelUpdate \<lparr>lu_state = t2, lu_actor_idx = ac_part_idx d, lu_sig = s2\<rparr>)]))" (is "_ = (_, (Active d (Some ?u2), ?bus2))")
    using payment_proposed [OF env c(2) pay(2) v(2)] by metis
  let ?n = "\<lparr>nt_end = (\<lambda>p. if p then Active c (Some ?u1) else Active d (Some ?u2)),
    nt_in = (\<lambda>p. if p then to_peer ?bus2 else to_peer ?bus1), nt_out = (\<lambda>p. [])\<rparr>"
  have start: "stuck U (\<lambda>p. if p then c else d) (\<lambda>p. if p then ?u1 else ?u2) ?n" for U by (simp add: stuck_def)
  have "(nt_end n True \<in> {ForceClosing, Closed} \<or> (\<exists>v. nt_end n True = Active c (Some v) \<and> (U = no_pending \<longrightarrow> v = ?u1))) \<and>
      (nt_end n False \<in> {ForceClosing, Closed} \<or> (\<exists>v. nt_end n False = Active d (Some v) \<and> (U = no_pending \<longrightarrow> v = ?u2))) \<and>
      watched (nt_out n True) = [] \<and> watched (nt_out n False) = []"
    if "(net_step b X U)\<^sup>*\<^sup>* ?n n" for U n
    using stuck.reachable_inv [OF that start] by (simp add: stuck_def all_bool_eq) blast
  with s1 s2 show ?thesis by blast
qed

section \<open>Concrete payments\<close>

text \<open>A hash that keeps the byte with the flag of a final state.\<close>

definition flag_hash :: "bytes \<Rightarrow> bytes" where
  "flag_hash m = (if length m = 60 then drop 28 m else if length m = 64 then toy_hash m
     else take 32 (drop 161 m @ replicate 32 0))"

definition flag_ext :: ext where
  "flag_ext = toy_ext\<lparr>keccak256 := flag_hash\<rparr>"

definition toy_paid :: "nat \<Rightarrow> bool \<Rightarrow> state" where
  "toy_paid i f = (sample_state 5)\<lparr>st_outcome := (st_outcome (sample_state 5))\<lparr>al_balances :=
     [if i = 0 then [2, 5] else [4, 3]]\<rparr>, st_is_final := f\<rparr>"

lemma toy_payment:
  assumes "u256_spec X" "i < 2"
  shows "payment_state dbg32 X (toy_channel i (sample_state 4)) 1 f = Ok (toy_paid i f)"
    "valid_transition dbg32 (ac_state (toy_channel i (sample_state 4))) (toy_paid i f)"
proof -
  have n: "make_next_state dbg32 (sample_state 4) = (Ok (sample_state 5) :: (demo_error, state) res)"
    by (simp add: make_next_state_def u64_add_def dbg32_def sample_state_def)
  have ch: "ac_state (toy_channel i s) = s" "ac_part_idx (toy_channel i s) = i" for s
    by (simp_all add: toy_channel_def)
  have bal: "al_balances (st_outcome (sample_state 4)) = [[3, 4]]" by (simp add: sample_state_def)
  note eq = payment_state_eq [OF assms(1), of dbg32 "toy_channel i (sample_state 4)" "sample_state 5" 3 4 1 f,
      unfolded ch, OF n bal assms(2)]
  show "payment_state dbg32 X (toy_channel i (sample_state 4)) 1 f = Ok (toy_paid i f)"
    using eq by (cases "i = 0") (simp_all add: toy_paid_def Let_def)
  show "valid_transition dbg32 (ac_state (toy_channel i (sample_state 4))) (toy_paid i f)"
    by (simp add: valid_transition_def toy_channel_def toy_paid_def sample_state_def dbg32_def)
qed

theorem crossing_payments_block_witness:
  "\<exists>u1 u2 bus1 bus2.
    channel_update_op dbg32 toy_ext 1 False (Active (toy_channel 0 (sample_state 4)) None, []) =
      (Ok (), (Active (toy_channel 0 (sample_state 4)) (Some u1), bus1)) \<and>
    channel_update_op dbg32 toy_ext 1 False (Active (toy_channel 1 (sample_state 4)) None, []) =
      (Ok (), (Active (toy_channel 1 (sample_state 4)) (Some u2), bus2))"
proof -
  note pay = toy_payment [OF toy_u256_spec, of 0 False] toy_payment [OF toy_u256_spec, of 1 False]
  have wf: "channel_wf toy_ext (toy_channel 0 (sample_state 4))" "channel_wf toy_ext (toy_channel 1 (sample_state 4))"
    by (rule toy_channel_wf, simp)+
  from crossing_payments_block [OF toy_env_ok wf pay(1) pay(3) pay(2) pay(4)] show ?thesis by simp blast
qed

lemma flag_spec: "u256_spec flag_ext" "crypto_spec flag_ext"
proof -
  show "u256_spec flag_ext" by (simp add: u256_spec_def flag_ext_def toy_ext_def)
  have "hash_spec flag_ext"
    using toy_hash_spec by (auto simp: hash_spec_def flag_ext_def flag_hash_def toy_ext_def)
  moreover have "good_signature flag_ext sk h (sk @ 0 # take 31 h @ [0])"
    if "length sk = 32" "length h = 32" for sk h
    using that by (simp add: good_signature_def flag_ext_def toy_ext_def nth_append)
  ultimately show "crypto_spec flag_ext"
    by (auto simp: crypto_spec_def) (simp_all add: flag_ext_def toy_ext_def split: if_splits)
qed

lemma flag_env_ok: "env_ok flag_ext"
  by (simp add: env_ok_def flag_spec)

lemma flag_signer_ok: "signer_ok flag_ext (toy_signer k)"
  by (auto simp: signer_ok_def toy_signer_def flag_ext_def toy_ext_def Address_from_vk_def flag_hash_def toy_hash_def
      intro!: exI [of _ "replicate 32 k"])

lemma flag_channel_wf: "i < 2 \<Longrightarrow> channel_wf flag_ext (toy_channel i (sample_state v))"
  using toy_channel_wf [of i v] flag_signer_ok by (simp add: channel_wf_def channel_ok_def toy_channel_def)

text \<open>With this hash a signature determines the flag of the state it signs.\<close>

lemma State_encoding_flag:
  assumes "length (st_id s) = 32"
  obtains xs ys where "length xs = 160" "abi_encode (State_abi s) = xs @ uint256 (of_bool (st_is_final s)) @ ys"
proof -
  have "abi_dynamic (Allocation_abi al)" for al by (simp add: Allocation_abi_def)
  then show ?thesis
    using assms that [of "uint256 32 @ st_id s @ uint256 (unat (st_version s)) @ uint256 160 @
        uint256 (160 + length (abi_enc (Allocation_abi (st_outcome s))))"]
    by (simp add: abi_encode_eq State_abi_def enc_tuple_def enc_heads_def head_len_def tail_of_def pad32_def upt_rec)
qed

lemma flag_hash_state:
  assumes "length (st_id s) = 32"
  shows "take 31 (flag_hash (abi_encode (State_abi s))) = drop 1 (uint256 (of_bool (st_is_final s)))"
proof -
  obtain xs ys where e: "length xs = 160" "abi_encode (State_abi s) = xs @ uint256 (of_bool (st_is_final s)) @ ys"
    using assms by (rule State_encoding_flag)
  then show ?thesis by (simp add: flag_hash_def)
qed

lemma flag_hash_signed: "length h = 32 \<Longrightarrow> flag_hash (eth_prefix @ h) = h"
  by (simp add: flag_hash_def eth_prefix_def)

lemma flag_sig:
  assumes "sig_valid dbg32 flag_ext p s j sig" "state_wf 1 2 s"
  shows "take 31 (drop 33 sig) = drop 1 (uint256 (of_bool (st_is_final s)))"
proof -
  let ?h = "flag_hash (abi_encode (State_abi s))"
  have "keccak256 flag_ext = flag_hash" by (simp add: flag_ext_def)
  then have h: "to_hash dbg32 flag_ext (State_sval flag_ext s) = Ok ?h" "length ?h = 32"
    "hash_to_eth_signed_msg_hash flag_ext ?h = ?h"
    using State_hash_eq [OF flag_spec(1) assms(2)] flag_spec(2)
    by (auto simp: crypto_spec_def hash_spec_def hash_to_eth_signed_msg_hash_def flag_hash_signed)
  obtain v s' where "sig_from_bytes flag_ext (sig[64 := v]) = Some s'" "sig_recover flag_ext s' ?h \<noteq> None"
    using assms(1) h(1,3) by (auto simp: sig_valid_def recover_signer_def bind_res_Ok_iff)
  then have "take 31 (drop 33 (sig[64 := v])) = take 31 ?h"
    by (auto simp: flag_ext_def toy_ext_def split: if_splits)
  moreover have "take 31 (drop 33 (sig[64 := v])) = take 31 (drop 33 sig)" by (simp add: drop_update_swap)
  moreover have "length (st_id s) = 32" using assms(2) by (simp add: state_wf_def)
  ultimately show ?thesis using flag_hash_state [of s] by simp
qed

lemma last_uint256: "last (drop 1 (uint256 n)) = of_nat (n mod 256)"
proof -
  have "uint256 n = be_bytes 31 (n div 256) @ [of_nat (n mod 256)]"
    using be_bytes.simps(2) [of 31 n] by (simp add: uint256_def)
  moreover have "drop 1 (be_bytes 31 (n div 256)) \<noteq> []" by simp
  ultimately show ?thesis by simp
qed

lemma flag_distinct:
  assumes "state_wf 1 2 s" "state_wf 1 2 t" "st_is_final s \<noteq> st_is_final t"
  shows "\<not> (sig_valid dbg32 flag_ext p s j sig \<and> sig_valid dbg32 flag_ext p t j sig)"
proof
  assume "sig_valid dbg32 flag_ext p s j sig \<and> sig_valid dbg32 flag_ext p t j sig"
  then have "drop 1 (uint256 (of_bool (st_is_final s))) = drop 1 (uint256 (of_bool (st_is_final t)))"
    using flag_sig assms(1,2) by metis
  then have "(of_nat (of_bool (st_is_final s) mod 256) :: u8) = of_nat (of_bool (st_is_final t) mod 256)"
    using last_uint256 by metis
  then show False using assms(3) by (cases "st_is_final s") simp_all
qed

theorem overlapping_payments_diverge_witness:
  "\<exists>u1 u2 bus1 bus2 n.
    channel_update_op dbg32 flag_ext 1 False (Active (toy_channel 0 (sample_state 4)) None, []) =
      (Ok (), (Active (toy_channel 0 (sample_state 4)) (Some u1), bus1)) \<and>
    channel_update_op dbg32 flag_ext 1 True (Active (toy_channel 0 (sample_state 4)) (Some u1), []) =
      (Ok (), (Active (toy_channel 0 (sample_state 4)) (Some u2), bus2)) \<and>
    (delivery dbg32 flag_ext)\<^sup>*\<^sup>* \<lparr>nt_end = (\<lambda>p. if p then Active (toy_channel 0 (sample_state 4)) (Some u2)
        else Active (toy_channel 1 (sample_state 4)) None),
      nt_in = (\<lambda>p. if p then [] else to_peer (bus1 @ bus2)), nt_out = (\<lambda>p. [])\<rparr> n \<and>
    nt_end n True = Active (toy_channel 0 (sample_state 4)) (Some u2) \<and>
    watched (nt_out n True) = [] \<and> watched (nt_out n False) = [toy_paid 0 False]"
proof -
  let ?c = "toy_channel 0 (sample_state 4)" and ?d = "toy_channel 1 (sample_state 4)"
  have m: "mirrored ?c ?d" by (simp add: mirrored_def toy_channel_def)
  have wf: "channel_wf flag_ext ?c" "channel_wf flag_ext ?d" by (rule flag_channel_wf, simp)+
  note pay = toy_payment [OF flag_spec(1) zero_less_numeral, of False] toy_payment [OF flag_spec(1) zero_less_numeral, of True]
  have "state_wf 1 2 (toy_paid 0 f)" for f
    by (simp add: toy_paid_def sample_state_def state_wf_def allocation_wf_def)
  then have no: "\<forall>sig. \<not> (sig_valid dbg32 flag_ext (ac_params ?c) (toy_paid 0 False) (ac_part_idx ?d) sig \<and>
      sig_valid dbg32 flag_ext (ac_params ?c) (toy_paid 0 True) (ac_part_idx ?d) sig)"
    by (intro allI flag_distinct) (simp_all add: toy_paid_def)
  have "st_version (toy_paid 0 False) \<noteq> - 1" by (simp add: toy_paid_def sample_state_def)
  from overlapping_payments_diverge [OF flag_env_ok wf m pay(1) pay(3) pay(2) pay(4) this] no
  show ?thesis unfolding Let_def by blast
qed

end
