(* ===== verification/Same_Key.thy ===== *)
theory Same_Key
  imports Network_Props
begin

text \<open>
  \<open>Signer::new\<close> has one hard-coded key, so any two programs that call it are the same
  participant.  The opening between two such programs: the acceptor's signature looks like the
  proposer's own, so the proposer refuses it, while the acceptor goes ahead.
\<close>

section \<open>One address for both participants\<close>

lemma find_index_first: "find_index 0 (\<lambda>a. a = x) (x # xs) = Some 0"
  by simp

text \<open>The index a signature is filed under is the first one with the signer's address.\<close>

lemma add_signature_same:
  assumes "agreed_wf X c" "pa_participants (ag_params c) = [x, x]" "i < 2"
    "sig_valid b X (ag_params c) (ag_init_state c) i sig"
  shows "add_signature b X \<lparr>lua_channel = st_id (ag_init_state c), lua_version = 0, lua_sig = sig\<rparr> c =
    (case ag_signatures c ! 0 of
       Some _ \<Rightarrow> (Err AS_AlreadySigned, c)
     | None \<Rightarrow> (Ok (), c\<lparr>ag_signatures := (ag_signatures c)[0 := Some sig]\<rparr>))"
proof -
  have "length (ag_signatures c) = 2" using assms(1) by (simp add: agreed_wf_def agreed_ok_def)
  moreover have "[x, x] ! i = x" using assms(3) by (auto simp: less_2_cases_iff)
  ultimately show ?thesis
    using assms(2,4) by (auto simp: add_signature_def sig_valid_def index_def find_index_first split: option.split)
qed

section \<open>The opening\<close>

text \<open>
  C34: two programs with the signer of \<open>Signer::new\<close> cannot open a channel with each other,
  though one of them believes so.  Both sign; the proposer answers the acceptor's signature with
  \<open>AlreadySigned\<close> and cannot build, whereas the acceptor takes the proposer's, builds its channel
  and tells its watcher and its funder to start: it will fund a channel the other never opens.
\<close>

theorem same_key_opening:
  assumes env: "env_ok X" and p: "proposal_wf p" and n: "length n = 32"
    and s: "Signer_new X r0 = (Ok s0 :: ('e, signer) res)" "Signer_new X r1 = (Ok s1 :: ('f, signer) res)"
    and own: "lp_participant p = sg_addr s0"
  shows "let a = acc_of p n s1 in \<exists>sig0 sig1 c0 c1 c1'.
    sign b X (agreed_side X p a s0 0 rc0, []) = (Ok (), (c0,
      [ToParticipant (lp_peers p ! 0) (lp_peers p ! 1) (ChannelUpdateAccepted (opening_msg X p a sig0))])) \<and>
    sign b X (agreed_side X p a s1 1 rc1, []) = (Ok (), (c1,
      [ToParticipant (lp_peers p ! 1) (lp_peers p ! 0) (ChannelUpdateAccepted (opening_msg X p a sig1))])) \<and>
    process_participant_msg b X (ChannelUpdateAccepted (opening_msg X p a sig1)) (AgreedUpon c0, []) =
      (Err (DE_AddSignature AS_AlreadySigned), (AgreedUpon c0, [])) \<and>
    build_signed b c0 [] = (Err (c0, BE_MissingSignatureResponse 1), []) \<and>
    process_participant_msg b X (ChannelUpdateAccepted (opening_msg X p a sig0)) (AgreedUpon c1, []) =
      (Ok (), (Signed (SignedChannel (opened_channel c1')) False False, opening_requests c1'))"
proof -
  let ?a = "acc_of p n s1"
  have same: "s1 = s0" using s by (rule Signer_new_same)
  have signer: "signer_ok X s0" using s(1) by (rule Signer_new_signer_ok)
  have acc: "proposal_acc_wf ?a" using env proposal_wf_ok [OF p] signer n unfolding same by (rule acc_of_wf)
  have wf: "agreed_wf X (agreed_side X p ?a s0 i r)" if "i < 2" for i r
    unfolding agreed_side_def using own that same
    by (intro opened_agreed_wf [OF env p acc signer that]) (auto simp: acc_of_def less_2_cases_iff)
  have parts: "pa_participants (opened_params X p ?a) = [sg_addr s0, sg_addr s0]"
    using own same by (simp add: opened_params_def acc_of_def)
  obtain sig0 where g0: "sig_valid b X (opened_params X p ?a) (opened_state X p ?a) 0 sig0"
    "\<And>bus. sign b X (agreed_side X p ?a s0 0 rc0, bus) =
      (Ok (), ((agreed_side X p ?a s0 0 rc0)\<lparr>ag_signatures := [None, None][0 := Some sig0]\<rparr>,
        bus @ [ToParticipant (lp_peers p ! 0) (lp_peers p ! (1 - 0)) (ChannelUpdateAccepted (opening_msg X p ?a sig0))]))"
    by (rule sign_side [OF env wf [of 0 rc0], where b = b]) (simp, simp, rule that)
  obtain sig1 where g1: "sig_valid b X (opened_params X p ?a) (opened_state X p ?a) 1 sig1"
    "\<And>bus. sign b X (agreed_side X p ?a s0 1 rc1, bus) =
      (Ok (), ((agreed_side X p ?a s0 1 rc1)\<lparr>ag_signatures := [None, None][1 := Some sig1]\<rparr>,
        bus @ [ToParticipant (lp_peers p ! 1) (lp_peers p ! (1 - 1)) (ChannelUpdateAccepted (opening_msg X p ?a sig1))]))"
    by (rule sign_side [OF env wf [of 1 rc1], where b = b]) (simp, simp, rule that)
  let ?c0 = "(agreed_side X p ?a s0 0 rc0)\<lparr>ag_signatures := [Some sig0, None]\<rparr>"
    and ?c1 = "(agreed_side X p ?a s0 1 rc1)\<lparr>ag_signatures := [None, Some sig1]\<rparr>"
    and ?d1 = "(agreed_side X p ?a s0 1 rc1)\<lparr>ag_signatures := [Some sig0, Some sig1]\<rparr>"
  have wfs: "agreed_wf X ?c0" "agreed_wf X ?c1" "agreed_wf X ?d1"
    using wf [of 0 rc0] wf [of 1 rc1] by (simp_all add: agreed_wf_def agreed_ok_def)
  have add0: "add_signature b X (opening_msg X p ?a sig1) ?c0 = (Err AS_AlreadySigned, ?c0)"
    using add_signature_same [OF wfs(1), of "sg_addr s0" 1 b sig1] parts g1(1) by (simp add: opening_msg_def)
  have add1: "add_signature b X (opening_msg X p ?a sig0) ?c1 = (Ok (), ?d1)"
    using add_signature_same [OF wfs(2), of "sg_addr s0" 0 b sig0] parts g0(1) by (simp add: opening_msg_def)
  note b0 = build_signed_missing [of ?c0 b "[]"] and b1 = build_signed_complete [OF agreed_wf_ok [OF wfs(3)], of b "[]"]
  show ?thesis unfolding Let_def same
    by (intro exI [of _ sig0] exI [of _ sig1] exI [of _ ?c0] exI [of _ ?c1] exI [of _ ?d1] conjI)
      (use g0(2) [of "[]"] g1(2) [of "[]"] add0 add1 b0 b1 same in
        \<open>simp_all add: process_participant_msg_def progress_def signature_arm_def\<close>)
qed

theorem same_key_opening_witness:
  "\<exists>s c m. Signer_new toy_ext (0 :: nat) = (Ok s :: (unit, signer) res) \<and>
    process_participant_msg dbg32 toy_ext (ChannelUpdateAccepted m) (AgreedUpon c, []) =
      (Err (DE_AddSignature AS_AlreadySigned), (AgreedUpon c, []))"
proof -
  have key: "sk_from_bytes toy_ext private_key_bytes \<noteq> None" by (simp add: toy_ext_def private_key_bytes_def)
  obtain s where s: "Signer_new toy_ext (0 :: nat) = (Ok s :: (unit, signer) res)" "signer_ok toy_ext s"
    by (rule Signer_new_ok [OF toy_crypto_spec key])
  have "length (sg_addr s) = 20"
    using s(2) toy_crypto_spec Address_from_vk_length by (auto simp: signer_ok_def crypto_spec_def)
  then have p: "proposal_wf ((toy_proposal 60)\<lparr>lp_participant := sg_addr s\<rparr>)"
    using toy_proposal_wf [of 60] by (simp add: proposal_wf_def proposal_ok_def)
  have own: "lp_participant ((toy_proposal 60)\<lparr>lp_participant := sg_addr s\<rparr>) = sg_addr s" by simp
  have n: "length (replicate 32 (3 :: u8)) = 32" by simp
  from same_key_opening [OF toy_env_ok p n s(1) s(1) own, of dbg32 "replicate 20 1" "replicate 20 1"] s(1)
  show ?thesis unfolding Let_def by blast
qed

end
