(* ===== verification/Abi_Tests.thy ===== *)
theory Abi_Tests
  imports Payment
begin

text \<open>
  The test vectors of the serializer: values of the repository's unit tests with the slots
  recorded from the Solidity compiler (\<open>abiencode/tests\<close>, \<open>fixed_size_payment.rs\<close>).  They check the
  definition of the ABI encoding against the compiler, and the serializer against both.
\<close>

section \<open>The comparisons\<close>

definition serialize_and_compare :: "build \<Rightarrow> sval \<Rightarrow> bytes list \<Rightarrow> bool" where
  "serialize_and_compare b v expected \<longleftrightarrow> to_writer b v (Slots []) = (Ok (), Slots expected)"

definition serialize_and_compare_fnargs :: "build \<Rightarrow> sval \<Rightarrow> bytes list \<Rightarrow> bool" where
  "serialize_and_compare_fnargs b v expected \<longleftrightarrow> to_fnargs_writer b v (Slots []) = (Ok (), Slots expected)"

lemma compare_abi:
  assumes "abi_of v = Some a" "lens_fit b v" "length (abi_enc a) < 2 ^ 32"
  shows "serialize_and_compare b v e \<longleftrightarrow> slots_of (abi_encode a) = e"
    "serialize_and_compare_fnargs b v e \<longleftrightarrow> slots_of (abi_enc a) = e"
proof -
  have "length (abi_enc a) < usize_limit b" using assms(3) usize_limit_ge [of b] by simp
  note w = to_writer_internal_abi [OF assms(1,2) this, of _ "[]"]
  show "serialize_and_compare b v e \<longleftrightarrow> slots_of (abi_encode a) = e"
    "serialize_and_compare_fnargs b v e \<longleftrightarrow> slots_of (abi_enc a) = e"
    by (simp_all add: serialize_and_compare_def serialize_and_compare_fnargs_def to_writer_def to_fnargs_writer_def w)
qed

text \<open>Every slot as a number.\<close>

lemma slots_of_uint256_append [simp]: "slots_of (uint256 n @ bs) = uint256 n # slots_of bs"
  by (simp add: slots_of_append)

lemma pad32_number:
  assumes "bs \<noteq> []" "length bs \<le> 32"
  shows "pad32 bs = uint256 (be_val bs * 256 ^ (32 - length bs))"
proof -
  have "(32 - length bs mod 32) mod 32 = 32 - length bs"
    using assms by (cases "length bs = 32") simp_all
  then have p: "pad32 bs = bs @ replicate (32 - length bs) 0" by (simp add: pad32_def)
  have "be_val (bs @ replicate (32 - length bs) 0) = be_val bs * 256 ^ (32 - length bs)"
    by (simp add: be_val_append be_val_replicate_0 [of _ "[]", simplified])
  then show ?thesis
    using be_bytes_be_val [of "pad32 bs"] assms(2) p by (simp add: uint256_def)
qed

lemmas encode_simps = abi_encode_eq enc_tuple_def enc_heads_def head_len_def tail_of_def upt_rec pad32_number
  be_val_Cons pad32_def [of "[]"] numeral_2_eq_2 [symmetric]

section \<open>The examples of the Solidity documentation\<close>

definition foo_baz :: sval where
  "foo_baz = STupleStruct ''Baz'' [SU32 69, SBool True]"

definition foo_bar :: sval where
  "foo_bar = SNewtypeStruct ''Bar'' (STuple [bytesN_sval [0x61, 0x62, 0x63], bytesN_sval [0x64, 0x65, 0x66]])"

definition foo_sam :: sval where
  "foo_sam = STupleStruct ''Sam'' [as_bytes_sval [0x64, 0x61, 0x76, 0x65], SBool True,
     as_dyn_array_sval [SU64 1, SU64 2, SU64 3]]"

lemma foo_baz_compare: "serialize_and_compare b foo_baz (map uint256 [0x45, 0x1])"
proof -
  have "abi_of foo_baz = Some (ATuple [AUint 69, AUint 1])" "lens_fit b foo_baz" by (simp_all add: foo_baz_def)
  from compare_abi [OF this] show ?thesis by (simp add: encode_simps)
qed

lemma foo_bar_compare:
  "serialize_and_compare_fnargs b foo_bar (map uint256
    [0x6162630000000000000000000000000000000000000000000000000000000000,
     0x6465660000000000000000000000000000000000000000000000000000000000])"
proof -
  have "abi_of foo_bar = Some (ATuple [ATuple [AStatic [0x61, 0x62, 0x63], AStatic [0x64, 0x65, 0x66]]])"
    "lens_fit b foo_bar" by (simp_all add: foo_bar_def as_bytes_of_def bytesN_sval_def)
  from compare_abi [OF this] show ?thesis by (simp add: encode_simps)
qed

lemma foo_sam_compare:
  "serialize_and_compare_fnargs b foo_sam (map uint256
    [0x60, 0x1, 0xa0, 0x4, 0x6461766500000000000000000000000000000000000000000000000000000000,
     0x3, 0x1, 0x2, 0x3])"
proof -
  have "abi_of foo_sam = Some (ATuple [ABytes [0x64, 0x61, 0x76, 0x65], AUint 1, AArray [AUint 1, AUint 2, AUint 3]])"
    "lens_fit b foo_sam" using usize_limit_ge [of b] by (simp_all add: foo_sam_def as_dyn_array_sval_def)
  from compare_abi [OF this] show ?thesis by (simp add: encode_simps)
qed

definition dynamictypes_f :: "ext \<Rightarrow> sval" where
  "dynamictypes_f X = STupleStruct ''Data'' [U256_sval X 0x123, SSeq (Some 2) [SU32 0x456, SU32 0x789],
     bytesN_sval [0x31, 0x32, 0x33, 0x34, 0x35, 0x36, 0x37, 0x38, 0x39, 0x30],
     as_bytes_sval [0x48, 0x65, 0x6c, 0x6c, 0x6f, 0x2c, 0x20, 0x77, 0x6f, 0x72, 0x6c, 0x64, 0x21]]"

lemma dynamictypes_f_compare:
  assumes "u256_spec X"
  shows "serialize_and_compare_fnargs b (dynamictypes_f X) (map uint256
    [0x123, 0x80, 0x3132333435363738393000000000000000000000000000000000000000000000, 0xe0,
     0x2, 0x456, 0x789, 0xd,
     0x48656c6c6f2c20776f726c642100000000000000000000000000000000000000])"
proof -
  have "abi_of (dynamictypes_f X) = Some (ATuple [AStatic (uint256 0x123), AArray [AUint 0x456, AUint 0x789],
      AStatic [0x31, 0x32, 0x33, 0x34, 0x35, 0x36, 0x37, 0x38, 0x39, 0x30], ABytes [0x48, 0x65, 0x6c, 0x6c, 0x6f, 0x2c, 0x20, 0x77, 0x6f, 0x72, 0x6c, 0x64, 0x21]])"
    "lens_fit b (dynamictypes_f X)"
    using usize_limit_ge [of b] assms by (simp_all add: dynamictypes_f_def )
  from compare_abi [OF this] show ?thesis by (simp add: encode_simps)
qed

definition dynamictypes_g :: "ext \<Rightarrow> sval" where
  "dynamictypes_g X = STupleStruct ''Data''
     [SSeq (Some 2) [SSeq (Some 2) [U256_sval X 1, U256_sval X 2], SSeq (Some 1) [U256_sval X 3]],
      SSeq (Some 3) [SStr [0x6f, 0x6e, 0x65], SStr [0x74, 0x77, 0x6f], SStr [0x74, 0x68, 0x72, 0x65, 0x65]]]"

lemma dynamictypes_g_compare:
  assumes "u256_spec X"
  shows "serialize_and_compare_fnargs b (dynamictypes_g X) (map uint256
    [0x40, 0x140, 0x2, 0x40, 0xa0, 0x2, 0x1, 0x2, 0x1, 0x3, 0x3, 0x60, 0xa0, 0xe0, 0x3,
     0x6f6e650000000000000000000000000000000000000000000000000000000000, 0x3,
     0x74776f0000000000000000000000000000000000000000000000000000000000, 0x5,
     0x7468726565000000000000000000000000000000000000000000000000000000])"
proof -
  have "abi_of (dynamictypes_g X) = Some (ATuple [AArray [AArray [AStatic (uint256 1), AStatic (uint256 2)], AArray [AStatic (uint256 3)]],
      AArray [ABytes [0x6f, 0x6e, 0x65], ABytes [0x74, 0x77, 0x6f], ABytes [0x74, 0x68, 0x72, 0x65, 0x65]]])"
    "lens_fit b (dynamictypes_g X)"
    using usize_limit_ge [of b] assms by (simp_all add: dynamictypes_g_def )
  from compare_abi [OF this] show ?thesis by (simp add: encode_simps)
qed

definition staticstruct_in_fixed :: "sval" where
  "staticstruct_in_fixed = SStruct ''StaticstructInFixedarray''
     [(''a'', STuple [SStruct ''Inner'' [(''v'', SU64 0xaa)], SStruct ''Inner'' [(''v'', SU64 0xbb)]]),
      (''b'', as_bytes_sval [0x11, 0x22, 0x33, 0x44, 0x55])]"

lemma staticstruct_in_fixed_compare:
  "serialize_and_compare b staticstruct_in_fixed (map uint256
    [0x20, 0xaa, 0xbb, 0x60, 0x5,
     0x1122334455000000000000000000000000000000000000000000000000000000])"
proof -
  have "abi_of staticstruct_in_fixed = Some (ATuple [ATuple [ATuple [AUint 0xaa], ATuple [AUint 0xbb]], ABytes [0x11, 0x22, 0x33, 0x44, 0x55]])"
    "lens_fit b staticstruct_in_fixed"
    using usize_limit_ge [of b] by (simp_all add: staticstruct_in_fixed_def as_bytes_of_def)
  from compare_abi [OF this] show ?thesis by (simp add: encode_simps)
qed

definition dynstruct_in_fixed :: "sval" where
  "dynstruct_in_fixed = SStruct ''DynstructInFixedarray''
     [(''a'', STuple [SStruct ''BytesContainerViaNormalAttr'' [(''value'', as_bytes_sval [0xa1, 0xa2, 0xa3, 0xa4])],
        SStruct ''BytesContainerViaNormalAttr'' [(''value'', as_bytes_sval [0xb1, 0xb2, 0xb3, 0xb4])]]),
      (''b'', as_bytes_sval [0x11, 0x22, 0x33, 0x44, 0x55])]"

lemma dynstruct_in_fixed_compare:
  "serialize_and_compare b dynstruct_in_fixed (map uint256
    [0x20, 0x40, 0x140, 0x40, 0xa0, 0x20, 0x4,
     0xa1a2a3a400000000000000000000000000000000000000000000000000000000, 0x20, 0x4,
     0xb1b2b3b400000000000000000000000000000000000000000000000000000000, 0x5,
     0x1122334455000000000000000000000000000000000000000000000000000000])"
proof -
  have "abi_of dynstruct_in_fixed = Some (ATuple [ATuple [ATuple [ABytes [0xa1, 0xa2, 0xa3, 0xa4]], ATuple [ABytes [0xb1, 0xb2, 0xb3, 0xb4]]],
      ABytes [0x11, 0x22, 0x33, 0x44, 0x55]])"
    "lens_fit b dynstruct_in_fixed"
    using usize_limit_ge [of b] by (simp_all add: dynstruct_in_fixed_def as_bytes_of_def)
  from compare_abi [OF this] show ?thesis by (simp add: encode_simps)
qed

section \<open>The state of the contract\<close>

text \<open>The state of the tests in \<open>fixed_size_payment.rs\<close> and the slots recorded from the contract.\<close>

definition build_test_state :: state where
  "build_test_state = \<lparr>st_id = [0x31, 0x31, 0x31, 0x31] @ replicate 28 0, st_version = 0x2222,
     st_outcome = \<lparr>al_assets = [\<lparr>as_holder = [0x5b, 0x38, 0xda, 0x6a, 0x70, 0x1c, 0x56, 0x85, 0x45, 0xdc,
         0xfc, 0xb0, 0x3f, 0xcb, 0x87, 0x5f, 0x56, 0xbe, 0xdd, 0xc4]\<rparr>],
       al_balances = [[0x5555, 0x6666]], al_locked = ()\<rparr>,
     st_app_data = (), st_is_final = True\<rparr>"

definition state_1a2p_encode :: "bytes list" where
  "state_1a2p_encode = map uint256
    [0x20, 0x3131313100000000000000000000000000000000000000000000000000000000, 0x2222, 0xa0,
     0x220, 0x1, 0x60, 0xc0, 0x160, 0x1, 0x3333, 0x5b38da6a701c568545dcfcb03fcb875f56beddc4,
     0x1, 0x20, 0x2, 0x5555, 0x6666, 0x0, 0x0]"

text \<open>
  The state as the contract has it: an asset is a pair of a chain identifier and a holder.  The
  field \<open>chain_id\<close> of \<open>Asset\<close> is commented out in the library.
\<close>

definition contract_asset_abi :: "nat \<Rightarrow> asset \<Rightarrow> abi" where
  "contract_asset_abi chain a = ATuple [AUint chain, AStatic (replicate 12 0 @ as_holder a)]"

definition contract_state_abi :: "nat \<Rightarrow> state \<Rightarrow> abi" where
  "contract_state_abi chain s = ATuple
     [AStatic (st_id s), AUint (unat (st_version s)),
      ATuple [AArray (map (contract_asset_abi chain) (al_assets (st_outcome s))),
        Balances_abi (al_balances (st_outcome s)), AArray []],
      ABytes [], AUint (of_bool (st_is_final s))]"

lemma build_test_state_wf: "state_wf 1 2 build_test_state"
  by (simp add: build_test_state_def state_wf_def allocation_wf_def)

lemma holder_slot: "length h = 20 \<Longrightarrow> pad32 (replicate 12 0 @ h) = uint256 (be_val h)"
  using abi_enc_Address [of h] by simp

lemma contract_state_recorded: "slots_of (abi_encode (contract_state_abi 0x3333 build_test_state)) = state_1a2p_encode"
  unfolding contract_state_abi_def contract_asset_abi_def build_test_state_def state_1a2p_encode_def Balances_abi_def
  by (simp add: abi_encode_eq enc_tuple_def enc_heads_def head_len_def tail_of_def upt_rec holder_slot
      be_val_Cons pad32_def [of "[]"] numeral_2_eq_2 [symmetric] pad32_number
      be_val_replicate_0 [of _ "[]", simplified])

text \<open>The two encodings have different lengths.\<close>

lemma State_abi_length:
  assumes "state_wf 1 2 s"
  shows "length (abi_encode (State_abi s)) = 576" "length (abi_encode (contract_state_abi chain s)) = 608"
proof -
  obtain h x y where "st_outcome s = \<lparr>al_assets = [\<lparr>as_holder = h\<rparr>], al_balances = [[x, y]], al_locked = ()\<rparr>"
    "length h = 20" "length (st_id s) = 32"
    using assms unfolding state_wf_def by (metis wf_1_2_cases)
  then show "length (abi_encode (State_abi s)) = 576" "length (abi_encode (contract_state_abi chain s)) = 608"
    by (simp_all add: State_abi_def contract_state_abi_def contract_asset_abi_def Asset_abi_def Allocation_abi_def
        Balances_abi_def abi_encode_eq enc_tuple_def enc_heads_def head_len_def tail_of_def upt_rec holder_slot pad32_def)
qed

text \<open>The hash that the test \<open>state_1a2p_hash\<close> expects, and the test.\<close>

definition state_1a2p_hash :: "build \<Rightarrow> ext \<Rightarrow> bool" where
  "state_1a2p_hash b X \<longleftrightarrow> to_hash b X (State_sval X build_test_state)
     = Ok (uint256 0xe7518ad2414d38370ea5f21f1351eabce47480ab191c984ac12a3aedf70eda3d)"

text \<open>
  If the recorded hash is that of the recorded slots, as the contract computed it, then the test passes
  only where Keccak-256 has a collision.
\<close>

lemma state_1a2p_hash_collides:
  assumes "u256_spec X"
    "keccak256 X (concat state_1a2p_encode) = uint256 0xe7518ad2414d38370ea5f21f1351eabce47480ab191c984ac12a3aedf70eda3d"
    "state_1a2p_hash b X"
  shows "\<exists>x y. x \<noteq> y \<and> keccak256 X x = keccak256 X y"
proof -
  have "keccak256 X (abi_encode (State_abi build_test_state)) = keccak256 X (concat state_1a2p_encode)"
    using assms(2,3) [unfolded state_1a2p_hash_def] State_hash_eq [OF assms(1) build_test_state_wf, of b]
    by (simp only: res.inject)
  moreover have "concat state_1a2p_encode = abi_encode (contract_state_abi 0x3333 build_test_state)"
    by (simp only: contract_state_recorded [symmetric] concat_slots_of)
  ultimately show ?thesis
    using State_abi_length(1) [OF build_test_state_wf] State_abi_length(2) [OF build_test_state_wf, of "0x3333"]
    by (intro exI [of _ "abi_encode (State_abi build_test_state)"]
        exI [of _ "abi_encode (contract_state_abi 0x3333 build_test_state)"] conjI notI) simp_all
qed

text \<open>The test \<open>state_1a2p_sign\<close>: the address and the signature of a signer made from a fixed seed.\<close>

definition state_1a2p_sign_address :: address where
  "state_1a2p_sign_address =
     [0xa9, 0x57, 0x22, 0x20, 0x34, 0x8b, 0x10, 0x80, 0x26, 0x4e, 0x81, 0xc0, 0x77, 0x9f, 0x77, 0xc1, 0x44, 0x79, 0x0c, 0xd6]"

definition state_1a2p_sign_sig :: signature where
  "state_1a2p_sign_sig =
     [0xe2, 0x74, 0xea, 0x53, 0xfa, 0x64, 0xde, 0x73, 0x38, 0xbf, 0xfb, 0xf2, 0x64, 0xdc, 0x1f, 0x58,
      0xa8, 0x1e, 0x36, 0x60, 0xe4, 0x26, 0xd3, 0x28, 0xa2, 0x83, 0x89, 0x44, 0xcb, 0xcc, 0x04, 0x02,
      0x05, 0x35, 0x3a, 0x79, 0xda, 0x2b, 0xf1, 0xc6, 0x76, 0x50, 0xc1, 0x4e, 0x32, 0xe9, 0x44, 0xae,
      0x66, 0x44, 0xc1, 0xa7, 0xf8, 0xf0, 0x61, 0x46, 0xf7, 0xb6, 0xd1, 0x52, 0xc8, 0x7b, 0xdf, 0xb1,
      0x1c]"

definition state_1a2p_sign :: "build \<Rightarrow> ext \<Rightarrow> 'r \<Rightarrow> bool" where
  "state_1a2p_sign b X rng \<longleftrightarrow>
     (case (bind_res (unwrap_res (to_hash b X (State_sval X build_test_state))) (\<lambda>hash.
            bind_res (Signer_new X rng) (\<lambda>signer.
            bind_res (sign_eth b X signer hash) (\<lambda>sig. Ok (Signer_address signer, sig)))) :: (unit, address \<times> signature) res) of
        Ok (addr, sig) \<Rightarrow> addr = state_1a2p_sign_address \<and> sig = state_1a2p_sign_sig
      | _ \<Rightarrow> False)"

text \<open>
  The comment calls the values constant because the generator is seeded; they do not depend on the
  seed at all.  Where the test passes, the recorded signature is one of the recorded address on the
  encoding without chain identifier, not on the contract's.
\<close>

lemma state_1a2p_sign_seedless: "state_1a2p_sign b X rng \<longleftrightarrow> state_1a2p_sign b X rng'"
  by (simp add: state_1a2p_sign_def Signer_new_def)

lemma state_1a2p_sign_recovers:
  assumes "u256_spec X" "crypto_spec X" "state_1a2p_sign b X rng"
  shows "recover_signer b X (keccak256 X (abi_encode (State_abi build_test_state))) state_1a2p_sign_sig =
    Ok state_1a2p_sign_address"
proof -
  let ?h = "keccak256 X (abi_encode (State_abi build_test_state))"
  have h: "to_hash b X (State_sval X build_test_state) = Ok ?h"
    using assms(1) build_test_state_wf by (rule State_hash_eq)
  obtain s sig where s: "Signer_new X rng = (Ok s :: (unit, signer) res)" "sign_eth b X s ?h = (Ok sig :: (unit, signature) res)"
    and test: "Signer_address s = state_1a2p_sign_address" "sig = state_1a2p_sign_sig"
    using assms(3) by (auto simp: state_1a2p_sign_def h bind_res_Ok_iff split: res.splits)
  obtain sig' where "sign_eth b X s ?h = (Ok sig' :: (unit, signature) res)" "recover_signer b X ?h sig' = Ok (sg_addr s)"
    using assms(2) Signer_new_signer_ok [OF s(1)] by (auto elim: sign_recover)
  then show ?thesis using s(2) test by (simp add: Signer_address_def)
qed

text \<open>
  C36: the library does not encode states the way the contract of its own tests does.  The slots
  recorded from the contract are the ABI encoding of a state whose asset is a pair of chain
  identifier and holder; the serializer writes the holder alone, so the test \<open>state_1a2p_encode\<close>
  fails, and for any two states and any chain identifier the hashed encodings differ: what the
  library signs is never what that contract verifies.
\<close>

theorem contract_encoding_mismatch:
  assumes "u256_spec X"
  shows "slots_of (abi_encode (contract_state_abi 0x3333 build_test_state)) = state_1a2p_encode \<and>
    \<not> serialize_and_compare b (State_sval X build_test_state) state_1a2p_encode \<and>
    (\<forall>s t chain. state_wf 1 2 s \<and> state_wf 1 2 t \<longrightarrow>
       to_hash b X (State_sval X s) = Ok (keccak256 X (abi_encode (State_abi s))) \<and>
       abi_encode (State_abi s) \<noteq> abi_encode (contract_state_abi chain t))"
proof -
  have ne: "abi_encode (State_abi s) \<noteq> abi_encode (contract_state_abi chain t)"
    if "state_wf 1 2 s" "state_wf 1 2 t" for s t chain
    using State_abi_length(1) [OF that(1)] State_abi_length(2) [OF that(2), of chain] by auto
  have "length (abi_enc (State_abi build_test_state)) < 2 ^ 32"
    using State_abi_length(1) [OF build_test_state_wf] by (simp add: abi_encode_eq split: if_splits)
  then have "serialize_and_compare b (State_sval X build_test_state) state_1a2p_encode \<longleftrightarrow>
      slots_of (abi_encode (State_abi build_test_state)) = state_1a2p_encode"
    using compare_abi(1) [OF abi_of_State [OF assms] State_lens_fit [OF build_test_state_wf]] by blast
  moreover have "slots_of (abi_encode (State_abi build_test_state)) \<noteq> state_1a2p_encode"
    using ne [OF build_test_state_wf build_test_state_wf] contract_state_recorded by (metis concat_slots_of)
  ultimately show ?thesis using contract_state_recorded ne State_hash_eq [OF assms] by blast
qed

theorem contract_encoding_mismatch_witness:
  "\<not> serialize_and_compare \<lparr>profile = Debug, ptr_width = W32\<rparr> (State_sval toy_ext build_test_state) state_1a2p_encode"
  using contract_encoding_mismatch [OF toy_u256_spec] by blast

end
