(* ===== verification/Example_Script.thy ===== *)
theory Example_Script
  imports Example_Props Same_Key
begin

text \<open>
  The module \<open>net\<close> of \<open>examples/go-integration.rs\<close> for the feature \<open>no-go-comm\<close>: a bus that plays the other
  participant and the services from a script, in the order of a counter.  One of its answers has a
  type that \<open>perun-remote.proto\<close> does not define; that message is a parameter here.
\<close>

section \<open>The scripted module\<close>

record 'r script_bus =
  sc_participant :: nat
  sc_send_counter :: nat
  sc_rng :: 'r
  sc_signer :: signer
  sc_proposal :: "ledger_channel_proposal option"
  sc_state :: "state option"

definition script_read_config :: ex_config where
  "script_read_config = \<lparr>xc_eth_holder = bytesN_default 20, xc_withdraw_receiver = bytesN_default 20\<rparr>"

text \<open>\<open>rng\<close> is the generator that \<open>seed_from_u64(666)\<close> makes.\<close>

definition script_new :: "'r ex_env \<Rightarrow> 'r \<Rightarrow> ('e, 'r script_bus) res" where
  "script_new E rng = bind_res (Signer_new (xe_ext E) rng) (\<lambda>signer.
     Ok \<lparr>sc_participant = 0, sc_send_counter = 0, sc_rng = rng, sc_signer = signer, sc_proposal = None, sc_state = None\<rparr>)"

text \<open>The second answer accepts the proposal, and keeps the initial state it computes from it.\<close>

definition script_params :: "ledger_channel_proposal \<Rightarrow> u256 \<Rightarrow> address \<Rightarrow> params" where
  "script_params prop nonce addr =
     \<lparr>pa_challenge_duration = lp_challenge_duration prop, pa_nonce = nonce,
      pa_participants = [lp_participant prop, addr], pa_app = bytesN_default 20,
      pa_ledger_channel = True, pa_virtual_channel = False\<rparr>"

definition script_accept :: "'r ex_env \<Rightarrow> ('r script_bus, 'e, w_envelope_msg) cmd" where
  "script_accept E w = (let X = xe_ext E; (nonce_share, rng) = xe_gen32 E (sc_rng w); addr = Signer_address (sc_signer w) in
     bindS (lift_res (unwrap (sc_proposal w))) (\<lambda>prop.
     bindS (lift_res (unwrap (u256_from_big_endian X (sha3_256 X (lp_nonce_share prop @ nonce_share))))) (\<lambda>nonce.
     bindS (lift_res (unwrap_res (State_new (xe_build E) X (script_params prop nonce addr) (lp_init_bals prop)))) (\<lambda>st.
     bindS (\<lambda>w. (Ok (), w\<lparr>sc_state := Some st\<rparr>)) (\<lambda>_.
     ret (WLedgerChannelProposalAccMsg (LedgerChannelProposalAcc_into
       \<lparr>la_proposal_id = lp_proposal_id prop, la_nonce_share = nonce_share, la_participant = addr\<rparr>)))))) (w\<lparr>sc_rng := rng\<rparr>))"

text \<open>The third and the sixth answer sign the state last seen, under a fixed version number.\<close>

definition script_sign :: "'r ex_env \<Rightarrow> u64 \<Rightarrow> ('r script_bus, 'e, w_envelope_msg) cmd" where
  "script_sign E version w = (let b = xe_build E; X = xe_ext E in
     bindS (lift_res (unwrap (sc_state w))) (\<lambda>st.
     bindS (lift_res (unwrap_res (to_hash b X (State_sval X st)))) (\<lambda>hash.
     bindS (lift_res (sign_eth b X (sc_signer w) hash)) (\<lambda>sig.
     ret (WChannelUpdateAccMsg (LedgerChannelUpdateAccepted_into
       \<lparr>lua_channel = st_id st, lua_version = version, lua_sig = sig\<rparr>))))) w)"

definition count_up :: "'r ex_env \<Rightarrow> ('r script_bus, 'e, unit) cmd" where
  "count_up E w = bindS (lift_res (usize_add (xe_build E) (sc_send_counter w) 1))
     (\<lambda>n w. (Ok (), w\<lparr>sc_send_counter := n\<rparr>)) w"

text \<open>The answers by position; every other position of the counter panics, with one message or another.\<close>

definition script_answer :: "'r ex_env \<Rightarrow> nat \<Rightarrow> ('r script_bus, 'e, w_envelope_msg) cmd" where
  "script_answer E n =
     (if n = 0 then ret WAuthResponseMsg
      else if n = 1 then script_accept E
      else if n = 2 then script_sign E 0
      else if n = 5 then script_sign E 1
      else crash)"

definition script_recv_envelope :: "'r ex_env \<Rightarrow> ('r script_bus, 'e, envelope) cmd" where
  "script_recv_envelope E w =
     bindS (script_answer E (sc_send_counter w)) (\<lambda>wiremsg.
     bindS (count_up E) (\<lambda>_.
     ret \<lparr>env_sender = get_peers ! 1, env_recipient = get_peers ! 0, env_msg = Some (Sendable wiremsg)\<rparr>)) w"

definition script_recv_message ::
    "'r ex_env \<Rightarrow> (bytes \<Rightarrow> bool \<Rightarrow> service_msg) \<Rightarrow> ('r script_bus, 'e, service_msg option) cmd" where
  "script_recv_message E FundingResponse w =
     bindS (if sc_send_counter w = 3 then
              bindS (lift_res (unwrap (sc_state w))) (\<lambda>st. ret (WatchResponse (st_id st) 0 True))
       else if sc_send_counter w = 4 then
              bindS (lift_res (unwrap (sc_state w))) (\<lambda>st. ret (FundingResponse (st_id st) True))
       else if sc_send_counter w = 6 then
              bindS (lift_res (unwrap (sc_state w))) (\<lambda>st. ret (ForceCloseResponse (st_id st) True))
       else crash) (\<lambda>wiremsg.
     bindS (count_up E) (\<lambda>_. ret (Some wiremsg))) w"

text \<open>What is sent to the participant is decoded, to see the proposal and the states.\<close>

definition script_send_to_participant ::
    "'r ex_env \<Rightarrow> bytes \<Rightarrow> bytes \<Rightarrow> bytes \<Rightarrow> ('r script_bus, 'e, unit) cmd" where
  "script_send_to_participant E sender recipient msg =
     (if length msg < 2 then crash
      else case xe_decode_envelope E (drop 2 msg) of
        Inl e \<Rightarrow> crash
      | Inr env \<Rightarrow> (case env_msg env of
          None \<Rightarrow> crash
        | Some (Sendable (WLedgerChannelProposalMsg m)) \<Rightarrow>
            bindS (lift_res (unwrap_res (LedgerChannelProposal_try_from (xe_ext E) m)))
              (\<lambda>prop w. (Ok (), w\<lparr>sc_proposal := Some prop\<rparr>))
        | Some (Sendable (WChannelUpdateMsg m)) \<Rightarrow>
            bindS (lift_res (unwrap_res (LedgerChannelUpdate_try_from (xe_ext E) m)))
              (\<lambda>upd w. (Ok (), w\<lparr>sc_state := Some (lu_state upd)\<rparr>))
        | Some _ \<Rightarrow> ret ()))"

definition script_deliver :: "'r ex_env \<Rightarrow> bytes_bus_msg \<Rightarrow> ('r script_bus, 'e, unit) cmd" where
  "script_deliver E m = (case m of
     BytesToWatcher buf \<Rightarrow> ret ()
   | BytesToFunder buf \<Rightarrow> ret ()
   | BytesToParticipant s r buf \<Rightarrow> script_send_to_participant E s r buf)"

definition script_net ::
    "'r ex_env \<Rightarrow> (bytes \<Rightarrow> bool \<Rightarrow> service_msg) \<Rightarrow> ('r script_bus, 'e) net_module" where
  "script_net E FundingResponse =
     \<lparr>nm_read_config = Ok script_read_config, nm_recv_envelope = script_recv_envelope E,
      nm_recv_message = script_recv_message E FundingResponse, nm_deliver = script_deliver E\<rparr>"

lemma script_net_simps [simp]:
  "nm_read_config (script_net E F) = Ok script_read_config" "nm_recv_envelope (script_net E F) = script_recv_envelope E"
  "nm_recv_message (script_net E F) = script_recv_message E F" "nm_deliver (script_net E F) = script_deliver E"
  by (simp_all add: script_net_def)

section \<open>The counter\<close>

text \<open>Sending leaves the counter alone; a receive that succeeds moves it by one, from where the script allows it.\<close>

lemma count_up_Ok: "count_up E w = (Ok u, w') \<Longrightarrow> sc_send_counter w \<le> 6 \<Longrightarrow> sc_send_counter w' = sc_send_counter w + 1"
  using usize_limit_ge [of "xe_build E"]
  by (auto simp: count_up_def usize_add_def Let_def split: if_splits res.splits)

lemma script_accept_counter: "script_accept E w = (Ok x, w') \<Longrightarrow> sc_send_counter w' = sc_send_counter w"
  by (auto simp: script_accept_def Let_def bindS_Ok_iff simp del: bindS_lift split: prod.splits)

lemma script_sign_counter: "script_sign E v w = (Ok x, w') \<Longrightarrow> w' = w"
  by (auto simp: script_sign_def Let_def bindS_Ok_iff simp del: bindS_lift)

lemma script_recv_envelope_counter:
  assumes "script_recv_envelope E w = (Ok e, w')"
  shows "sc_send_counter w \<in> {0, 1, 2, 5}" "sc_send_counter w' = sc_send_counter w + 1"
  using assms
  by (auto simp: script_recv_envelope_def script_answer_def bindS_Ok_iff simp del: bindS_lift split: if_splits
      dest!: count_up_Ok script_accept_counter script_sign_counter)

lemma script_recv_message_counter:
  assumes "script_recv_message E F w = (Ok e, w')"
  shows "sc_send_counter w \<in> {3, 4, 6}" "sc_send_counter w' = sc_send_counter w + 1"
  using assms by (auto simp: script_recv_message_def bindS_Ok_iff simp del: bindS_lift split: if_splits dest!: count_up_Ok)

lemma script_deliver_counter: "script_deliver E m w = (Ok u, w') \<Longrightarrow> sc_send_counter w' = sc_send_counter w"
  by (auto simp: script_deliver_def script_send_to_participant_def bindS_Ok_iff simp del: bindS_lift
      split: bytes_bus_msg.splits if_splits sum.splits option.splits envelope_msg.splits w_envelope_msg.splits)

lemma script_deliver_all_counter:
  "deliver_all (script_deliver E) ms w = (Ok u, w') \<Longrightarrow> sc_send_counter w' = sc_send_counter w"
  by (induction ms arbitrary: w) (auto simp: bindS_Ok_iff dest!: script_deliver_counter)

lemma script_call_counter:
  "call (script_net E F) E m c w = (Ok x, w') \<Longrightarrow> sc_send_counter w' = sc_send_counter w"
  by (auto simp: call_def on_wire_def bind_res_Ok_iff split: prod.splits if_splits dest!: script_deliver_all_counter)

text \<open>By how much a part of the program that returns a certain result moves the counter.\<close>

definition counted :: "('r script_bus, 'e, 'a) cmd \<Rightarrow> ('a \<Rightarrow> bool) \<Rightarrow> nat \<Rightarrow> bool" where
  "counted m Q k \<longleftrightarrow> (\<forall>w x w'. m w = (Ok x, w') \<and> Q x \<longrightarrow> sc_send_counter w' = sc_send_counter w + k)"

lemma counted_bind:
  assumes "counted m (\<lambda>_. True) i" "\<And>x. counted (f x) Q j" "k = i + j"
  shows "counted (bindS m f) Q k"
  unfolding counted_def
proof (intro allI impI)
  fix w x w'
  assume "bindS m f w = (Ok x, w') \<and> Q x"
  then obtain y w1 where "m w = (Ok y, w1)" "f y w1 = (Ok x, w')" "Q x" by (auto simp: bindS_Ok_iff)
  then show "sc_send_counter w' = sc_send_counter w + k" using assms unfolding counted_def by fastforce
qed

lemma counted_simps [simp]:
  "counted crash Q k" "counted (ret x) Q k \<longleftrightarrow> (Q x \<longrightarrow> k = 0)"
  by (simp_all add: counted_def)

lemma counted_lift: "(\<And>x. counted (f x) Q k) \<Longrightarrow> counted (bindS (lift_res r) f) Q k"
  by (rule counted_bind [where i = 0 and j = k]) (simp_all add: counted_def)

lemma counted_call: "(\<And>x c. counted (f (x, c)) Q k) \<Longrightarrow> counted (bindS (call (script_net E F) E m c) f) Q k"
  by (rule counted_bind [where i = 0 and j = k]) (auto simp: counted_def script_call_counter)

lemma counted_envelope: "(\<And>x. counted (f x) Q k) \<Longrightarrow> counted (bindS (script_recv_envelope E) f) Q (Suc k)"
  by (rule counted_bind [where i = 1 and j = k]) (auto simp: counted_def script_recv_envelope_counter(2))

lemma counted_message: "(\<And>x. counted (f x) Q k) \<Longrightarrow> counted (bindS (script_recv_message E F) f) Q (Suc k)"
  by (rule counted_bind [where i = 1 and j = k]) (auto simp: counted_def script_recv_message_counter(2))

lemmas counted_rules = counted_lift counted_call counted_envelope counted_message

lemma propose_phase_counted:
  "counted (propose_phase (script_net E F) E s config rng) (\<lambda>c. c \<noteq> None) (Suc (Suc 0))"
  unfolding propose_phase_def Let_def script_net_simps
  by (cases "xe_gen32 E rng", cases "xe_gen32 E (snd (xe_gen32 E rng))", simp)
    (intro counted_rules, simp, intro counted_rules,
      auto intro!: counted_rules split: option.split envelope_msg.split w_envelope_msg.split res.split prod.split)

lemma sign_phase_counted:
  "counted (sign_phase (script_net E F) E c) (\<lambda>c. c \<noteq> None) (Suc (Suc 0))"
  unfolding sign_phase_def script_net_simps
  by (intro counted_rules, simp, intro counted_rules,
      auto intro!: counted_rules split: option.split envelope_msg.split w_envelope_msg.split res.split prod.split)

lemma script_update_stops:
  fixes w :: "'r script_bus"
  assumes "sc_send_counter w = 4"
  shows "update_phase (script_net E F) E ch w \<noteq> ((Ok ch' :: ('e, _) res), w')"
proof
  assume "update_phase (script_net E F) E ch w = ((Ok ch' :: ('e, _) res), w')"
  then obtain t r w1 e w2 where
    c: "call (script_net E F) E (on_bus (update (xe_build E) (xe_ext E) ch t)) () w = ((Ok r :: ('e, _) res), w1)"
    and e: "script_recv_envelope E w1 = ((Ok e :: ('e, _) res), w2)"
    by (auto simp: update_phase_def handle_update_response_def bindS_Ok_iff simp del: bindS_lift)
  show False using script_recv_envelope_counter(1) [OF e] script_call_counter [OF c] assms by simp
qed

text \<open>Whatever the environment, the program does not get past its first update: it reads one message too few.\<close>

lemma script_never_done:
  fixes w :: "'r script_bus"
  assumes "sc_send_counter w = 0"
  shows "ex_main (script_net E F) E rng w \<noteq> ((Ok (Some ch) :: ('e, _) res), w')"
proof
  let ?N = "script_net E F :: ('r script_bus, 'e) net_module"
  assume "ex_main ?N E rng w = (Ok (Some ch), w')"
  then obtain s c w1 ch1 w2 where
    p: "propose_phase ?N E s script_read_config rng w = (Ok (Some c), w1)"
    and g: "sign_phase ?N E c w1 = (Ok (Some ch1), w2)" and u: "update_phase ?N E ch1 w2 = (Ok ch, w')"
    by (auto simp: ex_main_def bindS_Ok_iff simp del: bindS_lift split: option.splits)
  have "sc_send_counter w2 = 4"
    using propose_phase_counted sign_phase_counted p g assms unfolding counted_def by fastforce
  then show False using script_update_stops u by blast
qed

section \<open>How far the script gets\<close>

text \<open>The encoded message has a frame, and the decoder returns what the encoder was given.\<close>

definition echoed :: "'r ex_env \<Rightarrow> participant_message \<Rightarrow> bool" where
  "echoed E m \<longleftrightarrow> (let wiremsg = participant_wiremsg (xe_ext E) m in
     fits E (ToParticipant (get_peers ! 0) (get_peers ! 1) m) \<and>
     xe_decode_envelope E (encode_envelope (xe_prost E)
         \<lparr>we_sender = get_peers ! 0, we_recipient = get_peers ! 1, we_msg = wiremsg\<rparr>) =
       Inr \<lparr>env_sender = get_peers ! 0, env_recipient = get_peers ! 1, env_msg = Some (Sendable wiremsg)\<rparr>)"

lemma script_delivers:
  assumes "echoed E m"
  shows "deliver_all (script_deliver E) (buffers E (ToParticipant (get_peers ! 0) (get_peers ! 1) m)) w =
    (case m of
       ChannelProposal p \<Rightarrow> bindS (lift_res (unwrap_res (LedgerChannelProposal_try_from (xe_ext E)
           (LedgerChannelProposal_into (xe_ext E) p)))) (\<lambda>p w. (Ok (), w\<lparr>sc_proposal := Some p\<rparr>)) w
     | ChannelUpdate u \<Rightarrow> bindS (lift_res (unwrap_res (LedgerChannelUpdate_try_from (xe_ext E)
           (LedgerChannelUpdate_into (xe_ext E) u)))) (\<lambda>u w. (Ok (), w\<lparr>sc_state := Some (lu_state u)\<rparr>)) w
     | _ \<Rightarrow> ((Ok () :: ('e, unit) res), w))"
proof -
  let ?body = "encode_envelope (xe_prost E)
    \<lparr>we_sender = get_peers ! 0, we_recipient = get_peers ! 1, we_msg = participant_wiremsg (xe_ext E) m\<rparr>"
  have l: "length ?body < 2 ^ 16" using assms by (simp add: echoed_def fits_def Let_def)
  have "buffers E (ToParticipant (get_peers ! 0) (get_peers ! 1) m) =
      [BytesToParticipant (get_peers ! 0) (get_peers ! 1) (framed ?body)]"
    using l by (simp add: buffers_def pb_send_def pb_send_to_participant_def frame_def framed_def)
  moreover have "drop 2 (framed ?body) = ?body" "\<not> length (framed ?body) < 2"
    using framed_parts(2,3) [OF l, of "[]"] by simp_all
  ultimately show ?thesis
    using assms
    by (simp add: script_deliver_def script_send_to_participant_def echoed_def Let_def participant_wiremsg_def
        split: participant_message.split)
qed

text \<open>With the zero holder of the default configuration a proposal survives the library's own wire format.\<close>

lemma zero_holder_proposal:
  assumes "u256_spec X" "proposal_wf p" "al_assets (lp_init_bals p) = [\<lparr>as_holder = bytesN_default 20\<rparr>]"
    "lp_funding_agreement p = al_balances (lp_init_bals p)"
  shows "LedgerChannelProposal_try_from X (LedgerChannelProposal_into X p) = Ok p"
proof -
  have b: "Balances_try_from X 1 2 (Balances_into X bals) = Ok bals"
    if "length bals = 1" "list_all (\<lambda>x. length x = 2) bals" for bals
    using Balances_wire [OF assms(1), of bals 1 2] that by blast
  have a: "Asset_try_from (Asset_into \<lparr>as_holder = bytesN_default 20\<rparr>) = Ok \<lparr>as_holder = bytesN_default 20\<rparr>"
    by (simp add: Asset_try_from_def Asset_into_def bytesN_default_def le_val_def be_val_Cons numeral_eq_Suc)
  show ?thesis
    using assms(2-4) a b
    by (cases p, cases "lp_init_bals p")
      (simp add: LedgerChannelProposal_try_from_def LedgerChannelProposal_into_def proposal_wf_def proposal_ok_def allocation_wf_def
        Allocation_try_from_def Allocation_into_def try_into_array_def ASSETS_def PARTICIPANTS_def)
qed

lemma script_receives:
  assumes "sc_send_counter w = n" "n \<le> 6"
    "script_answer E n w = ((Ok m :: ('e, _) res), w1)"
    "sc_send_counter w1 = n"
  shows "script_recv_envelope E w = ((Ok \<lparr>env_sender = get_peers ! 1, env_recipient = get_peers ! 0,
      env_msg = Some (Sendable m)\<rparr> :: ('e, _) res), w1\<lparr>sc_send_counter := n + 1\<rparr>)"
proof -
  have "count_up E w1 = ((Ok () :: ('e, _) res), w1\<lparr>sc_send_counter := n + 1\<rparr>)"
    using assms(2,4) usize_limit_ge [of "xe_build E"] by (simp add: count_up_def usize_add_def Let_def)
  then show ?thesis using assms(1,3) unfolding script_recv_envelope_def by (simp add: bindS_Ok)
qed

text \<open>The acceptance, and the state the script keeps.\<close>

lemma script_accepts:
  fixes E :: "'r ex_env"
  defines "X \<equiv> xe_ext E"
  assumes env: "env_ok X" and p: "proposal_wf p" "sc_proposal w = Some p"
    and n: "xe_gen32 E (sc_rng w) = (n, rng)" "proposal_acc_wf (acc_of p n (sc_signer w))"
  shows "script_accept E w = ((Ok (WLedgerChannelProposalAccMsg (LedgerChannelProposalAcc_into (acc_of p n (sc_signer w))))
      :: ('e, _) res), w\<lparr>sc_rng := rng, sc_state := Some (opened_state X p (acc_of p n (sc_signer w)))\<rparr>)"
proof -
  let ?a = "acc_of p n (sc_signer w)"
  have spec: "u256_spec X" "\<And>m. length (sha3_256 X m) = 32"
    using env by (simp_all add: env_ok_def crypto_spec_def hash_spec_def)
  have params: "script_params p (pa_nonce (opened_params X p ?a)) (Signer_address (sc_signer w)) = opened_params X p ?a"
    by (simp add: script_params_def opened_params_def acc_of_def Signer_address_def bytesN_default_def)
  have "State_new b X (opened_params X p ?a) (lp_init_bals p) = Ok (opened_state X p ?a)" for b
    using State_new_Ok [OF spec(1) opened_params_wf [OF proposal_wf_ok [OF p(1)] n(2)]] p(1) by (simp add: opened_state_def proposal_wf_def proposal_ok_def)
  then show ?thesis
    using p(2) n(1) params
    by (simp add: script_accept_def Let_def X_def [symmetric] u256_from_be_spec [OF spec(1)] spec(2) bindS_def
        opened_params_def acc_of_def Signer_address_def)
qed

lemma script_signs:
  fixes E :: "'r ex_env"
  defines "X \<equiv> xe_ext E"
  assumes env: "env_ok X" and s: "signer_ok X (sc_signer w)" and st: "sc_state w = Some st" "state_wf 1 2 st"
  obtains sig h where "length sig = 65" "to_hash (xe_build E) X (State_sval X st) = Ok h"
    "recover_signer (xe_build E) X h sig = Ok (sg_addr (sc_signer w))"
    "script_sign E v w = ((Ok (WChannelUpdateAccMsg (LedgerChannelUpdateAccepted_into
       \<lparr>lua_channel = st_id st, lua_version = v, lua_sig = sig\<rparr>)) :: ('e, _) res), w)"
proof -
  obtain h where h: "to_hash (xe_build E) X (State_sval X st) = Ok h" using env st(2) by (rule state_hash_Ok)
  have "crypto_spec X" using env by (simp add: env_ok_def)
  then obtain sig where "sign_eth (xe_build E) X (sc_signer w) h = (Ok sig :: ('e, signature) res)" "length sig = 65"
    "recover_signer (xe_build E) X h sig = Ok (sg_addr (sc_signer w))"
    using s by (auto elim: sign_recover)
  then show ?thesis using h st(1)
    by (intro that [of sig h]) (simp_all add: script_sign_def Let_def X_def [symmetric])
qed

text \<open>A call of the library that sends one message to the other participant.\<close>

lemma script_call1:
  fixes m :: "('c \<times> bus, 'f, 'a) cmd"
  assumes "u256_spec (xe_ext E)" "echoed E msg"
    "m (c, []) = (Ok x, (c', [ToParticipant (get_peers ! 0) (get_peers ! 1) msg]))"
    "(case msg of
       ChannelProposal p \<Rightarrow> LedgerChannelProposal_try_from (xe_ext E) (LedgerChannelProposal_into (xe_ext E) p) = Ok p \<and>
         w' = w\<lparr>sc_proposal := Some p\<rparr>
     | ChannelUpdate u \<Rightarrow> False
     | _ \<Rightarrow> w' = w)"
  shows "call (script_net E F) E m c w = ((Ok (x, c') :: ('e, _) res), w')"
  using assms(2,4) script_delivers [OF assms(2), where w = w and ?'e = 'e]
  by (intro call_Ok [where m = m, OF assms(1) _ _ assms(3)])
    (auto simp: echoed_def Let_def split: participant_message.splits)

lemma script_propose_run:
  fixes E :: "'r ex_env"
  defines "X \<equiv> xe_ext E"
  assumes env: "env_ok X"
    and p: "proposal_wf p" "p = ex_proposal script_read_config (Signer_address s) pid share"
    and gen: "xe_gen32 E rng = (pid, rng1)" "xe_gen32 E rng1 = (share, rng2)" "xe_gen32 E (sc_rng w) = (n, seed)"
    and acc: "a = acc_of p n (sc_signer w)" "proposal_acc_wf a"
    and echo: "echoed E Auth" "echoed E (ChannelProposal p)" and w: "sc_send_counter w = 0"
  shows "propose_phase (script_net E F) E s script_read_config rng w =
    ((Ok (Some ((ProposedChannel_new (PerunClient_new s) 0 (xc_withdraw_receiver script_read_config) p)
        \<lparr>pr_responses := [Some a]\<rparr>)) :: ('e, _) res),
     w\<lparr>sc_send_counter := 2, sc_rng := seed, sc_proposal := Some p, sc_state := Some (opened_state X p a)\<rparr>)"
proof -
  let ?r = "xc_withdraw_receiver script_read_config" and ?N = "script_net E F :: ('r script_bus, 'e) net_module"
  let ?c0 = "ProposedChannel_new (PerunClient_new s) 0 ?r p"
  have u: "u256_spec (xe_ext E)" using env by (simp add: env_ok_def X_def)
  have peers: "lp_peers p = get_peers" and dur: "lp_challenge_duration p \<noteq> 0"
    and fund: "lp_funding_agreement p = al_balances (lp_init_bals p)"
    and zero: "al_assets (lp_init_bals p) = [\<lparr>as_holder = bytesN_default 20\<rparr>]"
    by (simp_all add: p(2) ex_proposal_def Let_def Allocation_new_def script_read_config_def)
  note phase = proposal_phase [OF env p(1) dur acc(2) [unfolded acc(1)], folded acc(1)]
  let ?w1 = "w\<lparr>sc_send_counter := 1\<rparr>" and ?w2 = "w\<lparr>sc_send_counter := 1, sc_proposal := Some p\<rparr>"
  have c1: "call ?N E (on_bus (\<lambda>bus. (Ok (), send_handshake_msg (get_peers ! 0) (get_peers ! 1) bus)) ::
      (unit \<times> bus, unit, unit) cmd) () w = (Ok ((), ()), w)"
    by (rule script_call1 [OF u echo(1)])
      (simp_all add: on_bus_def send_handshake_msg_def send_to_participant_def)
  have r1: "script_recv_envelope E w = ((Ok \<lparr>env_sender = get_peers ! 1, env_recipient = get_peers ! 0,
      env_msg = Some (Sendable WAuthResponseMsg)\<rparr> :: ('e, _) res), ?w1)"
    using script_receives [OF w, of E WAuthResponseMsg w] w by (simp add: script_answer_def)
  have c2: "call ?N E (on_bus (propose_channel (xe_build E) (PerunClient_new s) p ?r)) () ?w1 = (Ok (?c0, ()), ?w2)"
    using phase(1) zero_holder_proposal [OF u p(1) zero fund]
    by (intro script_call1 [OF u echo(2)]) (simp_all add: on_bus_def peers)
  have "script_accept E ?w2 = ((Ok (WLedgerChannelProposalAccMsg (LedgerChannelProposalAcc_into a)) :: ('e, _) res),
      ?w2\<lparr>sc_rng := seed, sc_state := Some (opened_state X p a)\<rparr>)"
    using script_accepts [of E p ?w2 n seed, folded X_def] env p(1) gen(3) acc by simp
  then have r2: "script_recv_envelope E ?w2 = ((Ok \<lparr>env_sender = get_peers ! 1, env_recipient = get_peers ! 0,
      env_msg = Some (Sendable (WLedgerChannelProposalAccMsg (LedgerChannelProposalAcc_into a)))\<rparr> :: ('e, _) res),
      w\<lparr>sc_send_counter := 2, sc_rng := seed, sc_proposal := Some p, sc_state := Some (opened_state X p a)\<rparr>)"
    using script_receives [where ?'e = 'e and w = ?w2 and n = 1 and E = E
        and m = "WLedgerChannelProposalAccMsg (LedgerChannelProposalAcc_into a)"
        and ?w1.0 = "?w2\<lparr>sc_rng := seed, sc_state := Some (opened_state X p a)\<rparr>"]
    by (simp add: script_answer_def numeral_2_eq_2)
  have wire: "LedgerChannelProposalAcc_try_from (LedgerChannelProposalAcc_into a) = Ok a"
    using acc(2) by (simp add: LedgerChannelProposalAcc_try_from_def LedgerChannelProposalAcc_into_def
        proposal_acc_wf_def try_into_array_def)
  show ?thesis
    unfolding propose_phase_def Let_def gen prod.case p(2) [symmetric] script_net_simps
    by (subst bindS_Ok, rule c1, subst bindS_Ok, rule r1, subst bindS_Ok, rule c2, unfold prod.case,
        subst bindS_Ok, rule r2) (simp add: wire phase(3) [simplified])
qed

text \<open>When the script has the program's own key, its signature on the initial state is taken for the program's.\<close>

lemma script_sign_run:
  fixes E :: "'r ex_env"
  defines "X \<equiv> xe_ext E"
  assumes env: "env_ok X" and p: "proposal_wf p" "lp_challenge_duration p \<noteq> 0" "lp_peers p = get_peers"
    and s: "signer_ok X s" "lp_participant p = sg_addr s" "sc_signer w = s"
    and acc: "a = acc_of p n s" "proposal_acc_wf a"
    and echo: "\<And>sig. length sig = 65 \<Longrightarrow> echoed E (ChannelUpdateAccepted (opening_msg X p a sig))"
    and w: "sc_send_counter w = 2" "sc_state w = Some (opened_state X p a)"
  shows "sign_phase (script_net E F) E ((ProposedChannel_new (PerunClient_new s) 0 r p)\<lparr>pr_responses := [Some a]\<rparr>) w =
    ((Panic :: ('e, _) res), w\<lparr>sc_send_counter := 3\<rparr>)"
proof -
  let ?b = "xe_build E" and ?c = "agreed_side X p a s 0 r" and ?N = "script_net E F :: ('r script_bus, 'e) net_module"
  let ?st = "opened_state X p a" and ?P = "opened_params X p a"
  have u: "u256_spec (xe_ext E)" using env by (simp add: env_ok_def X_def)
  have wf: "agreed_wf X ?c"
    unfolding agreed_side_def using opened_agreed_wf [OF env p(1) acc(2) s(1), of 0] s(2) by simp
  have st: "state_wf 1 2 ?st" using env proposal_wf_ok [OF p(1)] by (rule opened_state_wf)
  have build: "build_agreed ?b X ((ProposedChannel_new (PerunClient_new s) 0 r p)\<lparr>pr_responses := [Some a]\<rparr>) = Ok ?c"
    unfolding acc(1) by (rule proposal_phase(4) [OF env p(1,2) acc(2) [unfolded acc(1)]])
  obtain own where own: "length own = 65" "sign ?b X (?c, []) = (Ok (), (?c\<lparr>ag_signatures := [Some own, None]\<rparr>,
      [ToParticipant (get_peers ! 0) (get_peers ! 1) (ChannelUpdateAccepted (opening_msg X p a own))]))"
    using own_opening_signature [OF env wf, of ?b] unfolding p(3) by blast
  have c: "call ?N E (sign ?b X) ?c w = (Ok ((), ?c\<lparr>ag_signatures := [Some own, None]\<rparr>), w)"
    by (rule script_call1 [OF u echo [OF own(1)]], rule own(2)) simp
  obtain sig h where sig: "length sig = 65" "to_hash ?b X (State_sval X ?st) = Ok h"
    "recover_signer ?b X h sig = Ok (sg_addr s)"
    "script_sign E 0 w = ((Ok (WChannelUpdateAccMsg (LedgerChannelUpdateAccepted_into (opening_msg X p a sig))) :: ('e, _) res), w)"
  proof (rule script_signs [of E w ?st, where ?'e = 'e and v = 0, folded X_def])
  qed (use env s w(2) st that in \<open>simp_all add: opening_msg_def\<close>)
  have r1: "script_recv_envelope E w = ((Ok \<lparr>env_sender = get_peers ! 1, env_recipient = get_peers ! 0,
      env_msg = Some (Sendable (WChannelUpdateAccMsg (LedgerChannelUpdateAccepted_into (opening_msg X p a sig))))\<rparr>
      :: ('e, _) res), w\<lparr>sc_send_counter := 3\<rparr>)"
    using script_receives [OF w(1), of E _ w, OF _ _ w(1), where ?'e = 'e] sig(4) by (simp add: script_answer_def)
  have wire: "LedgerChannelUpdateAccepted_try_from (LedgerChannelUpdateAccepted_into (opening_msg X p a sig)) =
      Ok (opening_msg X p a sig)"
    using accepts_decodes [OF _ sig(1), of ?st] st by (simp add: opening_msg_def state_wf_def opened_state_simps)
  have "sig_valid ?b X ?P ?st 1 sig" "pa_participants ?P = [sg_addr s, sg_addr s]"
    using sig(2,3) s(2) by (auto simp: sig_valid_def opened_params_def acc(1) acc_of_def)
  then have add: "add_signature ?b X (opening_msg X p a sig) (?c\<lparr>ag_signatures := [Some own, None]\<rparr>) =
      (Err AS_AlreadySigned, ?c\<lparr>ag_signatures := [Some own, None]\<rparr>)"
    using add_signature_same [of X "?c\<lparr>ag_signatures := [Some own, None]\<rparr>" "sg_addr s" 1 ?b sig] wf
    by (simp add: opening_msg_def agreed_wf_def agreed_ok_def)
  show ?thesis
    unfolding sign_phase_def X_def [symmetric] build unwrap_res.simps bindS_lift_Ok script_net_simps
    by (subst bindS_Ok, rule c, unfold prod.case, subst bindS_Ok, rule r1) (simp add: wire add)
qed

text \<open>
  Were the missing message type defined, the scripted example could not run to its end.  Its bus signs
  with the key of \<open>Signer::new\<close>, as the program does: the greeting, the acceptance of the proposal and
  the signature on the initial state are all played, and the program panics on the third answer,
  which it takes for its own signature.  And with any other key, state or environment, it never
  closes a channel either: the script wants two messages of the service to be read where the
  program reads one.
\<close>

lemma scripted_run_fails:
  fixes E :: "'r ex_env" and rng seed :: 'r
  defines "X \<equiv> xe_ext E"
  assumes env: "env_ok X"
    and set_up: "Signer_new X rng = (Ok s :: ('e, signer) res)" "script_new E seed = (Ok w0 :: ('e, _) res)"
    and gen: "xe_gen32 E rng = (pid, rng1)" "xe_gen32 E rng1 = (share, rng2)" "xe_gen32 E seed = (n, seed1)"
      "length pid = 32" "length share = 32" "length n = 32"
    and p: "p = ex_proposal script_read_config (Signer_address s) pid share" and a: "a = acc_of p n s"
    and echo: "echoed E Auth" "echoed E (ChannelProposal p)"
      "\<And>sig. length sig = 65 \<Longrightarrow> echoed E (ChannelUpdateAccepted (opening_msg X p a sig))"
  shows "ex_main (script_net E F) E rng w0 = ((Panic :: ('e, _) res),
      w0\<lparr>sc_send_counter := 3, sc_rng := seed1, sc_proposal := Some p, sc_state := Some (opened_state X p a)\<rparr>) \<and>
    (\<forall>E' F' rng' w ch w'. sc_send_counter w = 0 \<longrightarrow>
      ex_main (script_net E' F') E' (rng' :: 'q) w \<noteq> ((Ok (Some ch) :: ('f, _) res), w'))"
proof
  have s: "signer_ok X s" using set_up(1) by (rule Signer_new_signer_ok)
  have w0: "sc_send_counter w0 = 0" "sc_signer w0 = s" "sc_rng w0 = seed"
    using set_up(2) Signer_new_same [OF set_up(1)] by (auto simp: script_new_def X_def bind_res_Ok_iff)
  have pwf: "proposal_wf p" "lp_challenge_duration p \<noteq> 0"
    using ex_proposal_wf [of script_read_config] signer_address_length [OF env s] gen(4,5)
    unfolding p by (simp_all add: script_read_config_def bytesN_default_def)
  have awf: "proposal_acc_wf a" unfolding a using env proposal_wf_ok [OF pwf(1)] s gen(6) by (rule acc_of_wf)
  have fields: "lp_peers p = get_peers" "lp_participant p = sg_addr s"
    by (simp_all add: p ex_proposal_def Let_def Signer_address_def)
  let ?w1 = "w0\<lparr>sc_send_counter := 2, sc_rng := seed1, sc_proposal := Some p, sc_state := Some (opened_state X p a)\<rparr>"
  have propose: "propose_phase (script_net E F) E s script_read_config rng w0 =
      ((Ok (Some ((ProposedChannel_new (PerunClient_new s) 0 (xc_withdraw_receiver script_read_config) p)
        \<lparr>pr_responses := [Some a]\<rparr>)) :: ('e, _) res), ?w1)"
    using script_propose_run [where E = E and ?'e = 'e and w = w0 and p = p and s = s, folded X_def,
        OF env pwf(1) p gen(1,2) _ _ awf echo(1,2) w0(1)] gen(3) a w0(2,3) by simp
  have sign: "sign_phase (script_net E F) E ((ProposedChannel_new (PerunClient_new s) 0 r p)\<lparr>pr_responses := [Some a]\<rparr>) ?w1
      = ((Panic :: ('e, _) res), ?w1\<lparr>sc_send_counter := 3\<rparr>)" for r
    unfolding X_def using env [unfolded X_def] pwf s [unfolded X_def] fields a awf echo(3) [unfolded X_def] w0(2)
    by (intro script_sign_run [where n = n]) simp_all
  show "ex_main (script_net E F) E rng w0 = ((Panic :: ('e, _) res),
      w0\<lparr>sc_send_counter := 3, sc_rng := seed1, sc_proposal := Some p, sc_state := Some (opened_state X p a)\<rparr>)"
    unfolding ex_main_def script_net_simps bindS_lift_Ok X_def [symmetric] set_up(1)
    by (subst bindS_Ok, rule propose, unfold option.case, subst bindS_Panic, rule sign) simp
qed (intro allI impI, erule script_never_done)

section \<open>A concrete script\<close>

definition script_proposal :: ledger_channel_proposal where
  "script_proposal = ex_proposal script_read_config (Signer_address host_signer) (replicate 32 5) (replicate 32 5)"

definition script_acc :: ledger_channel_proposal_acc where
  "script_acc = acc_of script_proposal (replicate 32 5) host_signer"

text \<open>An encoder and a decoder for the three messages of the run.\<close>

definition script_encode :: "w_envelope \<Rightarrow> bytes" where
  "script_encode e = (case we_msg e of
     WLedgerChannelProposalMsg _ \<Rightarrow> [1] | WChannelUpdateAccMsg m \<Rightarrow> 2 # take 65 (wua_sig m) | _ \<Rightarrow> [0])"

definition script_decode :: "bytes \<Rightarrow> decode_error + envelope" where
  "script_decode bs = Inr \<lparr>env_sender = get_peers ! 0, env_recipient = get_peers ! 1,
     env_msg = Some (Sendable (participant_wiremsg toy_ext
       (if hd bs = 0 then Auth else if hd bs = 1 then ChannelProposal script_proposal
        else ChannelUpdateAccepted (opening_msg toy_ext script_proposal script_acc (tl bs)))))\<rparr>"

definition script_env :: "nat ex_env" where
  "script_env = \<lparr>xe_build = dbg32, xe_ext = toy_ext, xe_prost = \<lparr>encode_message = (\<lambda>_. []), encode_envelope = script_encode\<rparr>,
     xe_gen32 = (\<lambda>g. (replicate 32 5, g)), xe_hex_decode = (\<lambda>_. None),
     xe_decode_envelope = script_decode, xe_decode_message = (\<lambda>bs. Inr None)\<rparr>"

lemma scripted_run_example:
  "\<exists>w0 w. script_new script_env 7 = (Ok w0 :: (unit, _) res) \<and>
    ex_main (script_net script_env (\<lambda>_ _. RegisterResp)) script_env 0 w0 = ((Panic :: (unit, _) res), w) \<and>
    sc_send_counter w = 3"
proof -
  have X: "xe_ext script_env = toy_ext" by (simp add: script_env_def)
  have ok: "env_ok (xe_ext script_env)" using toy_env_ok by (simp add: X)
  have gen: "xe_gen32 script_env g = (replicate 32 5, g)" for g by (simp add: script_env_def)
  have signer: "Signer_new (xe_ext script_env) g = (Ok host_signer :: (unit, signer) res)" for g :: nat
    unfolding X by (rule run_set_up(2))
  obtain w0 where w0: "script_new script_env 7 = (Ok w0 :: (unit, _) res)"
    by (simp add: script_new_def signer)
  have echo: "echoed script_env Auth" "echoed script_env (ChannelProposal script_proposal)"
    "\<And>sig. length sig = 65 \<Longrightarrow>
      echoed script_env (ChannelUpdateAccepted (opening_msg (xe_ext script_env) script_proposal script_acc sig))"
    by (simp_all add: echoed_def X Let_def) (simp_all add: script_env_def script_encode_def script_decode_def
        participant_wiremsg_def LedgerChannelUpdateAccepted_into_def opening_msg_def fits_def)
  have len: "length (replicate 32 (5 :: u8)) = 32" by simp
  note run = scripted_run_fails [OF ok signer [of 0] w0 gen gen gen len len len script_proposal_def
      script_acc_def echo, where F = "\<lambda>_ _. RegisterResp", THEN conjunct1]
  show ?thesis by (intro exI conjI, rule w0, rule run) simp_all
qed

end
