(* ===== verification/Type_Traits.thy ===== *)
theory Type_Traits
  imports Abi_Types
begin

text \<open>
  The other traits of the value types: \<open>Debug\<close> and the random \<open>Distribution\<close> of \<open>abiencode/types.rs\<close>,
  \<open>Display\<close> and \<open>ser::Error\<close> of \<open>abiencode/error.rs\<close>.  The text determines the value, and sampling
  reaches every value from exactly one buffer of random bytes.
\<close>

section \<open>Debug output\<close>

text \<open>\<open>{:02x}\<close>: two lower-case hexadecimal digits.\<close>

definition hex_digit :: "nat \<Rightarrow> char" where
  "hex_digit n = ''0123456789abcdef'' ! n"

definition hex_byte :: "u8 \<Rightarrow> string" where
  "hex_byte b = [hex_digit (unat b div 16), hex_digit (unat b mod 16)]"

definition hex_debug :: "bytes \<Rightarrow> string" where
  "hex_debug v = ''0x'' @ concat (map hex_byte v)"

text \<open>Reading it back.\<close>

definition hex_value :: "char \<Rightarrow> nat option" where
  "hex_value c = map_of (zip ''0123456789abcdef'' [0..<16]) c"

fun unhex :: "string \<Rightarrow> bytes option" where
  "unhex [] = Some []"
| "unhex [c] = None"
| "unhex (c # d # cs) = (case (hex_value c, hex_value d, unhex cs) of
     (Some x, Some y, Some bs) \<Rightarrow> Some (word_of_nat (16 * x + y) # bs) | _ \<Rightarrow> None)"

lemma hex_value_digit: "n < 16 \<Longrightarrow> hex_value (hex_digit n) = Some n"
proof -
  have "\<forall>n<16. hex_value (hex_digit n) = Some n" by code_simp
  then show "n < 16 \<Longrightarrow> ?thesis" by blast
qed

lemma unhex_hex_byte: "unhex (hex_byte b @ cs) = map_option ((#) b) (unhex cs)"
proof -
  have "unat b div 16 < 16" using unat_bound [of b] by (simp add: less_mult_imp_div_less)
  then have "hex_value (hex_digit (unat b div 16)) = Some (unat b div 16)"
    "hex_value (hex_digit (unat b mod 16)) = Some (unat b mod 16)"
    by (auto intro!: hex_value_digit)
  then show ?thesis by (cases "unhex cs") (simp_all add: hex_byte_def)
qed

lemma hex_debug_round_trip: "unhex (drop 2 (hex_debug v)) = Some v" "length (hex_debug v) = 2 + 2 * length v"
proof -
  have "unhex (concat (map hex_byte v)) = Some v"
    by (induction v) (simp_all add: unhex_hex_byte)
  then show "unhex (drop 2 (hex_debug v)) = Some v" by (simp add: hex_debug_def)
  show "length (hex_debug v) = 2 + 2 * length v"
    by (induction v) (simp_all add: hex_debug_def hex_byte_def)
qed

section \<open>Error texts\<close>

definition Error_display :: "error \<Rightarrow> string" where
  "Error_display e = (case e of
     TypeNotRepresentable type_name \<Rightarrow> ''type is not representable in abi encoding: '' @ type_name
   | TypeNotYetSupported type_name \<Rightarrow> ''type is not yet implemented: '' @ type_name)"

lemma Error_display_inj: "Error_display e = Error_display e' \<longleftrightarrow> e = e'"
  by (cases e; cases e') (simp_all add: Error_display_def)

text \<open>A custom error of a \<open>Serialize\<close> implementation is \<open>unimplemented!\<close>.\<close>

definition Error_custom :: "string \<Rightarrow> ('e, error) res" where
  "Error_custom msg = Panic"

section \<open>Sampling\<close>

text \<open>
  \<open>rng.gen()\<close> of an array of \<open>n\<close> bytes is a parameter; it returns \<open>n\<close> bytes and the generator after them.
\<close>

type_synonym 'r byte_gen = "nat \<Rightarrow> 'r \<Rightarrow> bytes \<times> 'r"

definition bytesN_sample :: "'r byte_gen \<Rightarrow> nat \<Rightarrow> 'r \<Rightarrow> bytes \<times> 'r" where
  "bytesN_sample gen n rng = gen n rng"

definition Address_sample :: "'r byte_gen \<Rightarrow> 'r \<Rightarrow> address \<times> 'r" where
  "Address_sample gen rng = gen 20 rng"

definition U256_sample :: "ext \<Rightarrow> 'r byte_gen \<Rightarrow> 'r \<Rightarrow> ('e, u256) res \<times> 'r" where
  "U256_sample X gen rng = (let (buf, rng') = gen 32 rng in (unwrap (u256_from_big_endian X buf), rng'))"

definition gen_spec :: "'r byte_gen \<Rightarrow> bool" where
  "gen_spec gen \<longleftrightarrow> (\<forall>n rng. length (fst (gen n rng)) = n)"

text \<open>Sampling a number succeeds, and every number comes from exactly one buffer.\<close>

lemma U256_sample_ok:
  assumes "u256_spec X" "gen_spec gen"
  shows "U256_sample X gen rng = (Ok (word_of_nat (be_val (fst (gen 32 rng)))), snd (gen 32 rng))"
  using assms by (simp add: U256_sample_def gen_spec_def u256_from_be_spec split_beta)

lemma U256_sample_bij: "bij_betw (\<lambda>buf. word_of_nat (be_val buf) :: u256) {buf. length buf = 32} UNIV"
proof (rule bij_betw_byWitness [where f' = "\<lambda>x. be_bytes 32 (unat x)"])
  show "\<forall>buf\<in>{buf. length buf = 32}. be_bytes 32 (unat (word_of_nat (be_val buf) :: u256)) = buf"
  proof
    fix buf :: bytes assume "buf \<in> {buf. length buf = 32}"
    then have l: "length buf = 32" by simp
    then have "be_val buf < 2 ^ 256" using be_val_less [of buf] by simp
    then show "be_bytes 32 (unat (word_of_nat (be_val buf) :: u256)) = buf"
      using be_bytes_be_val [of buf] l by (simp add: unat_of_nat)
  qed
  show "\<forall>x\<in>UNIV. word_of_nat (be_val (be_bytes 32 (unat x))) = (x :: u256)"
  proof
    fix x :: u256
    have "unat x < 256 ^ 32" using unat_bound [of x] by simp
    then show "word_of_nat (be_val (be_bytes 32 (unat x))) = x" by (simp add: be_val_be_bytes)
  qed
qed auto

end
