(* ===== verification/Demo_Sockets.thy ===== *)
theory Demo_Sockets
  imports Demo_Net
begin

text \<open>
  The network interface of the embedded demo as \<open>main.rs\<close> sets it up: the addresses, and two TCP
  sockets with buffers of fixed size.  A message leaves through the transmit buffer of its socket in one
  piece or the device panics (\<open>bus.rs\<close>), so what a call of the library sends before the network stack
  runs again has to fit; here is exactly when it does.
\<close>

section \<open>The interface (\<open>main.rs\<close>)\<close>

definition DEVICE_IP_ADDRESS :: bytes where
  "DEVICE_IP_ADDRESS = [192, 168, 1, 125]"

definition CIDR_PREFIX_LEN :: u8 where
  "CIDR_PREFIX_LEN = 24"

definition MAC_ADDRESS :: bytes where
  "MAC_ADDRESS = [0x00, 0x00, 0xDE, 0xAD, 0xBE, 0xEF]"

text \<open>A socket is made of the lengths of its two buffers.\<close>

record socket_buffers =
  so_rx_buffer :: nat
  so_tx_buffer :: nat

definition participant_socket :: socket_buffers where
  "participant_socket = \<lparr>so_rx_buffer = MAX_MESSAGE_SIZE + 2, so_tx_buffer = MAX_MESSAGE_SIZE + 2\<rparr>"

definition service_socket :: socket_buffers where
  "service_socket = \<lparr>so_rx_buffer = MAX_MESSAGE_SIZE + 2, so_tx_buffer = 1024\<rparr>"

record interface_setup =
  is_random_seed :: u64
  is_hardware_addr :: bytes
  is_ip_addrs :: "(bytes \<times> u8) list"
  is_neighbor_slots :: nat
  is_sockets :: "socket_buffers list"

text \<open>The sockets in the order in which \<open>add_socket\<close> hands out their handles.\<close>

definition main_interface :: "u64 \<Rightarrow> interface_setup" where
  "main_interface seed = \<lparr>is_random_seed = seed, is_hardware_addr = MAC_ADDRESS,
     is_ip_addrs = [(DEVICE_IP_ADDRESS, CIDR_PREFIX_LEN)], is_neighbor_slots = 16,
     is_sockets = [participant_socket, service_socket]\<rparr>"

definition main_bus :: socket_bus where
  "main_bus = \<lparr>sb_participant_handle = 0, sb_service_handle = 1\<rparr>"

lemma main_bus_simps [simp]: "sb_participant_handle main_bus = 0" "sb_service_handle main_bus = 1"
  by (simp_all add: main_bus_def)

section \<open>What the TCP stack promises of sending\<close>

text \<open>
  The bytes waiting in the transmit buffer of a socket are \<open>tx\<close>, its size is \<open>cap\<close>.  \<open>send_slice\<close> on an open
  connection takes as much of the slice as there is room for and returns how much that was; it
  touches no other socket.  On a closed one it is an error.
\<close>

definition tcp_send_spec ::
    "'w tcp \<Rightarrow> (socket_handle \<Rightarrow> 'w \<Rightarrow> bytes) \<Rightarrow> (socket_handle \<Rightarrow> 'w \<Rightarrow> nat) \<Rightarrow> bool" where
  "tcp_send_spec T tx cap \<longleftrightarrow> (\<forall>h w msg.
     if tcp_may_send T h w then
       let n = min (length msg) (cap h w - length (tx h w)) in
       (\<exists>w'. tcp_send_slice T h msg w = (Ok n, w') \<and> tx h w' = tx h w @ take n msg \<and>
         (\<forall>k. k \<noteq> h \<longrightarrow> tx k w' = tx k w) \<and>
         (\<forall>k. cap k w' = cap k w \<and> tcp_may_send T k w' = tcp_may_send T k w))
     else \<exists>e. tcp_send_slice T h msg w = (Err e, w))"

text \<open>The interface has the sockets it was set up with.\<close>

definition interface_made ::
    "'w tcp \<Rightarrow> (socket_handle \<Rightarrow> 'w \<Rightarrow> nat) \<Rightarrow> interface_setup \<Rightarrow> 'w \<Rightarrow> bool" where
  "interface_made T cap I w \<longleftrightarrow> (\<forall>h < length (is_sockets I).
     tcp_recv_capacity T h w = so_rx_buffer (is_sockets I ! h) \<and> cap h w = so_tx_buffer (is_sockets I ! h))"

section \<open>Sending\<close>

lemma bus_send_outcome:
  assumes "tcp_send_spec T tx cap" "tcp_may_send T h w" "length (tx h w) \<le> cap h w"
  obtains w' where "bus_send T h msg w =
      ((if length (tx h w) + length msg \<le> cap h w then Ok () else Panic :: ('e, unit) res), w')"
    "length (tx h w) + length msg \<le> cap h w \<Longrightarrow> tx h w' = tx h w @ msg"
    "\<And>k. k \<noteq> h \<Longrightarrow> tx k w' = tx k w" "\<And>k. cap k w' = cap k w"
    "\<And>k. tcp_may_send T k w' = tcp_may_send T k w"
proof -
  let ?n = "min (length msg) (cap h w - length (tx h w))"
  obtain w' where "tcp_send_slice T h msg w = (Ok ?n, w')" "tx h w' = tx h w @ take ?n msg"
    "\<And>k. k \<noteq> h \<Longrightarrow> tx k w' = tx k w" "\<And>k. cap k w' = cap k w \<and> tcp_may_send T k w' = tcp_may_send T k w"
    using assms(1) [unfolded tcp_send_spec_def Let_def, THEN spec, THEN spec, THEN spec, of h w msg] assms(2) by auto
  then show ?thesis
    using assms(3) by (intro that [of w']) (auto simp: bus_send_def)
qed

lemma bus_send_closed:
  assumes "tcp_send_spec T tx cap" "\<not> tcp_may_send T h w"
  shows "bus_send T h msg w = (Panic, w)"
proof -
  obtain e where "tcp_send_slice T h msg w = (Err e, w)" using assms(1) [unfolded tcp_send_spec_def, THEN spec, THEN spec, THEN spec, of h w msg] assms(2) by auto
  then show ?thesis by (simp add: bus_send_def)
qed

text \<open>The buffers of a call, by socket.\<close>

fun buffer_handle :: "socket_bus \<Rightarrow> bytes_bus_msg \<Rightarrow> socket_handle" where
  "buffer_handle sb (BytesToWatcher buf) = sb_service_handle sb"
| "buffer_handle sb (BytesToFunder buf) = sb_service_handle sb"
| "buffer_handle sb (BytesToParticipant s r buf) = sb_participant_handle sb"

fun buffer_bytes :: "bytes_bus_msg \<Rightarrow> bytes" where
  "buffer_bytes (BytesToWatcher buf) = buf"
| "buffer_bytes (BytesToFunder buf) = buf"
| "buffer_bytes (BytesToParticipant s r buf) = buf"

definition bound_for :: "socket_bus \<Rightarrow> socket_handle \<Rightarrow> bytes_bus \<Rightarrow> bytes" where
  "bound_for sb h bufs = concat (map buffer_bytes (filter (\<lambda>m. buffer_handle sb m = h) bufs))"

lemma bound_for_simps [simp]:
  "bound_for sb h [] = []"
  "bound_for sb h (m # ms) = (if buffer_handle sb m = h then buffer_bytes m else []) @ bound_for sb h ms"
  by (simp_all add: bound_for_def)

lemma sb_deliver_eq: "sb_deliver T sb m = bus_send T (buffer_handle sb m) (buffer_bytes m)"
  by (cases m) (simp_all add: sb_deliver_def sb_send_to_watcher_def sb_send_to_funder_def sb_send_to_participant_def)

text \<open>All sockets of the bus have room for what goes to them.\<close>

definition room :: "(socket_handle \<Rightarrow> 'w \<Rightarrow> bytes) \<Rightarrow> (socket_handle \<Rightarrow> 'w \<Rightarrow> nat) \<Rightarrow> socket_bus \<Rightarrow> bytes_bus \<Rightarrow> 'w \<Rightarrow> bool" where
  "room tx cap sb bufs w \<longleftrightarrow> (\<forall>h \<in> {sb_participant_handle sb, sb_service_handle sb}.
     length (tx h w) + length (bound_for sb h bufs) \<le> cap h w)"

lemma buffer_handle_cases: "buffer_handle sb m \<in> {sb_participant_handle sb, sb_service_handle sb}"
  by (cases m) simp_all

lemma deliver_all_room:
  assumes "tcp_send_spec T tx cap" "\<forall>h \<in> {sb_participant_handle sb, sb_service_handle sb}. tcp_may_send T h w"
    "room tx cap sb [] w"
  shows "\<exists>w'. deliver_all (sb_deliver T sb) bufs w =
      ((if room tx cap sb bufs w then Ok () else Panic :: ('e, unit) res), w') \<and>
    (room tx cap sb bufs w \<longrightarrow> (\<forall>h \<in> {sb_participant_handle sb, sb_service_handle sb}.
      tx h w' = tx h w @ bound_for sb h bufs))"
  using assms(2,3)
proof (induction bufs arbitrary: w)
  case (Cons m ms)
  let ?S = "{sb_participant_handle sb, sb_service_handle sb}" and ?h = "buffer_handle sb m"
  have h: "?h \<in> ?S" by (rule buffer_handle_cases)
  obtain w1 where w1: "bus_send T ?h (buffer_bytes m) w =
      ((if length (tx ?h w) + length (buffer_bytes m) \<le> cap ?h w then Ok () else Panic :: ('e, unit) res), w1)"
    "length (tx ?h w) + length (buffer_bytes m) \<le> cap ?h w \<Longrightarrow> tx ?h w1 = tx ?h w @ buffer_bytes m"
    "\<And>k. k \<noteq> ?h \<Longrightarrow> tx k w1 = tx k w" "\<And>k. cap k w1 = cap k w"
    "\<And>k. tcp_may_send T k w1 = tcp_may_send T k w"
  proof (rule bus_send_outcome [OF assms(1), where h = ?h and w = w and msg = "buffer_bytes m" and ?'e = 'e])
  qed (use Cons.prems h in \<open>auto simp: room_def\<close>)
  show ?case
  proof (cases "length (tx ?h w) + length (buffer_bytes m) \<le> cap ?h w")
    case True
    have tx1: "tx k w1 = tx k w @ (if ?h = k then buffer_bytes m else [])" for k
      using w1(2) [OF True] w1(3) [of k] by auto
    have "room tx cap sb [] w1" using Cons.prems(2) True by (auto simp: room_def tx1 w1(4))
    moreover have "room tx cap sb ms w1 \<longleftrightarrow> room tx cap sb (m # ms) w" by (auto simp: room_def tx1 w1(4))
    ultimately show ?thesis
      using Cons.IH [of w1] Cons.prems(1) w1(1,5) True tx1 by (auto simp: bindS_def sb_deliver_eq)
  next
    case False
    then have "\<not> room tx cap sb (m # ms) w" using h by (fastforce simp: room_def)
    then show ?thesis using w1(1) False by (simp add: bindS_def sb_deliver_eq)
  qed
qed (simp add: room_def)

text \<open>
  C29: what a call may send.  On the interface that \<open>main\<close> sets up, with both connections open, a call of
  the library goes through with its own outcome exactly when all it sends to the other participant
  and all it sends to the watcher and the funder fit what is left of the transmit buffers, 512 and
  1024 bytes in all; it then is queued in order behind what was waiting.  Otherwise the device
  panics, as it does when its first message goes to a closed connection.
\<close>

theorem tx_buffers_bound:
  fixes m :: "('c \<times> bus, 'e, 'a) cmd"
  assumes spec: "tcp_send_spec T tx cap" and made: "interface_made T cap (main_interface seed) w"
    and waiting: "length (tx 0 w) \<le> 512" "length (tx 1 w) \<le> 1024"
    and call: "m (c, []) = (r, (c', msgs))" "pb_send_all b X P msgs [] = ((Ok () :: ('e, unit) res), bufs)"
  shows "let p = bound_for main_bus 0 bufs; s = bound_for main_bus 1 bufs;
      fits = (length (tx 0 w) + length p \<le> 512 \<and> length (tx 1 w) + length s \<le> 1024) in
    (tcp_may_send T 0 w \<and> tcp_may_send T 1 w \<longrightarrow>
      (\<exists>w'. on_sockets b X P T main_bus m (c, w) = (if fits then r else Panic, (c', w')) \<and>
        (fits \<longrightarrow> tx 0 w' = tx 0 w @ p \<and> tx 1 w' = tx 1 w @ s))) \<and>
    (\<forall>x xs. bufs = x # xs \<and> \<not> tcp_may_send T (buffer_handle main_bus x) w \<longrightarrow>
      on_sockets b X P T main_bus m (c, w) = (Panic, (c', w)))"
proof -
  have caps: "cap 0 w = 512" "cap 1 w = 1024"
    using made by (simp_all add: interface_made_def main_interface_def participant_socket_def service_socket_def
        MAX_MESSAGE_SIZE_def All_less_Suc numeral_2_eq_2)
  have room: "room tx cap main_bus bs w \<longleftrightarrow> length (tx 0 w) + length (bound_for main_bus 0 bs) \<le> 512 \<and>
      length (tx 1 w) + length (bound_for main_bus 1 bs) \<le> 1024" for bs
    using caps by (simp add: room_def)
  have closed: "deliver_all (sb_deliver T main_bus) (x # xs) w = ((Panic :: ('e, unit) res), w)"
    if "\<not> tcp_may_send T (buffer_handle main_bus x) w" for x xs
    by (simp add: bindS_def sb_deliver_eq bus_send_closed [OF spec that])
  have sockets: "on_sockets b X P T main_bus m (c, w) =
      (case deliver_all (sb_deliver T main_bus) bufs w of (sent :: ('e, unit) res, w') \<Rightarrow> (if sent = Ok () then r else Panic, (c', w')))"
    by (simp add: on_sockets_def on_wire_def call)
  have "\<exists>w'. on_sockets b X P T main_bus m (c, w) = (if room tx cap main_bus bufs w then r else Panic, (c', w')) \<and>
      (room tx cap main_bus bufs w \<longrightarrow> tx 0 w' = tx 0 w @ bound_for main_bus 0 bufs \<and> tx 1 w' = tx 1 w @ bound_for main_bus 1 bufs)"
    if "tcp_may_send T 0 w" "tcp_may_send T 1 w"
  proof -
    have "\<forall>h\<in>{sb_participant_handle main_bus, sb_service_handle main_bus}. tcp_may_send T h w"
      using that by simp
    moreover have "room tx cap main_bus [] w" using waiting by (simp add: room)
    ultimately obtain w' where "deliver_all (sb_deliver T main_bus) bufs w =
        ((if room tx cap main_bus bufs w then Ok () else Panic :: ('e, unit) res), w')"
      "room tx cap main_bus bufs w \<longrightarrow> (\<forall>h\<in>{sb_participant_handle main_bus, sb_service_handle main_bus}.
        tx h w' = tx h w @ bound_for main_bus h bufs)"
      using deliver_all_room [OF spec, of main_bus w bufs, where ?'e = 'e] by blast
    then show ?thesis by (intro exI [of _ w']) (simp add: sockets)
  qed
  moreover have "\<forall>x xs. bufs = x # xs \<and> \<not> tcp_may_send T (buffer_handle main_bus x) w \<longrightarrow>
      on_sockets b X P T main_bus m (c, w) = (Panic, (c', w))"
    by (auto simp: sockets closed simp del: deliver_all.simps)
  ultimately show ?thesis unfolding room Let_def by blast
qed

text \<open>Sockets with the buffers of \<open>main\<close>, and a message that just fits or does not.\<close>

definition small_tcp :: "toy_net tcp" where
  "small_tcp = toy_tcp\<lparr>tcp_send_slice := (\<lambda>h msg w.
     let n = min (length msg) ((if h = 0 then 512 else 1024) - length (tn_tx w h)) in
     (Ok n, w\<lparr>tn_tx := (tn_tx w)(h := tn_tx w h @ take n msg)\<rparr>))\<rparr>"

lemma small_tcp_spec: "tcp_send_spec small_tcp (\<lambda>h w. tn_tx w h) (\<lambda>h w. if h = 0 then 512 else 1024)"
  unfolding tcp_send_spec_def by (simp add: small_tcp_def toy_tcp_def Let_def)

lemma small_tcp_made: "interface_made small_tcp (\<lambda>h w. if h = 0 then 512 else 1024) (main_interface seed) w"
  by (simp add: interface_made_def main_interface_def participant_socket_def service_socket_def MAX_MESSAGE_SIZE_def
      All_less_Suc numeral_2_eq_2) (simp add: small_tcp_def toy_tcp_def)

theorem tx_buffers_bound_witness:
  "\<exists>w1 w2. on_sockets \<lparr>profile = Debug, ptr_width = W32\<rparr> toy_ext \<lparr>encode_message = (\<lambda>_. []), encode_envelope = (\<lambda>_. replicate 510 0)\<rparr> small_tcp main_bus
      (on_bus (\<lambda>bus. (Ok (), send_handshake_msg [] [] bus))) ((), \<lparr>tn_rx = (\<lambda>_. []), tn_tx = (\<lambda>_. [])\<rparr>) =
      ((Ok () :: (unit, unit) res), ((), w1)) \<and>
    on_sockets \<lparr>profile = Debug, ptr_width = W32\<rparr> toy_ext \<lparr>encode_message = (\<lambda>_. []), encode_envelope = (\<lambda>_. replicate 511 0)\<rparr> small_tcp main_bus
      (on_bus (\<lambda>bus. (Ok (), send_handshake_msg [] [] bus))) ((), \<lparr>tn_rx = (\<lambda>_. []), tn_tx = (\<lambda>_. [])\<rparr>) =
      ((Panic :: (unit, unit) res), ((), w2))"
proof -
  let ?w = "\<lparr>tn_rx = (\<lambda>_. []), tn_tx = (\<lambda>_. [])\<rparr>"
    and ?P = "\<lambda>n. \<lparr>encode_message = (\<lambda>_. []), encode_envelope = (\<lambda>_. replicate n 0)\<rparr>"
  have send: "on_bus (\<lambda>bus. (Ok (), send_handshake_msg [] [] bus)) ((), []) =
      ((Ok () :: (unit, unit) res), ((), [ToParticipant [] [] Auth]))"
    by (simp add: on_bus_def send_handshake_msg_def send_to_participant_def)
  have enc: "pb_send_all \<lparr>profile = Debug, ptr_width = W32\<rparr> toy_ext (?P n) [ToParticipant [] [] Auth] [] =
      ((Ok () :: (unit, unit) res), [BytesToParticipant [] [] (framed (replicate n 0))])" if "n < 2 ^ 16" for n
    using that by (simp add: bindS_def pb_send_def pb_send_to_participant_def frame_def framed_def)
  have "\<exists>w'. on_sockets \<lparr>profile = Debug, ptr_width = W32\<rparr> toy_ext (?P n) small_tcp main_bus (on_bus (\<lambda>bus. (Ok (), send_handshake_msg [] [] bus))) ((), ?w) =
      ((if n \<le> 510 then Ok () else Panic :: (unit, unit) res), ((), w'))" if "n < 2 ^ 16" for n
    using tx_buffers_bound [where m = "on_bus (\<lambda>bus. (Ok (), send_handshake_msg [] [] bus))" and w = ?w,
        OF small_tcp_spec small_tcp_made _ _ send enc [OF that]]
    by (auto simp: Let_def framed_def small_tcp_def toy_tcp_def)
  from this [of 510] this [of 511] show ?thesis by simp
qed

end
