(* ===== verification/Network_Disputes.thy ===== *)
theory Network_Disputes
  imports Network_Props
begin

text \<open>
  What the two ends of the network take to the chain.  A forced close sends a register request with
  the state that the end holds; the signatures behind it come from the invariant of one channel,
  its place among the states of both ends from the agreement of the two.
\<close>

section \<open>Register requests\<close>

definition registered :: "bus \<Rightarrow> adjudicator_req list" where
  "registered bus = concat (map (\<lambda>m. case m of ToFunder (RegisterReqMsg r) \<Rightarrow> [rr_adj_req r] | _ \<Rightarrow> []) bus)"

lemma registered_simps [simp]:
  "registered [] = []" "registered (bus @ bus') = registered bus @ registered bus'"
  "registered (ToParticipant x y m # bus) = registered bus" "registered (ToWatcher w # bus) = registered bus"
  "registered (ToFunder (RegisterReqMsg r) # bus) = rr_adj_req r # registered bus"
  "registered (ToFunder (FundReq f) # bus) = registered bus"
  "registered (ToFunder (WithdrawReqMsg v) # bus) = registered bus"
  by (simp_all add: registered_def)

lemma registered_services [simp]: "registered (to_services bus) = registered bus"
  by (induction bus) (auto simp: to_services_def registered_def split: bus_msg.split)

lemma registered_ok:
  assumes "bus_ok b X bus" "r \<in> set (registered bus)"
  shows "fully_signed b X (ar_params r) (tx_state (ar_tx r)) (tx_sigs (ar_tx r))"
proof -
  obtain q where "ToFunder (RegisterReqMsg q) \<in> set bus" "r = rr_adj_req q"
    using assms(2) by (auto simp: registered_def split: bus_msg.splits funder_request_message.splits)
  then show ?thesis using assms(1) by (auto simp: in_set_conv_nth bus_ok_def msg_ok_def Let_def)
qed

lemma bus_ok_services: "bus_ok b X bus \<Longrightarrow> bus_ok b X (to_services bus)"
proof (induction bus rule: rev_induct)
  case (snoc m bus)
  have "watch_requested p s (to_services bus) = watch_requested p s bus" for p s
    by (induction bus) (auto simp: watch_requested_def to_services_def split: bus_msg.split)
  then show ?case using snoc
    by (auto simp: to_services_def msg_ok_def split: bus_msg.splits funder_request_message.splits)
qed (simp add: to_services_def)

lemma bus_ok_append:
  assumes "bus_ok b X bus"
  shows "bus_ok b X new \<Longrightarrow> bus_ok b X (bus @ new)"
proof (induction new rule: rev_induct)
  case (snoc m new)
  have "msg_ok b X new m \<Longrightarrow> msg_ok b X (bus @ new) m"
    by (auto simp: msg_ok_def watch_requested_def split: bus_msg.splits funder_request_message.splits)
  then show ?case using snoc bus_ok_snoc [of b X "bus @ new" m] by simp
qed (simp add: assms)

text \<open>Only a forced close registers.\<close>

lemma broadcast_from_registered: "registered (broadcast_from i k s peers m bus) = registered bus"
  by (induction peers arbitrary: i bus) (auto simp: send_to_participant_def)

lemma broadcast_registered:
  "broadcast_to_participants k peers m bus = ((r :: ('e, unit) res), bus') \<Longrightarrow> registered bus' = registered bus"
  by (auto simp: broadcast_to_participants_def broadcast_from_registered split: res.splits)

lemma sign_registered: "sign b X (c, bus) = (r, (c', bus')) \<Longrightarrow> registered bus' = registered bus"
  using broadcast_registered [where ?'e = sign_error]
  by (fastforce simp: sign_def bindS_def modify_obj_def on_bus_def split: res.splits option.splits prod.splits)

lemma accept_registered: "accept b X ch (u, bus) = (r, (u', bus')) \<Longrightarrow> registered bus' = registered bus"
  using broadcast_registered [where ?'e = accept_error]
  by (fastforce simp: accept_def bindS_def modify_obj_def on_bus_def split: res.splits option.splits prod.splits)

lemma apply_registered: "apply_update b u (ch, bus) = (r, (ch', bus')) \<Longrightarrow> registered bus' = registered bus"
  using apply_update_not_Ok by (cases "r = Ok ()"; fastforce simp: apply_update_Ok Let_def)

lemma build_signed_registered: "build_signed b c bus = (r, bus') \<Longrightarrow> registered bus' = registered bus"
  by (auto simp: build_signed_def bindS_def send_to_watcher_def send_to_funder_def split: res.splits prod.splits)

lemma update_registered: "update b X ch t bus = (r, bus') \<Longrightarrow> registered bus' = registered bus"
  using broadcast_registered [where ?'e = propose_update_error]
  by (fastforce simp: update_def bindS_def split: res.splits prod.splits)

lemma arms_registered:
  "proposal_accepted_arm b X a c bus = (r, bus') \<Longrightarrow> registered bus' = registered bus"
  "signature_arm b X m ag bus = (r, bus') \<Longrightarrow> registered bus' = registered bus"
  "remote_update_arm b X u ch bus = (r, bus') \<Longrightarrow> registered bus' = registered bus"
  "update_accepted_arm b X m ch v bus = (r, bus') \<Longrightarrow> registered bus' = registered bus"
  by (auto simp: proposal_accepted_arm_def signature_arm_def remote_update_arm_def update_accepted_arm_def
      dest!: sign_registered build_signed_registered accept_registered apply_registered
      split: res.splits prod.splits)

lemma participant_registered:
  assumes "process_participant_msg b X m (inner, bus) = (r, (inner', bus'))"
  shows "registered bus' = registered bus"
proof -
  have "registered (snd (participant_transition b X m inner bus)) = registered bus"
    by (cases "(b, X, m, inner)" rule: participant_transition.cases)
      (auto simp: arms_registered [OF surjective_pairing] split: participant_message.split)
  then show ?thesis using assms
    by (auto simp: process_participant_msg_def progress_def split: res.splits prod.splits)
qed

lemma payment_registered:
  "channel_update_op b X amount is_final (inner, bus) = (r, (inner', bus')) \<Longrightarrow> registered bus' = registered bus"
  by (auto simp: channel_update_op_def dest!: update_registered split: channel_inner.splits res.splits prod.splits)

text \<open>An end whose channel went to the chain, or is over.\<close>

definition disputed :: "channel_inner \<Rightarrow> bool" where
  "disputed inner \<longleftrightarrow> inner = ForceClosing \<or> inner = Closed"

lemma step_registers:
  assumes "demo_step b X (inner, []) (inner', bus)"
  shows "registered bus = [] \<and> (disputed inner \<longrightarrow> disputed inner' \<and> watched bus = []) \<or>
    (\<exists>ch u. inner = Active ch u \<and> inner' = ForceClosing \<and>
       bus = [ToFunder (RegisterReqMsg \<lparr>rr_adj_req = adjudicator_request ch\<rparr>)])"
  using assms
proof cases
  case (updating amount is_final r)
  then have "disputed inner \<longrightarrow> inner' = inner \<and> bus = []" by (auto simp: channel_update_op_def disputed_def)
  then show ?thesis using payment_registered [OF updating] by auto
next
  case (force_closing r)
  then show ?thesis
    by (cases inner) (auto simp: channel_force_close_def progress_def force_close_transition_def force_close_def
        send_to_funder_def)
next
  case (watcher_reply w r)
  then show ?thesis
    by (cases "(w, inner)" rule: watcher_transition.cases)
      (auto simp: process_watcher_reply_def progress_def disputed_def split: if_splits)
next
  case (funder_reply f r)
  then show ?thesis
    by (cases "(f, inner)" rule: funder_transition.cases)
      (auto simp: process_funder_reply_def progress_def disputed_def split: if_splits)
next
  case (participant_msg m r)
  then have "disputed inner \<longrightarrow> inner' = inner \<and> bus = []"
    by (auto simp: process_participant_msg_def progress_def disputed_def)
  then show ?thesis using participant_registered [OF participant_msg(2)] by auto
qed

section \<open>The invariant\<close>

definition dispute_inv :: "build \<Rightarrow> ext \<Rightarrow> deal \<Rightarrow> bool \<Rightarrow> channel_inner \<Rightarrow> bus \<Rightarrow> bool" where
  "dispute_inv b X D p inner bus \<longleftrightarrow> demo_inv b X (inner, bus) \<and>
     (registered bus = [] \<or> disputed inner \<and> (\<exists>r. registered bus = [r] \<and> ar_params r = dl_params X D \<and>
        ar_idx r = side p \<and> watched bus \<noteq> [] \<and> tx_state (ar_tx r) = last (watched bus)))"

definition chain_inv :: "build \<Rightarrow> ext \<Rightarrow> deal \<Rightarrow> net \<Rightarrow> bool" where
  "chain_inv b X D c \<longleftrightarrow> net_inv b X D c \<and> (\<forall>p. dispute_inv b X D p (nt_end c p) (nt_out c p))"

text \<open>A step of the network is one of one of the channels; what is on the way is well formed.\<close>

lemma net_step_end:
  assumes inv: "net_inv b X D c" and step: "net_step b X no_pending c c'"
  obtains p inner bus d where "demo_step b X (nt_end c p, []) (inner, bus)" "c' = acted p (inner, bus) d"
    "nt_end d = nt_end c" "nt_out d = nt_out c"
proof -
  have msg: "participant_msg_wf m" if "nt_in c p = m # q" for p m q
  proof -
    obtain a where D: "deal_ok X D" and "net_rel b X D c a" using inv by (auto simp: net_inv_def)
    then have "list_all2 (msg_rel b X D (\<not> p)) (m # q) (cf_in a p)" using that by (simp add: net_rel_def flip: that)
    then obtain x where "msg_rel b X D (\<not> p) m x" by (auto simp: list_all2_Cons1)
    with deal_agreed(2) [OF D, of "[None, None]"] show ?thesis
      by (auto simp: msg_rel_def participant_msg_wf_def split: amsg.splits)
  qed
  have "\<exists>p s d. demo_step b X (nt_end c p, []) s \<and> c' = acted p s d \<and> nt_end d = nt_end c \<and> nt_out d = nt_out c"
    using step
  proof cases
    case message
    then obtain p m q r s where "nt_in c p = m # q" "process_participant_msg b X m (nt_end c p, []) = (r, s)"
      "c' = acted p s (delivered p c)" by (cases rule: delivery.cases) blast
    then show ?thesis using demo_step.participant_msg [OF msg]
      by (intro exI [of _ p] exI [of _ s] exI [of _ "delivered p c"]) (auto simp: delivered_def)
  next
    case (payment p amount is_final r s)
    then show ?thesis using demo_step.updating [OF payment(3)] by blast
  next
    case (force_close p r s)
    then show ?thesis using demo_step.force_closing [OF force_close(2)] by blast
  next
    case (watcher_reply w p r s)
    then show ?thesis using demo_step.watcher_reply [OF watcher_reply(2)] by blast
  next
    case (funder_reply f p r s)
    then show ?thesis using demo_step.funder_reply [OF funder_reply(2)] by blast
  qed
  then show thesis using that by (metis surj_pair)
qed

lemma dispute_inv_step:
  assumes inv: "dispute_inv b X D p inner bus" and step: "demo_step b X (inner, []) (inner', new)"
    and active: "\<And>ch u. inner = Active ch u \<Longrightarrow>
      ac_params ch = dl_params X D \<and> ac_part_idx ch = side p \<and> watched bus \<noteq> [] \<and> ac_state ch = last (watched bus)"
  shows "dispute_inv b X D p inner' (bus @ to_services new)"
proof -
  have "demo_inv b X (inner, [])" using inv by (simp add: dispute_inv_def demo_inv_def)
  from demo_inv_step [OF this step] have "demo_inv b X (inner', new)" .
  then have "demo_inv b X (inner', bus @ to_services new)"
    using inv by (auto simp: dispute_inv_def demo_inv_def intro: bus_ok_append bus_ok_services)
  with step_registers [OF step] inv active show ?thesis
    by (fastforce simp: dispute_inv_def disputed_def adjudicator_request_def)
qed

lemma net_inv_active:
  assumes "net_inv b X D c" "nt_end c p = Active ch u"
  shows "ac_params ch = dl_params X D" "ac_part_idx ch = side p"
    "watched (nt_out c p) \<noteq> []" "ac_state ch = last (watched (nt_out c p))"
    "length (watched (nt_out c p)) < length (watched (nt_out c (\<not> p))) \<Longrightarrow>
      \<exists>v. u = Some v \<and> cu_new_state v = last (watched (nt_out c (\<not> p)))"
proof -
  obtain a where a: "agree_inv (channel_rules b X D) a" "net_rel b X D c a" using assms(1) by (auto simp: net_inv_def)
  then have rel: "end_rel b X D p (Active ch u) (cf_end a p)"
    "\<And>p. watched (nt_out c p) = ep_log (cf_end a p)" using assms(2) by (simp_all add: net_rel_def flip: assms(2))
  then show "ac_params ch = dl_params X D" "ac_part_idx ch = side p"
    by (auto simp: end_rel_def channel_at_def split: status.splits)
  show "watched (nt_out c p) \<noteq> []" "ac_state ch = last (watched (nt_out c p))"
    using net_inv_logs(5) [OF assms(1), of p] assms(2) by (simp_all add: holds_last_def)
  then show "\<exists>v. u = Some v \<and> cu_new_state v = last (watched (nt_out c (\<not> p)))"
    if "length (watched (nt_out c p)) < length (watched (nt_out c (\<not> p)))"
    using agree_ahead [OF a(1), of p] that rel
    by (auto simp: end_rel_def fresh_update_def split: status.splits option.splits)
qed

lemma chain_inv_step:
  assumes inv: "chain_inv b X D c" and step: "net_step b X no_pending c c'"
  shows "chain_inv b X D c'"
proof -
  have n: "net_inv b X D c" using inv by (simp add: chain_inv_def)
  obtain p inner bus d where d: "demo_step b X (nt_end c p, []) (inner, bus)" "c' = acted p (inner, bus) d"
    "nt_end d = nt_end c" "nt_out d = nt_out c" using net_step_end [OF n step] by blast
  have "dispute_inv b X D p inner (nt_out c p @ to_services bus)"
    using inv net_inv_active [OF n] by (intro dispute_inv_step [OF _ d(1)]) (auto simp: chain_inv_def)
  then show ?thesis using inv net_inv_step [OF n step] d(2-4) by (simp add: chain_inv_def acted_def)
qed

interpretation chain: invariant_system "net_step b X no_pending" "chain_inv b X D"
  by unfold_locales (rule chain_inv_step)

lemma net_start_chain:
  assumes D: "deal_ok X D" and start: "net_start b X D c"
  shows "chain_inv b X D c"
proof -
  obtain c0 sig where s: "dl_sig b X D (dl_state X D) False sig" and c0: "c0 = \<lparr>nt_end = (\<lambda>p. if p then Proposed (ProposedChannel_new (PerunClient_new (dl_signer D True)) 0
          (dl_receiver D True) (dl_proposal D)) else AgreedUpon (agreed_end X D False [None, Some sig])),
       nt_in = (\<lambda>p. if p then [ProposalAccepted (dl_acc D),
          ChannelUpdateAccepted (opening_msg X (dl_proposal D) (dl_acc D) sig)] else []),
       nt_out = (\<lambda>p. [])\<rparr>" and "\<And>c'. net_start b X D c' \<longleftrightarrow> c' = c0"
    using D by (rule net_start_conf) (rule that)
  then have c: "c = c0" using start by simp
  have "proposed_ok X (ProposedChannel_new (PerunClient_new (dl_signer D True)) 0 (dl_receiver D True) (dl_proposal D))"
    using D by (simp add: deal_ok_def proposed_ok_def proposal_wf_def ProposedChannel_new_def PerunClient_new_def)
  moreover have "agreed_inv b X (agreed_end X D False [None, Some sig])"
    using s deal_agreed(1) [OF D] deal_okD(1) [OF D] by (auto simp: agreed_inv_def agreed_wf_def less_Suc_eq numeral_2_eq_2)
  ultimately show ?thesis
    using net_start_inv [OF D start] deal_okD(1) [OF D]
    by (simp add: chain_inv_def dispute_inv_def demo_inv_def c c0)
qed

section \<open>Properties\<close>

lemma last_adjacent:
  assumes "prefix l l'" "length l' \<le> length l + 1" "l \<noteq> []" "successively R l'"
  shows "last l' = last l \<or> R (last l) (last l')"
proof -
  obtain k where k: "l' = l @ k" "length k \<le> 1" using assms(1,2) by (auto simp: prefix_def)
  then show ?thesis using assms(3,4) by (cases k) (auto simp: successively_append_iff)
qed

lemma successively_totals:
  "successively (valid_transition b) l \<Longrightarrow> l \<noteq> [] \<Longrightarrow> totals (last l) = totals (hd l)"
  by (induction l rule: induct_list012) (auto simp: valid_transition_def)

text \<open>
  C4: what reaches the chain.  From a deal between participants with different keys on, over a
  connection that delivers the messages unchanged, and with users who propose no payment while one of their
  own is pending, whatever the services and the network do and in whatever order: each end
  sends at most one register request, only by closing by force, and for the state it last handed to
  its watcher; the request carries the parameters of the deal, signatures of both participants that
  are valid for that state, and the totals of the initial state.  If both ends register, their states
  are the same or one is the valid successor of the other.  And an end that is still active is
  behind the other by at most its own pending payment, so a forced close gives up no payment of
  the other end.
\<close>

theorem registered_states_consistent:
  assumes "deal_ok X D" "net_start b X D c0" "(net_step b X no_pending)\<^sup>*\<^sup>* c0 c"
  shows "(\<forall>p. length (registered (nt_out c p)) \<le> 1 \<and> (\<forall>r. r \<in> set (registered (nt_out c p)) \<longrightarrow>
       disputed (nt_end c p) \<and> ar_params r = dl_params X D \<and> ar_idx r = side p \<and>
       watched (nt_out c p) \<noteq> [] \<and> tx_state (ar_tx r) = last (watched (nt_out c p)) \<and>
       fully_signed b X (dl_params X D) (tx_state (ar_tx r)) (tx_sigs (ar_tx r)) \<and>
       totals (tx_state (ar_tx r)) = totals (dl_state X D))) \<and>
    (\<forall>r r'. r \<in> set (registered (nt_out c True)) \<and> r' \<in> set (registered (nt_out c False)) \<longrightarrow>
       (let s = tx_state (ar_tx r); s' = tx_state (ar_tx r') in
        s = s' \<or> valid_transition b s s' \<or> valid_transition b s' s)) \<and>
    (\<forall>p ch u. nt_end c p = Active ch u \<longrightarrow>
       (let l = watched (nt_out c p); l' = watched (nt_out c (\<not> p)) in
        prefix l' l \<or> (\<exists>v. u = Some v \<and> l' = l @ [cu_new_state v])))"
proof -
  have inv: "chain_inv b X D c" using chain.reachable_inv [OF assms(3) net_start_chain [OF assms(1,2)]] .
  then have n: "net_inv b X D c" and e: "dispute_inv b X D p (nt_end c p) (nt_out c p)" for p
    by (simp_all add: chain_inv_def)
  have reg: "disputed (nt_end c p) \<and> ar_params r = dl_params X D \<and> ar_idx r = side p \<and>
      watched (nt_out c p) \<noteq> [] \<and> tx_state (ar_tx r) = last (watched (nt_out c p)) \<and>
      fully_signed b X (dl_params X D) (tx_state (ar_tx r)) (tx_sigs (ar_tx r)) \<and>
      totals (tx_state (ar_tx r)) = totals (dl_state X D)" if r: "r \<in> set (registered (nt_out c p))" for p r
    using e [of p] r registered_ok [of b X "nt_out c p" r] net_inv_logs(3,4) [OF n, of p]
      successively_totals [of b "watched (nt_out c p)"]
    by (auto simp: dispute_inv_def demo_inv_def)
  moreover have "length (registered (nt_out c p)) \<le> 1" for p using e [of p] by (auto simp: dispute_inv_def)
  moreover have "let s = tx_state (ar_tx r); s' = tx_state (ar_tx r') in
      s = s' \<or> valid_transition b s s' \<or> valid_transition b s' s"
    if "r \<in> set (registered (nt_out c True))" "r' \<in> set (registered (nt_out c False))" for r r'
    using net_inv_logs(1,2) [OF n, of True] net_inv_logs(2) [OF n, of False] reg [OF that(1)] reg [OF that(2)]
      last_adjacent [OF _ _ _ net_inv_logs(3) [OF n]] unfolding Let_def by (metis (full_types))
  moreover have "let l = watched (nt_out c p); l' = watched (nt_out c (\<not> p)) in
      prefix l' l \<or> (\<exists>v. u = Some v \<and> l' = l @ [cu_new_state v])" if act: "nt_end c p = Active ch u" for p ch u
  proof (cases "prefix (watched (nt_out c (\<not> p))) (watched (nt_out c p))")
    case False
    then obtain k where k: "watched (nt_out c (\<not> p)) = watched (nt_out c p) @ k" "k \<noteq> []"
      using net_inv_logs(1) [OF n, of p] by (auto simp: prefix_def)
    moreover have "length k \<le> 1" using net_inv_logs(2) [OF n, of "\<not> p"] k(1) by simp
    ultimately obtain t where "k = [t]" by (cases k) auto
    with net_inv_active(5) [OF n act] k(1) show ?thesis by auto
  qed (simp add: Let_def)
  ultimately show ?thesis by blast
qed

text \<open>A run to a register request: the opening of the channel, the replies of the services, a forced close.\<close>

lemma service_move:
  assumes "service_run f" "f (nt_end c p, []) = (r, (inner, bus))"
  obtains c' where "net_step b X no_pending c c'" "nt_end c' p = inner" "nt_out c' p = nt_out c p @ to_services bus"
proof (rule that [of "acted p (inner, bus) c"])
  show "net_step b X no_pending c (acted p (inner, bus) c)"
    using assms by (auto simp: service_run_def intro: net_step.intros)
qed (simp_all add: acted_def)

lemma proposer_opens:
  assumes D: "deal_ok X D" and start: "net_start b X D c0"
  obtains c sc w f where "(net_step b X no_pending)\<^sup>*\<^sup>* c0 c" "nt_end c True = Signed sc w f"
proof -
  obtain sig where s: "dl_sig b X D (dl_state X D) False sig" and c0: "nt_end c0 True = Proposed (ProposedChannel_new
      (PerunClient_new (dl_signer D True)) 0 (dl_receiver D True) (dl_proposal D))"
    "nt_in c0 True = [ProposalAccepted (dl_acc D), ChannelUpdateAccepted (opening_msg X (dl_proposal D) (dl_acc D) sig)]"
    by (rule net_start_conf [OF D, of b]) (use start in auto)
  let ?e = "\<lparr>ep_status = S_Proposed, ep_log = [], ep_pending = None\<rparr> :: state endpoint"
  have rel: "end_rel b X D True (nt_end c0 True) ?e" "ep_status ?e = S_Proposed" by (simp_all add: end_rel_def c0)
  obtain i1 b1 where 1: "process_participant_msg b X (ProposalAccepted (dl_acc D)) (nt_end c0 True, []) = (Ok (), (i1, b1))"
    "end_rel b X D True i1 (?e\<lparr>ep_status := S_Agreed\<rparr>)"
    by (rule receive_proposal [OF D rel]) (erule (1) that)
  let ?c1 = "acted True (i1, b1) (delivered True c0)"
  have c1: "nt_end ?c1 True = i1" "nt_in ?c1 True = [ChannelUpdateAccepted (opening_msg X (dl_proposal D) (dl_acc D) sig)]"
    by (simp_all add: acted_def delivered_def c0)
  obtain i2 b2 where 2: "process_participant_msg b X
      (ChannelUpdateAccepted (opening_msg X (dl_proposal D) (dl_acc D) sig)) (i1, []) = (Ok (), (i2, b2))"
    "end_rel b X D True i2 (?e\<lparr>ep_status := S_Waiting, ep_log := [dl_state X D]\<rparr>)"
    by (rule receive_signature [OF D 1(2)]) (use opening_msg_rel [OF s] in \<open>auto intro: that\<close>)
  let ?c2 = "acted True (i2, b2) (delivered True ?c1)"
  have "net_step b X no_pending c0 ?c1" "net_step b X no_pending ?c1 ?c2"
    using delivery.deliver [OF c0(2) 1(1)] delivery.deliver [OF c1(2)] 2(1) c1(1) by (auto intro!: net_step.message)
  moreover obtain sc w f where "nt_end ?c2 True = Signed sc w f" using 2(2) by (auto simp: end_rel_def acted_def)
  ultimately show thesis using that [of ?c2] by (meson converse_rtranclp_into_rtranclp rtranclp.rtrancl_refl)
qed

lemma proposer_registers:
  assumes "deal_ok X D" "net_start b X D c0"
  obtains c r where "(net_step b X no_pending)\<^sup>*\<^sup>* c0 c" "r \<in> set (registered (nt_out c True))"
proof -
  obtain c1 sc w f where 1: "(net_step b X no_pending)\<^sup>*\<^sup>* c0 c1" "nt_end c1 True = Signed sc w f"
    using assms by (rule proposer_opens)
  let ?ch = "mark_funded sc" let ?r = "adjudicator_request ?ch"
  have "process_watcher_reply (Ack [] 0) (nt_end c1 True, []) =
      (Ok (), (if f then Active ?ch None else Signed sc True f, []))"
    by (simp add: 1(2) process_watcher_reply_def progress_def)
  then obtain c2 where 2: "net_step b X no_pending c1 c2" "nt_end c2 True = (if f then Active ?ch None else Signed sc True f)"
    by (rule service_move [OF service_runs(2)]) (erule (1) that)
  have "process_funder_reply (Funded []) (nt_end c2 True, []) =
      (if f then Err DE_InvalidState else Ok (), (Active ?ch None, []))"
    by (simp add: 2(2) process_funder_reply_def progress_def)
  then obtain c3 where 3: "net_step b X no_pending c2 c3" "nt_end c3 True = Active ?ch None"
    by (rule service_move [OF service_runs(3)]) (erule (1) that)
  have "channel_force_close (nt_end c3 True, []) = (Ok (), (ForceClosing, [ToFunder (RegisterReqMsg \<lparr>rr_adj_req = ?r\<rparr>)]))"
    by (simp add: 3(2) channel_force_close_def progress_def force_close_transition_def force_close_def send_to_funder_def)
  then obtain c4 where 4: "net_step b X no_pending c3 c4" "?r \<in> set (registered (nt_out c4 True))"
    by (rule service_move [OF service_runs(1)]) (auto intro: that)
  show thesis using that [OF _ 4(2)] 1(1) 2(1) 3(1) 4(1) by (meson rtranclp.rtrancl_into_rtrancl)
qed

theorem registered_states_consistent_witness:
  "\<exists>c0 c r. net_start dbg32 toy_ext toy_deal c0 \<and> (net_step dbg32 toy_ext no_pending)\<^sup>*\<^sup>* c0 c \<and>
    registered (nt_out c True) = [r] \<and> tx_state (ar_tx r) = last (watched (nt_out c True)) \<and>
    fully_signed dbg32 toy_ext (dl_params toy_ext toy_deal) (tx_state (ar_tx r)) (tx_sigs (ar_tx r))"
proof -
  obtain c0 where start: "net_start dbg32 toy_ext toy_deal c0" using toy_deal_ok by (rule net_start_exists)
  obtain c r where c: "(net_step dbg32 toy_ext no_pending)\<^sup>*\<^sup>* c0 c" "r \<in> set (registered (nt_out c True))"
    using toy_deal_ok start by (rule proposer_registers)
  note all = registered_states_consistent [OF toy_deal_ok start c(1)]
  have "length (registered (nt_out c True)) \<le> 1" using all by blast
  then have "registered (nt_out c True) = [r]" using c(2) by (cases "registered (nt_out c True)") auto
  moreover have "tx_state (ar_tx r) = last (watched (nt_out c True))"
    "fully_signed dbg32 toy_ext (dl_params toy_ext toy_deal) (tx_state (ar_tx r)) (tx_sigs (ar_tx r))"
    using all c(2) by blast+
  ultimately show ?thesis using start c(1) by blast
qed

end
