(* ===== verification/Spec2Isabelle.thy ===== *)
theory Spec2Isabelle
  imports
    Abi_Errors Sig_Secp Payment Messages Wire
    Active_Steps Opening Protocol Withdrawal
    Demo_Props Demo_App_Props Demo_Main Example_Props
    Network_Races Same_Key Abi_Tests Example_Script
    Type_Traits Demo_Sockets Network_Disputes
begin

text \<open>
  Verification of the Perun payment channel library for embedded devices (Rust, \<open>src/src\<close>), of its
  embedded demo (\<open>src/cortex-m-demo/src\<close>) and of the host program \<open>src/examples/go-integration.rs\<close>.

  \<^bold>\<open>The program.\<close>  Two participants open a channel, exchange signed states off-chain and close
  it on-chain.  A \<open>PerunClient\<close> (\<open>client.rs\<close>) makes or receives a proposal; the channel then
  walks through types that stand for its phases: \<open>ProposedChannel\<close> collects the acceptances,
  \<open>AgreedUponChannel\<close> the signatures on the initial state, \<open>SignedChannel\<close> waits for the
  funding, \<open>ActiveChannel\<close> proposes, checks, accepts and applies \<open>ChannelUpdate\<close>s.  What is signed
  is the Keccak-256 hash of the Solidity ABI encoding that a serde serializer produces
  (\<open>abiencode\<close>).  Messages leave through a \<open>MessageBus\<close> (\<open>wire.rs\<close>), encoded as framed protocol
  buffers (\<open>wire/encoding.rs\<close>), to the other participant, a watcher and a funder.

  The demo wraps the phases into one run-time state machine (\<open>channel.rs\<close>) inside an application that
  connects, listens, receives frames from two sockets and forwards the messages
  (\<open>application.rs\<close>, \<open>bus.rs\<close>); \<open>main.rs\<close> polls it and turns the edges of four buttons (\<open>button.rs\<close>)
  into its calls.  The host program makes the same calls in a fixed order over two TCP streams.

  \<^bold>\<open>Conventions.\<close>  A call returns a value of type \<open>('e, 'a) res\<close>: \<open>Ok\<close>, \<open>Err\<close> or \<open>Panic\<close>; a method
  with \<open>&mut self\<close>, or one that sends, is a \<open>cmd\<close> that also returns the state it leaves behind,
  on every outcome.  A \<open>build\<close> fixes what Rust leaves to the target: overflow checks and
  \<open>debug_assert!\<close> (Debug) or wrap-around (Release), and 32 or 64 bit \<open>usize\<close>.  Machine integers
  are words, \<open>usize\<close> a natural number with its limit written out.  Arrays of fixed length are
  lists; the predicates \<open>\<dots>_wf\<close> of states, parameters and messages state the lengths that the Rust types
  fix, and so do \<open>proposal_ok\<close>, \<open>agreed_ok\<close> and \<open>channel_ok\<close>, the latter two with the signer having the own
  address; \<open>proposal_wf\<close>, \<open>agreed_wf\<close> and \<open>channel_wf\<close> add that there are two peers, which only the
  proposer checks and which the safety properties do not assume.  Code of other crates is a
  parameter: \<open>ext\<close> holds the hash functions, the \<open>U256\<close> operations and the curve operations,
  \<open>prost\<close> the protocol buffer encoder, \<open>secp_lib\<close> the other curve library, \<open>tcp\<close> the sockets of
  \<open>smoltcp\<close>; \<open>platform\<close> and \<open>ex_env\<close> collect what the demo and the host program run on, with the
  decoder and the random generator.  The laws \<open>u256_spec\<close>, \<open>hash_spec\<close> and \<open>crypto_spec\<close> state
  what their documentation promises (no unforgeability is assumed), \<open>secp_spec\<close>, \<open>tcp_spec\<close> and
  \<open>tcp_send_spec\<close> do so for the other two; \<open>toy_ext\<close>, \<open>toy_secp\<close>, \<open>toy_tcp\<close>
  and \<open>small_tcp\<close> meet them.

  \<^bold>\<open>Theories.\<close>
  \<^item> \<open>Prelude\<close>: outcomes, commands, machine arithmetic, big-endian byte strings, lists.
  \<^item> \<open>Serde\<close>, \<open>Abi_Ser\<close>: the serde calls a value makes, and the serializer of \<open>abiencode/ser.rs\<close>
    with its four passes.  \<open>Abi_Spec\<close>: the Solidity ABI as a recursive function, the locale
    \<open>abi_value\<close> (what the four passes owe each other, interpreted for every integer type) and the
    refinement of the encoding by the serializer.  \<open>Abi_Errors\<close>: the error of every value, and
    the slot discipline.  \<open>Abi_Tests\<close>: the test vectors recorded from the Solidity compiler, for the
    definition of the encoding and for the serializer, and the encoding of a state by the
    contract, whose source is not in the repository, as the one recorded vector shows it.
  \<^item> \<open>Abi_Types\<close>: \<open>types.rs\<close>, \<open>as_bytes.rs\<close>, \<open>as_dyn_array.rs\<close>, \<open>hashing.rs\<close>.  \<open>Type_Traits\<close>: debug output,
    error texts and random sampling of these types.  \<open>Sig\<close>: \<open>sig.rs\<close>,
    \<open>sig/k256.rs\<close>.  \<open>Sig_Secp\<close>: \<open>sig/secp256k1.rs\<close>, \<open>sig/dummy.rs\<close>; the locale \<open>eth_signer\<close> of what a
    client needs from a signer, interpreted for both.  \<open>Payment\<close>: \<open>fixed_size_payment.rs\<close>; the hashed bytes
    determine states and parameters, totals are exact, conversions from and to the wire types.
  \<^item> \<open>Messages\<close>: \<open>messages/*.rs\<close>, with the locale \<open>wire_codec\<close> of a pair of conversions.  \<open>Wire\<close>:
    the bus, broadcast, frames.
  \<^item> \<open>Active\<close>, \<open>Active_Facts\<close>, \<open>Active_Steps\<close>: \<open>active.rs\<close> and \<open>channel_update.rs\<close>; the outcome of
    every operation; a step relation over all calls with arbitrary messages; what may be on the bus
    (\<open>bus_ok\<close>: states with both signatures, and a funding request only after a watch request for the same
    state), and the invariants through the locale \<open>invariant_system\<close> of \<open>Transitions\<close>.
  \<^item> \<open>Agreed\<close>, \<open>Proposal\<close>, \<open>Opening\<close>: \<open>agreed_upon.rs\<close>, \<open>signed.rs\<close>, \<open>proposal.rs\<close>, \<open>client.rs\<close>; no
    channel opens without both signatures, and two honest clients open the same channel.
    \<open>Protocol\<close>: one payment between two honest ends.  \<open>Withdrawal\<close>: \<open>withdrawal_auth.rs\<close>, what its
    authorizations cover, and that the hashed payloads determine their kind and fields.
  \<^item> \<open>Demo_Channel\<close>, \<open>Demo_Steps\<close>, \<open>Demo_Props\<close>: \<open>cortex-m-demo/src/channel.rs\<close>, the state machine
    over all phases, which inherits the guarantees of the phases it wraps.  \<open>Demo_Button\<close>:
    \<open>cortex-m-demo/src/button.rs\<close>.
  \<^item> \<open>Agreement\<close>: what two parties promise each other who take turns in appending to a log, as a small
    protocol over two queues of messages, and its invariant.  \<open>Network\<close>: two channels of \<open>channel.rs\<close>
    whose buses feed each other's queue, with users, watchers and funders as the environment (\<open>net_step\<close>,
    with the phases in which users pay as a parameter); deliveries end.  \<open>Network_Props\<close>: a simulation of the abstract protocol by the two channels, so that
    the states handed to the two watchers never disagree and the ends converge, as long as users
    wait for an answer before they pay again (\<open>no_pending\<close>).  \<open>Network_Disputes\<close>: what
    the two ends register on the chain.  \<open>Network_Races\<close>:
    what becomes of two payments of one end, or one of each, that overlap.  \<open>Same_Key\<close>: opening a channel
    when both ends have the key that \<open>Signer::new\<close> writes out.
  \<^item> \<open>Framed\<close>: the locale \<open>framed_receiver\<close> between frames and a receiver, which both receivers below
    interpret, the messages as received, and sending through a byte bus.
  \<^item> \<open>Demo_Net\<close>: \<open>bus.rs\<close> and \<open>try_recv\<close>, which removes one frame from a socket.  \<open>Demo_Sockets\<close>: the interface and
    the sockets that \<open>main.rs\<close> makes, and what fits their transmit buffers.  \<open>Demo_App\<close>: the other
    methods of \<open>application.rs\<close>.  \<open>Demo_Msgs\<close>: which messages reach the channel.
    \<open>Demo_App_Steps\<close>, \<open>Demo_App_Props\<close>: every call of the application moves along the documented state
    machine, whose edges (\<open>app_edge\<close>) say what must have been received, and gives its channel at most one step, so that the guarantees of the channel hold for
    the application.  \<open>Demo_Main\<close>: \<open>main.rs\<close>; they hold for every run of the main loop, and what halts it.
  \<^item> \<open>Example\<close>: \<open>examples/go-integration.rs\<close>.  \<open>Example_Props\<close>: its run with an honest peer, composed of
    its three phases in a calculus of runs, down to the bytes on the two streams.  \<open>Example_Script\<close>: the
    scripted module of the feature \<open>no-go-comm\<close>.  It names a message type that no protocol file defines, so the
    example does not compile with that feature; with that message as a parameter, the theory shows how far
    the script would get.

  \<^bold>\<open>Bounds.\<close>  No definition uses fuel: the loops are structural recursions, and \<open>write_chunks\<close> and
  \<open>slots_of\<close> have termination proofs.  The endless loop of \<open>main.rs\<close> is observed for any finite number of
  iterations, each with the timer interrupts before it and the levels of the pins.  The number of assets (1) and participants (2) is what
  \<open>active.rs\<close> and its siblings fix as constants; \<open>Payment\<close> keeps them as parameters where the
  code is generic.  The network of two channels has unbounded queues and any number of steps.  It
  passes the messages themselves, unchanged; that a proposal or an update does not survive the library's own wire
  format is a property of its own (\<open>Demo_Msgs\<close>, \<open>Payment\<close>).  The agreement of the two ends is
  proved for users who keep to one pending payment of their own, which the code does not enforce;
  \<open>Network_Races\<close> shows what happens without that.  The run of the host example assumes that its ten messages
  encode to less than 64 KiB each, which is what a frame can hold.

  \<^bold>\<open>Not modelled.\<close>  \<open>Signer::new\<close> of \<open>sig/secp256k1.rs\<close>, which names an undefined variable and does not
  compile (\<open>secp_signer_ok\<close> describes the signers it could build); the hardware set-up,
  allocator and panic handler of the demo and of the \<open>no_std\<close> build of the host program;
  the printing of \<open>trace\<close> and \<open>explain!\<close>, and the tests other than those of \<open>Abi_Tests\<close>.
\<close>

end
